(* ===== verification/Prelude.thy ===== *)
theory Prelude
  imports Main
begin

text \<open>
  Shared vocabulary of the development: Go's error values, panics, 64-bit integers, maps and
  iteration over them, and the sort used by the repositories.

  \<^item> A Go function that returns \<open>(T, error)\<close> is a function into \<open>go_error + 'a\<close>: \<open>Inl\<close> the
    error, \<open>Inr\<close> the value.
  \<^item> A Go function that may panic (an index or slice bound out of range) is a function into
    \<open>'a outcome\<close>.
  \<^item> A Go \<open>map[K]V\<close> is an Isabelle map. Go ranges over a map in an unspecified order, so an
    operation that ranges over one takes the order the runtime chose as a key list; \<open>map_order\<close>
    says what the runtime promises about it (every key exactly once).
  \<^item> A Go \<open>int\<close> is an \<open>int\<close> reduced by \<open>i64\<close> after each operation that can leave the 64-bit range.
\<close>

named_theorems hs_defs \<open>definitions of the handlers and operations, for unfolding\<close>
named_theorems hs_inv \<open>invariant preservation lemmas\<close>

section \<open>Errors and panics\<close>

text \<open>
  The sentinel errors of \<^verbatim>\<open>internal/domain\<close> and \<^verbatim>\<open>vmd\<close>, compared by identity in the code
  (\<^verbatim>\<open>errors.Is\<close>), and the errors made on the spot by \<^verbatim>\<open>errors.New\<close> and \<^verbatim>\<open>fmt.Errorf\<close>.
\<close>

datatype go_error =
    ErrStreamNotFound
  | ErrInvalidStream
  | ErrConsumerNotFound
  | ErrInvalidFragmentStreamID
  | ErrInvalidFragmentTimes
  | ErrInvalidFragmentDuration
  | ErrFragmentNotFound
  | ErrInvalidWHEPOffer
  | ErrWHEPSessionNotFound
  | ErrInvalidGridDimensions
  | ErrInvalidSensitivity
  | ErrInvalidFrameDimensions
  | ErrInvalidFrameBuffer
  | ErrNew string

fun error_text :: "go_error \<Rightarrow> string" where
  "error_text ErrStreamNotFound = ''stream not found''"
| "error_text ErrInvalidStream = ''invalid stream data''"
| "error_text ErrConsumerNotFound = ''consumer not found''"
| "error_text ErrInvalidFragmentStreamID = ''invalid or empty stream_id for recording fragment''"
| "error_text ErrInvalidFragmentTimes = ''fragment end_time must be after start_time''"
| "error_text ErrInvalidFragmentDuration = ''fragment duration must be greater than zero''"
| "error_text ErrFragmentNotFound = ''recording fragment not found''"
| "error_text ErrInvalidWHEPOffer = ''invalid or empty WHEP SDP offer''"
| "error_text ErrWHEPSessionNotFound = ''WHEP session not found or expired''"
| "error_text ErrInvalidGridDimensions = ''grid dimensions must be between 2x2 and 64x64''"
| "error_text ErrInvalidSensitivity = ''sensitivity must be between 0 and 100''"
| "error_text ErrInvalidFrameDimensions = ''frame width and height must be positive''"
| "error_text ErrInvalidFrameBuffer =
     ''frame buffer size does not match specified dimensions and channels''"
| "error_text (ErrNew msg) = msg"

datatype 'a outcome = Returns 'a | Panics

fun map_outcome :: "('a \<Rightarrow> 'b) \<Rightarrow> 'a outcome \<Rightarrow> 'b outcome" where
  "map_outcome f (Returns x) = Returns (f x)"
| "map_outcome f Panics = Panics"

text \<open>The slice expression \<^verbatim>\<open>xs[a:b]\<close>, and reading one element.\<close>

definition go_slice :: "'a list \<Rightarrow> int \<Rightarrow> int \<Rightarrow> 'a list outcome" where
  "go_slice xs a b =
     (if 0 \<le> a \<and> a \<le> b \<and> b \<le> int (length xs)
      then Returns (take (nat (b - a)) (drop (nat a) xs)) else Panics)"

definition go_index :: "'a list \<Rightarrow> int \<Rightarrow> 'a outcome" where
  "go_index xs i = (if 0 \<le> i \<and> i < int (length xs) then Returns (xs ! nat i) else Panics)"

section \<open>Machine integers\<close>

definition i64 :: "int \<Rightarrow> int" where
  "i64 x = signed_take_bit 63 x"

lemma i64_range: "- (2 ^ 63) \<le> i64 x" "i64 x < 2 ^ 63"
  using signed_take_bit_int_greater_eq_minus_exp [of 63 x] signed_take_bit_int_less_exp [of 63 x]
  by (simp_all add: i64_def)

lemma i64_id: "- (2 ^ 63) \<le> x \<Longrightarrow> x < 2 ^ 63 \<Longrightarrow> i64 x = x"
  by (simp add: i64_def signed_take_bit_int_eq_self)

section \<open>Maps and ranging over them\<close>

definition map_order :: "'k list \<Rightarrow> ('k \<rightharpoonup> 'v) \<Rightarrow> bool" where
  "map_order ord m \<longleftrightarrow> distinct ord \<and> set ord = dom m"

fun range_map :: "'k list \<Rightarrow> ('k \<rightharpoonup> 'v) \<Rightarrow> 'v list" where
  "range_map [] m = []"
| "range_map (k # ks) m = (case m k of None \<Rightarrow> range_map ks m | Some v \<Rightarrow> v # range_map ks m)"

lemma set_range_map: "set (range_map ord m) = {v. \<exists>k \<in> set ord. m k = Some v}"
  by (induction ord) (auto split: option.splits)

lemma set_range_map_order: "map_order ord m \<Longrightarrow> set (range_map ord m) = ran m"
  by (auto simp: set_range_map map_order_def ran_def)

lemma range_map_map: "set ord \<subseteq> dom m \<Longrightarrow> range_map ord m = map (\<lambda>k. the (m k)) ord"
  by (induction ord) auto

lemma length_range_map: "map_order ord m \<Longrightarrow> length (range_map ord m) = card (dom m)"
  by (metis distinct_card length_map map_order_def order_refl range_map_map)

lemma range_map_cong:
  "(\<And>k. k \<in> set ord \<Longrightarrow> m k = m' k) \<Longrightarrow> range_map ord m = range_map ord m'"
  by (induction ord) (auto split: option.splits)

section \<open>The interface of a keyed table\<close>

text \<open>
  What the components that keep a \<^verbatim>\<open>map[string]T\<close> behind a mutex promise: a lookup sees the last
  write of its key and no other write. Each component interprets it on its own operations.
\<close>

locale keyed_table =
  fixes get :: "'s \<Rightarrow> 'k \<Rightarrow> 'v option"
    and put :: "'k \<Rightarrow> 'v \<Rightarrow> 's \<Rightarrow> 's"
    and del :: "'k \<Rightarrow> 's \<Rightarrow> 's"
  assumes get_put: "get (put k v s) k' = (if k' = k then Some v else get s k')"
    and get_del: "get (del k s) k' = (if k' = k then None else get s k')"
begin

definition entries_ok :: "('k \<Rightarrow> 'v \<Rightarrow> bool) \<Rightarrow> 's \<Rightarrow> bool" where
  "entries_ok P s \<longleftrightarrow> (\<forall>k v. get s k = Some v \<longrightarrow> P k v)"

lemma entries_ok_put: "entries_ok P s \<Longrightarrow> P k v \<Longrightarrow> entries_ok P (put k v s)"
  by (auto simp: entries_ok_def get_put split: if_splits)

lemma entries_ok_del: "entries_ok P s \<Longrightarrow> entries_ok P (del k s)"
  by (auto simp: entries_ok_def get_del split: if_splits)

lemma entries_ok_get: "entries_ok P s \<Longrightarrow> get s k = Some v \<Longrightarrow> P k v"
  by (simp add: entries_ok_def)

lemma get_put_put: "get (put k v (put k w s)) = get (put k v s)"
  by (simp add: get_put fun_eq_iff)

lemma get_del_put: "get (del k (put k v s)) = get (del k s)"
  by (simp add: get_put get_del fun_eq_iff)

lemma get_put_swap: "j \<noteq> k \<Longrightarrow> get (put j v (put k w s)) = get (put k w (put j v s))"
  by (auto simp: get_put fun_eq_iff)

lemma keys_put: "dom (get (put k v s)) = insert k (dom (get s))"
  by (auto simp: get_put dom_def)

lemma keys_del: "dom (get (del k s)) = dom (get s) - {k}"
  by (auto simp: get_del dom_def)

end

section \<open>The interface of a bounded ring\<close>

text \<open>
  A list of bounded length where a push evicts the oldest element once the bound is reached, as
  \<^verbatim>\<open>append(r[1:], x)\<close> does. Its content is the end of everything pushed so far.
\<close>

definition take_last :: "nat \<Rightarrow> 'a list \<Rightarrow> 'a list" where
  "take_last n xs = drop (length xs - n) xs"

lemma length_take_last [simp]: "length (take_last n xs) = min n (length xs)"
  by (simp add: take_last_def)

lemma set_take_last: "set (take_last n xs) \<subseteq> set xs"
  by (simp add: take_last_def set_drop_subset)

lemma take_last_all: "length xs \<le> n \<Longrightarrow> take_last n xs = xs"
  by (simp add: take_last_def)

lemma take_last_snoc: "0 < n \<Longrightarrow> take_last n (xs @ [x]) = take_last n (take_last n xs @ [x])"
  by (cases "n \<le> length xs") (auto simp: take_last_def Suc_diff_le)

lemma distinct_take_last: "distinct (map f xs) \<Longrightarrow> distinct (map f (take_last n xs))"
  by (metis distinct_drop drop_map take_last_def)

locale bounded_ring =
  fixes push :: "'e \<Rightarrow> 's \<Rightarrow> 's"
    and items :: "'s \<Rightarrow> 'e list"
    and bound :: "'s \<Rightarrow> nat"
  assumes items_push: "0 < bound s \<Longrightarrow> length (items s) \<le> bound s \<Longrightarrow>
      items (push e s) =
        (if length (items s) < bound s then items s @ [e] else tl (items s) @ [e])"
    and bound_push: "bound (push e s) = bound s"
begin

definition ring_ok :: "'s \<Rightarrow> bool" where
  "ring_ok s \<longleftrightarrow> 0 < bound s \<and> length (items s) \<le> bound s"

lemma items_push_last: "ring_ok s \<Longrightarrow> items (push e s) = take_last (bound s) (items s @ [e])"
  by (cases "items s") (auto simp: ring_ok_def items_push take_last_def Suc_diff_le)

lemma ring_ok_push: "ring_ok s \<Longrightarrow> ring_ok (push e s)"
  using items_push_last [of s e] by (simp add: ring_ok_def bound_push)

lemma bound_pushes: "bound (fold push es s) = bound s"
  by (induction es arbitrary: s) (simp_all add: bound_push)

lemma ring_ok_pushes: "ring_ok s \<Longrightarrow> ring_ok (fold push es s)"
  by (induction es arbitrary: s) (simp_all add: ring_ok_push)

lemma items_pushes: "ring_ok s \<Longrightarrow> items (fold push es s) = take_last (bound s) (items s @ es)"
proof (induction es rule: rev_induct)
  case Nil
  then show ?case by (simp add: ring_ok_def take_last_all)
next
  case (snoc e es)
  let ?t = "fold push es s"
  have "items (push e ?t) = take_last (bound s) (items ?t @ [e])"
    using items_push_last [OF ring_ok_pushes [OF snoc.prems]] by (simp add: bound_pushes)
  also have "\<dots> = take_last (bound s) ((items s @ es) @ [e])"
    using snoc take_last_snoc [of "bound s" "items s @ es" e] by (simp add: ring_ok_def)
  finally show ?case by simp
qed

end

section \<open>Sorting\<close>

text \<open>
  \<^verbatim>\<open>sort.Slice\<close> with a strict less function. Its order among elements neither of which is less than the
  other is unspecified; the model inserts stably, and since the operations that sort also take
  an arbitrary iteration order, every order the library may produce is covered by some iteration
  order.
\<close>

fun insert_slice :: "('a \<Rightarrow> 'a \<Rightarrow> bool) \<Rightarrow> 'a \<Rightarrow> 'a list \<Rightarrow> 'a list" where
  "insert_slice lt x [] = [x]"
| "insert_slice lt x (y # ys) =
     (if lt y x then y # insert_slice lt x ys else x # y # ys)"

fun sort_slice :: "('a \<Rightarrow> 'a \<Rightarrow> bool) \<Rightarrow> 'a list \<Rightarrow> 'a list" where
  "sort_slice lt [] = []"
| "sort_slice lt (x # xs) = insert_slice lt x (sort_slice lt xs)"

lemma length_insert_slice [simp]: "length (insert_slice lt x ys) = Suc (length ys)"
  by (induction ys) auto

lemma set_insert_slice [simp]: "set (insert_slice lt x ys) = insert x (set ys)"
  by (induction ys) auto

lemma length_sort_slice [simp]: "length (sort_slice lt xs) = length xs"
  by (induction xs) auto

lemma set_sort_slice [simp]: "set (sort_slice lt xs) = set xs"
  by (induction xs) auto

lemma count_insert_slice [simp]: "count_list (insert_slice lt x ys) z = count_list (x # ys) z"
  by (induction ys) auto

lemma count_sort_slice [simp]: "count_list (sort_slice lt xs) z = count_list xs z"
  by (induction xs) auto

definition weak_order_on :: "'a set \<Rightarrow> ('a \<Rightarrow> 'a \<Rightarrow> bool) \<Rightarrow> bool" where
  "weak_order_on A lt \<longleftrightarrow>
     (\<forall>x\<in>A. \<forall>y\<in>A. lt x y \<longrightarrow> \<not> lt y x) \<and>
     (\<forall>x\<in>A. \<forall>y\<in>A. \<forall>z\<in>A. \<not> lt y x \<longrightarrow> \<not> lt z y \<longrightarrow> \<not> lt z x)"

lemma weak_order_on_subset: "weak_order_on A lt \<Longrightarrow> B \<subseteq> A \<Longrightarrow> weak_order_on B lt"
  unfolding weak_order_on_def by blast

lemma weak_order_on_trans:
  "weak_order_on A lt \<Longrightarrow> x \<in> A \<Longrightarrow> y \<in> A \<Longrightarrow> z \<in> A \<Longrightarrow> \<not> lt y x \<Longrightarrow> \<not> lt z y \<Longrightarrow> \<not> lt z x"
  unfolding weak_order_on_def by metis

lemma sorted_insert_slice:
  assumes "weak_order_on (insert x (set ys)) lt"
    and "sorted_wrt (\<lambda>a b. \<not> lt b a) ys"
  shows "sorted_wrt (\<lambda>a b. \<not> lt b a) (insert_slice lt x ys)"
  using assms
proof (induction ys)
  case Nil
  then show ?case by simp
next
  case (Cons y ys)
  have w: "weak_order_on (insert x (set ys)) lt"
    using Cons.prems(1) by (rule weak_order_on_subset) auto
  have tail: "sorted_wrt (\<lambda>a b. \<not> lt b a) ys" and head: "\<forall>z \<in> set ys. \<not> lt z y"
    using Cons.prems(2) by simp_all
  show ?case
  proof (cases "lt y x")
    case True
    then have "\<not> lt x y" using Cons.prems(1) by (simp add: weak_order_on_def)
    then show ?thesis using True head Cons.IH [OF w tail] by simp
  next
    case False
    have "\<not> lt z x" if "z \<in> set ys" for z
      using weak_order_on_trans [OF Cons.prems(1), of x y z] False head that by simp
    then show ?thesis using False head tail by simp
  qed
qed

lemma sorted_sort_slice:
  "weak_order_on (set xs) lt \<Longrightarrow> sorted_wrt (\<lambda>a b. \<not> lt b a) (sort_slice lt xs)"
proof (induction xs)
  case Nil
  then show ?case by simp
next
  case (Cons x xs)
  have "sorted_wrt (\<lambda>a b. \<not> lt b a) (sort_slice lt xs)"
    using Cons.prems by (intro Cons.IH) (rule weak_order_on_subset, auto)
  moreover have "weak_order_on (insert x (set (sort_slice lt xs))) lt"
    using Cons.prems by simp
  ultimately show ?case by (simp add: sorted_insert_slice)
qed

end
