(* ===== verification/GoFloat.thy ===== *)
theory GoFloat
  imports Prelude Complex_Main
begin

text \<open>
  Go's \<^verbatim>\<open>float64\<close>: IEEE 754 binary64 with round-to-nearest-even, as the exact rational result of
  an operation followed by \<open>rnd\<close>. A finite value is the rational it denotes; the sign of zero
  is not kept (no modelled code prints a negative zero, or depends on the sign of an infinity that comes
  from a division by zero).
  The literals of the source go through \<open>rnd\<close> as the compiler does.
\<close>

datatype float64 = NaN | Infty bool | Fin rat

section \<open>Rounding\<close>

fun nbits :: "nat \<Rightarrow> nat" where
  "nbits n = (if n = 0 then 0 else Suc (nbits (n div 2)))"

declare nbits.simps [simp del]

definition ilog2 :: "rat \<Rightarrow> int" where
  "ilog2 a =
     (if 1 \<le> a then int (nbits (nat \<lfloor>a\<rfloor>)) - 1
      else - int (nbits (nat (\<lceil>1 / a\<rceil> - 1))))"

definition half_even :: "rat \<Rightarrow> int" where
  "half_even x =
     (let f = \<lfloor>x\<rfloor>; d = x - of_int f in
      if d < 1 / 2 then f else if 1 / 2 < d then f + 1 else if even f then f else f + 1)"

definition ulp_exp :: "rat \<Rightarrow> int" where
  "ulp_exp a = max (ilog2 a - 52) (- 1074)"

definition round_pos :: "rat \<Rightarrow> rat" where
  "round_pos a = of_int (half_even (a / 2 powi ulp_exp a)) * 2 powi ulp_exp a"

definition max_float :: rat where
  "max_float = (2 ^ 53 - 1) * 2 ^ 971"

definition rnd :: "rat \<Rightarrow> float64" where
  "rnd r =
     (if r = 0 then Fin 0
      else let v = round_pos \<bar>r\<bar> in
        if max_float < v then Infty (r < 0) else Fin (if r < 0 then - v else v))"

section \<open>Arithmetic and comparison\<close>

fun fneg :: "float64 \<Rightarrow> float64" where
  "fneg NaN = NaN"
| "fneg (Infty s) = Infty (\<not> s)"
| "fneg (Fin a) = Fin (- a)"

fun fadd :: "float64 \<Rightarrow> float64 \<Rightarrow> float64" where
  "fadd (Fin a) (Fin b) = rnd (a + b)"
| "fadd (Infty s) (Infty t) = (if s = t then Infty s else NaN)"
| "fadd (Infty s) (Fin b) = Infty s"
| "fadd (Fin a) (Infty t) = Infty t"
| "fadd NaN _ = NaN"
| "fadd _ NaN = NaN"

definition fsub :: "float64 \<Rightarrow> float64 \<Rightarrow> float64" where
  "fsub x y = fadd x (fneg y)"

fun fmul :: "float64 \<Rightarrow> float64 \<Rightarrow> float64" where
  "fmul (Fin a) (Fin b) = rnd (a * b)"
| "fmul (Infty s) (Infty t) = Infty (s \<noteq> t)"
| "fmul (Infty s) (Fin b) = (if b = 0 then NaN else Infty (s \<noteq> (b < 0)))"
| "fmul (Fin a) (Infty t) = (if a = 0 then NaN else Infty (t \<noteq> (a < 0)))"
| "fmul NaN _ = NaN"
| "fmul _ NaN = NaN"

fun fdiv :: "float64 \<Rightarrow> float64 \<Rightarrow> float64" where
  "fdiv (Fin a) (Fin b) =
     (if b = 0 then (if a = 0 then NaN else Infty (a < 0)) else rnd (a / b))"
| "fdiv (Infty s) (Infty t) = NaN"
| "fdiv (Infty s) (Fin b) = Infty (s \<noteq> (b < 0))"
| "fdiv (Fin a) (Infty t) = Fin 0"
| "fdiv NaN _ = NaN"
| "fdiv _ NaN = NaN"

fun flt :: "float64 \<Rightarrow> float64 \<Rightarrow> bool" where
  "flt (Fin a) (Fin b) = (a < b)"
| "flt (Infty s) (Infty t) = (s \<and> \<not> t)"
| "flt (Infty s) (Fin b) = s"
| "flt (Fin a) (Infty t) = (\<not> t)"
| "flt NaN _ = False"
| "flt _ NaN = False"

fun feq :: "float64 \<Rightarrow> float64 \<Rightarrow> bool" where
  "feq NaN _ = False"
| "feq _ NaN = False"
| "feq x y = (x = y)"

definition fle :: "float64 \<Rightarrow> float64 \<Rightarrow> bool" where
  "fle x y = (flt x y \<or> feq x y)"

fun fabs :: "float64 \<Rightarrow> float64" where
  "fabs NaN = NaN"
| "fabs (Infty s) = Infty False"
| "fabs (Fin a) = Fin \<bar>a\<bar>"

text \<open>\<^verbatim>\<open>math.Max\<close> and \<^verbatim>\<open>math.Min\<close>: an infinity of the right sign wins over a NaN.\<close>

definition fmax :: "float64 \<Rightarrow> float64 \<Rightarrow> float64" where
  "fmax x y =
     (if x = Infty False \<or> y = Infty False then Infty False
      else if x = NaN \<or> y = NaN then NaN
      else if flt y x then x else y)"

definition fmin :: "float64 \<Rightarrow> float64 \<Rightarrow> float64" where
  "fmin x y =
     (if x = Infty True \<or> y = Infty True then Infty True
      else if x = NaN \<or> y = NaN then NaN
      else if flt x y then x else y)"

text \<open>\<^verbatim>\<open>math.Round\<close>: to the nearest integer, half away from zero.\<close>

fun fround :: "float64 \<Rightarrow> float64" where
  "fround (Fin a) =
     Fin (if a < 0 then - of_int \<lfloor>- a + 1 / 2\<rfloor> else of_int \<lfloor>a + 1 / 2\<rfloor>)"
| "fround x = x"

definition f_of_int :: "int \<Rightarrow> float64" where
  "f_of_int n = rnd (of_int n)"

text \<open>
  \<^verbatim>\<open>int64(f)\<close>: truncation towards zero. Where the value does not fit, the language leaves the
  result to the implementation; this is what amd64 does (the least integer).
\<close>

fun f_to_i64 :: "float64 \<Rightarrow> int" where
  "f_to_i64 (Fin a) =
     (let n = (if a < 0 then - \<lfloor>- a\<rfloor> else \<lfloor>a\<rfloor>)
      in if - (2 ^ 63) \<le> n \<and> n < 2 ^ 63 then n else - (2 ^ 63))"
| "f_to_i64 _ = - (2 ^ 63)"

section \<open>Rounding is monotone and exact on representable values\<close>

lemma nbits_bounds: "0 < n \<Longrightarrow> 2 ^ (nbits n - 1) \<le> n \<and> n < 2 ^ nbits n \<and> 0 < nbits n"
proof (induction n rule: nbits.induct)
  case (1 n)
  show ?case
  proof (cases "n div 2 = 0")
    case True
    then have "n = 1" using "1.prems" by simp
    then show ?thesis by (simp add: nbits.simps)
  next
    case False
    then have ih: "2 ^ (nbits (n div 2) - 1) \<le> n div 2" "n div 2 < 2 ^ nbits (n div 2)"
        "0 < nbits (n div 2)"
      using "1.IH" "1.prems" by auto
    obtain k where k: "nbits (n div 2) = Suc k" using ih(3) gr0_implies_Suc by blast
    have "nbits n = Suc (Suc k)" using "1.prems" k by (subst nbits.simps) simp
    then have "2 * 2 ^ k \<le> n \<and> n < 4 * 2 ^ k"
      using ih(1,2) k by (simp, linarith)
    then show ?thesis using \<open>nbits n = Suc (Suc k)\<close> by simp
  qed
qed

lemma ilog2_bounds:
  assumes "0 < a"
  shows "2 powi ilog2 a \<le> a" and "a < 2 powi (ilog2 a + 1)"
proof -
  have "2 powi ilog2 a \<le> a \<and> a < 2 powi (ilog2 a + 1)"
  proof (cases "1 \<le> a")
    case True
    define n where "n = nat \<lfloor>a\<rfloor>"
    have n: "0 < n" "of_nat n \<le> a" "a < of_nat n + 1"
      using True by (auto simp: n_def of_nat_nat) linarith+
    obtain k where k: "nbits n = Suc k" using nbits_bounds [OF n(1)] gr0_implies_Suc by blast
    have "2 ^ k \<le> n" "n + 1 \<le> 2 ^ Suc k" using nbits_bounds [OF n(1)] k by auto
    then have "of_nat (2 ^ k) \<le> (of_nat n :: rat)" "of_nat (n + 1) \<le> (of_nat (2 ^ Suc k) :: rat)"
      by (simp_all only: of_nat_le_iff)
    then have "2 ^ k \<le> (of_nat n :: rat)" "of_nat n + 1 \<le> (2::rat) ^ Suc k" by simp_all
    then have b: "(2::rat) ^ k \<le> a" "a < (2::rat) ^ Suc k" using n by linarith+
    have l: "ilog2 a = int k" using True k by (simp add: ilog2_def n_def)
    have "ilog2 a + 1 = int (Suc k)" using l by simp
    then show ?thesis unfolding l using b by (metis power_int_of_nat)
  next
    case False
    define b where "b = 1 / a"
    have b: "1 < b" "a = 1 / b" using False assms by (simp_all add: b_def)
    define c where "c = nat (\<lceil>b\<rceil> - 1)"
    have c: "0 < c" "of_nat c < b" "b \<le> of_nat c + 1"
      using b(1) by (auto simp: c_def of_nat_nat) linarith+
    obtain j where j: "nbits c = Suc j" using nbits_bounds [OF c(1)] gr0_implies_Suc by blast
    have "2 ^ j \<le> c" "c + 1 \<le> 2 ^ Suc j" using nbits_bounds [OF c(1)] j by auto
    then have "of_nat (2 ^ j) \<le> (of_nat c :: rat)" "of_nat (c + 1) \<le> (of_nat (2 ^ Suc j) :: rat)"
      by (simp_all only: of_nat_le_iff)
    then have "2 ^ j \<le> (of_nat c :: rat)" "of_nat c + 1 \<le> (2::rat) ^ Suc j" by simp_all
    then have d: "(2::rat) ^ j < b" "b \<le> 2 ^ Suc j" using c by linarith+
    have l: "ilog2 a = - int (Suc j)" using False j by (simp add: ilog2_def c_def b_def)
    have e: "ilog2 a + 1 = - int j" using l by simp
    have i: "1 / 2 ^ Suc j \<le> 1 / b" using d(2) b(1) by (intro divide_left_mono) auto
    have ii: "1 / b < 1 / 2 ^ j" using d(1) b(1) by (intro divide_strict_left_mono) auto
    have p: "(2::rat) powi - int n = 1 / 2 ^ n" for n
      by (simp add: power_int_minus divide_inverse)
    show ?thesis unfolding e unfolding l p using i ii b(2) by simp
  qed
  then show "2 powi ilog2 a \<le> a" and "a < 2 powi (ilog2 a + 1)" by auto
qed

lemma ilog2_le:
  assumes "0 < a" "a \<le> b"
  shows "ilog2 a \<le> ilog2 b"
proof (rule ccontr)
  assume "\<not> ilog2 a \<le> ilog2 b"
  then have "(2::rat) powi (ilog2 b + 1) \<le> 2 powi ilog2 a"
    by (intro power_int_increasing) auto
  then show False using ilog2_bounds(1) [OF assms(1)] ilog2_bounds(2) [of b] assms by linarith
qed

lemma half_even_cases: "half_even x = \<lfloor>x\<rfloor> \<or> half_even x = \<lfloor>x\<rfloor> + 1"
  by (simp add: half_even_def Let_def)

lemma half_even_of_int [simp]: "half_even (of_int n) = n"
  by (simp add: half_even_def)

lemma half_even_mono:
  assumes "x \<le> y"
  shows "half_even x \<le> half_even y"
proof (cases "\<lfloor>x\<rfloor> = \<lfloor>y\<rfloor>")
  case True
  then show ?thesis using assms by (auto simp: half_even_def Let_def)
next
  case False
  then have "\<lfloor>x\<rfloor> + 1 \<le> \<lfloor>y\<rfloor>" using floor_mono [OF assms] by linarith
  then show ?thesis using half_even_cases [of x] half_even_cases [of y] by linarith
qed

lemma round_pos_ge_pow:
  assumes "0 < b" "- 1074 \<le> ilog2 b - 52"
  shows "2 powi ilog2 b \<le> round_pos b"
proof -
  let ?e = "ulp_exp b"
  have e: "?e = ilog2 b - 52" using assms by (simp add: ulp_exp_def)
  have eq: "(2::rat) powi ilog2 b = 2 ^ 52 * 2 powi ?e"
    unfolding e by (simp add: power_int_diff)
  have "2 ^ 52 * 2 powi ?e \<le> b" using ilog2_bounds(1) [OF assms(1)] eq by simp
  then have "of_int (2 ^ 52) \<le> b / 2 powi ?e" by (simp add: pos_le_divide_eq)
  then have "2 ^ 52 \<le> half_even (b / 2 powi ?e)"
    using half_even_mono by (metis half_even_of_int)
  then have "of_int (2 ^ 52) * (2::rat) powi ?e \<le> of_int (half_even (b / 2 powi ?e)) * 2 powi ?e"
    by (intro mult_right_mono) (simp_all only: of_int_le_iff, simp)
  then show ?thesis by (simp add: round_pos_def eq)
qed

lemma round_pos_mono:
  assumes "0 < a" "a \<le> b"
  shows "round_pos a \<le> round_pos b"
proof -
  let ?ea = "ulp_exp a" and ?eb = "ulp_exp b"
  have le: "?ea \<le> ?eb" using ilog2_le [OF assms] by (simp add: ulp_exp_def)
  show ?thesis
  proof (cases "?ea = ?eb")
    case True
    have "a / 2 powi ?eb \<le> b / 2 powi ?eb" using assms by (simp add: divide_right_mono)
    then show ?thesis
      unfolding round_pos_def True by (intro mult_right_mono) (simp_all add: half_even_mono)
  next
    case False
    then have lt: "?ea < ?eb" using le by simp
    then have b: "?eb = ilog2 b - 52" "- 1074 \<le> ilog2 b - 52" by (auto simp: ulp_exp_def)
    have "ilog2 a < ilog2 b" using lt b by (auto simp: ulp_exp_def)
    then have "(2::rat) powi (ilog2 a + 1) \<le> 2 powi ilog2 b" by (intro power_int_increasing) auto
    then have a: "a \<le> 2 powi ilog2 b" using ilog2_bounds(2) [OF assms(1)] by linarith
    define k where "k = nat (ilog2 b - ?ea)"
    have "ilog2 b = int k + ?ea" using lt b by (simp add: k_def)
    then have p: "(2::rat) powi ilog2 b = of_int (2 ^ k) * 2 powi ?ea"
      by (simp add: power_int_add)
    have "a / 2 powi ?ea \<le> of_int (2 ^ k)" using a p by (simp add: pos_divide_le_eq)
    then have "half_even (a / 2 powi ?ea) \<le> 2 ^ k"
      using half_even_mono by (metis half_even_of_int)
    then have "of_int (half_even (a / 2 powi ?ea)) * 2 powi ?ea \<le> of_int (2 ^ k) * (2::rat) powi ?ea"
      by (intro mult_right_mono) (simp_all only: of_int_le_iff, simp)
    then have "round_pos a \<le> 2 powi ilog2 b" by (simp add: round_pos_def p)
    also have "\<dots> \<le> round_pos b" using assms b by (intro round_pos_ge_pow) auto
    finally show ?thesis .
  qed
qed

lemma round_pos_nonneg: "0 < a \<Longrightarrow> 0 \<le> round_pos a"
proof -
  assume "0 < a"
  then have "half_even (of_int 0) \<le> half_even (a / 2 powi ulp_exp a)"
    by (intro half_even_mono) simp
  then show ?thesis by (simp add: round_pos_def del: of_int_0)
qed

definition round_any :: "rat \<Rightarrow> rat" where
  "round_any r = (if r = 0 then 0 else if r < 0 then - round_pos (- r) else round_pos r)"

lemma rnd_alt:
  "rnd r = (if max_float < \<bar>round_any r\<bar> then Infty (r < 0) else Fin (round_any r))"
  using round_pos_nonneg [of r] round_pos_nonneg [of "- r"]
  by (auto simp: rnd_def round_any_def Let_def max_float_def)

lemma round_any_mono: "r \<le> s \<Longrightarrow> round_any r \<le> round_any s"
  using round_pos_nonneg [of r] round_pos_nonneg [of "- r"]
    round_pos_nonneg [of s] round_pos_nonneg [of "- s"]
    round_pos_mono [of r s] round_pos_mono [of "- s" "- r"]
  by (auto simp: round_any_def)

lemma rnd_mono: "r \<le> s \<Longrightarrow> rnd r = Fin a \<Longrightarrow> rnd s = Fin b \<Longrightarrow> a \<le> b"
  using round_any_mono by (auto simp: rnd_alt split: if_splits)

lemma rnd_between:
  assumes "lo \<le> r" "r \<le> hi" "rnd lo = Fin lo" "rnd hi = Fin hi"
  obtains v where "rnd r = Fin v" "lo \<le> v" "v \<le> hi"
proof -
  have "round_any lo = lo" "\<bar>lo\<bar> \<le> max_float" "round_any hi = hi" "\<bar>hi\<bar> \<le> max_float"
    using assms(3,4) by (auto simp: rnd_alt split: if_splits)
  moreover from this have "lo \<le> round_any r" "round_any r \<le> hi"
    using round_any_mono [OF assms(1)] round_any_mono [OF assms(2)] by auto
  ultimately have "rnd r = Fin (round_any r)" by (auto simp: rnd_alt)
  then show ?thesis using that \<open>lo \<le> round_any r\<close> \<open>round_any r \<le> hi\<close> by blast
qed

text \<open>Representable values: \<open>m * 2\<^sup>e\<close> with a 53-bit \<open>m\<close>, in range.\<close>

lemma round_pos_repr:
  assumes "a = of_int m * 2 powi e" "0 < m" "m < 2 ^ 53" "- 1074 \<le> e"
  shows "round_pos a = a"
proof -
  have a: "0 < a" using assms by simp
  have le: "ulp_exp a \<le> e"
  proof (rule ccontr)
    assume "\<not> ulp_exp a \<le> e"
    then have "e + 53 \<le> ilog2 a" using assms(4) by (auto simp: ulp_exp_def)
    then have "(2::rat) powi (e + 53) \<le> 2 powi ilog2 a" by (intro power_int_increasing) auto
    then have "(2::rat) powi (e + 53) \<le> a" using ilog2_bounds(1) [OF a] by linarith
    then have "2 ^ 53 * 2 powi e \<le> of_int m * (2::rat) powi e"
      using assms(1) by (simp add: power_int_add)
    then have "(of_int (2 ^ 53) :: rat) \<le> of_int m" by simp
    then have "2 ^ 53 \<le> m" by (simp only: of_int_le_iff)
    then show False using assms(3) by simp
  qed
  define k where "k = nat (e - ulp_exp a)"
  have e: "int k + ulp_exp a = e" using le by (simp add: k_def)
  have "(2::rat) powi (int k + ulp_exp a) = 2 ^ k * 2 powi ulp_exp a" by (simp add: power_int_add)
  then have "(2::rat) powi e = 2 ^ k * 2 powi ulp_exp a" unfolding e .
  then have "of_int (m * 2 ^ k) * 2 powi ulp_exp a = of_int m * (2::rat) powi e" by simp
  then have "a = of_int (m * 2 ^ k) * 2 powi ulp_exp a"
    using assms(1) by (rule trans [OF _ sym, rotated])
  then have "a / 2 powi ulp_exp a = of_int (m * 2 ^ k)" by (simp add: field_simps)
  then have "half_even (a / 2 powi ulp_exp a) = m * 2 ^ k" by (simp only: half_even_of_int)
  then show ?thesis
    using \<open>a = of_int (m * 2 ^ k) * 2 powi ulp_exp a\<close> by (simp add: round_pos_def)
qed

lemma rnd_repr:
  assumes "r = of_int m * 2 powi e" "\<bar>m\<bar> < 2 ^ 53" "- 1074 \<le> e" "\<bar>r\<bar> \<le> max_float"
  shows "rnd r = Fin r"
proof (cases "m = 0")
  case True
  then show ?thesis using assms by (simp add: rnd_def)
next
  case False
  have "\<bar>r\<bar> = of_int \<bar>m\<bar> * 2 powi e" using assms(1) by (simp add: abs_mult)
  then have "round_pos \<bar>r\<bar> = \<bar>r\<bar>"
    using False assms(2,3) by (intro round_pos_repr) auto
  then show ?thesis using assms(4) by (auto simp: rnd_def Let_def)
qed

lemma rnd_of_int:
  assumes "\<bar>n\<bar> < 2 ^ 53"
  shows "rnd (of_int n) = Fin (of_int n)"
proof (rule rnd_repr [of _ n 0])
  have "(2::rat) ^ 53 \<le> max_float" unfolding max_float_def by simp
  moreover have "\<bar>of_int n :: rat\<bar> \<le> of_int (2 ^ 53)"
    using assms by (simp only: of_int_abs [symmetric] of_int_le_iff)
  ultimately show "\<bar>of_int n :: rat\<bar> \<le> max_float" by simp
qed (use assms in auto)

lemma rnd_numeral [simp]: "(numeral n :: int) < 2 ^ 53 \<Longrightarrow> rnd (numeral n) = Fin (numeral n)"
  using rnd_of_int [of "numeral n"] by simp

lemma rnd_0 [simp]: "rnd 0 = Fin 0"
  by (simp add: rnd_def)

lemma rnd_1 [simp]: "rnd 1 = Fin 1"
  using rnd_of_int [of 1] by simp

section \<open>Interval bounds\<close>

text \<open>A finite float within bounds; the bounds themselves are floats where rounding must keep them.\<close>

definition fin_in :: "rat \<Rightarrow> rat \<Rightarrow> float64 \<Rightarrow> bool" where
  "fin_in lo hi x \<longleftrightarrow> (\<exists>a. x = Fin a \<and> lo \<le> a \<and> a \<le> hi)"

lemma fin_inI: "lo \<le> a \<Longrightarrow> a \<le> hi \<Longrightarrow> fin_in lo hi (Fin a)"
  by (simp add: fin_in_def)

lemma fin_in_weaken: "fin_in lo hi x \<Longrightarrow> lo' \<le> lo \<Longrightarrow> hi \<le> hi' \<Longrightarrow> fin_in lo' hi' x"
  unfolding fin_in_def by (metis order_trans)

lemma fin_in_rnd:
  "lo \<le> r \<Longrightarrow> r \<le> hi \<Longrightarrow> rnd lo = Fin lo \<Longrightarrow> rnd hi = Fin hi \<Longrightarrow> fin_in lo hi (rnd r)"
  by (rule rnd_between [of lo r hi]) (auto simp: fin_in_def)

lemma fin_in_add:
  assumes "fin_in l1 h1 x" "fin_in l2 h2 y"
    and "rnd (l1 + l2) = Fin (l1 + l2)" "rnd (h1 + h2) = Fin (h1 + h2)"
  shows "fin_in (l1 + l2) (h1 + h2) (fadd x y)"
proof -
  obtain a b where "x = Fin a" "y = Fin b" "l1 \<le> a" "a \<le> h1" "l2 \<le> b" "b \<le> h2"
    using assms(1,2) by (auto simp: fin_in_def)
  then show ?thesis using assms(3,4) by (simp add: fin_in_rnd add_mono)
qed

lemma fin_in_mult:
  assumes "fin_in 0 h1 x" "fin_in 0 h2 y" and "rnd (h1 * h2) = Fin (h1 * h2)"
  shows "fin_in 0 (h1 * h2) (fmul x y)"
proof -
  obtain a b where "x = Fin a" "y = Fin b" "0 \<le> a" "a \<le> h1" "0 \<le> b" "b \<le> h2"
    using assms(1,2) by (auto simp: fin_in_def)
  then show ?thesis using assms(3) by (simp add: fin_in_rnd mult_mono)
qed

lemma fin_in_div:
  assumes "fin_in 0 (h * d) x" and "0 < d" and "rnd h = Fin h" and "0 \<le> h"
  shows "fin_in 0 h (fdiv x (Fin d))"
proof -
  obtain a where "x = Fin a" "0 \<le> a" "a \<le> h * d" using assms(1) by (auto simp: fin_in_def)
  then show ?thesis using assms(2-4) by (simp add: fin_in_rnd pos_divide_le_eq)
qed

lemma rnd_dyadic:
  assumes "\<bar>m\<bar> < 2 ^ 53" and "k \<le> 1074"
  shows "rnd (of_int m / 2 ^ k) = Fin (of_int m / 2 ^ k)"
proof (rule rnd_repr [of _ m "- int k"])
  show "(of_int m / 2 ^ k :: rat) = of_int m * 2 powi - int k"
    by (simp add: power_int_minus divide_inverse)
  have "\<bar>of_int m :: rat\<bar> \<le> of_int (2 ^ 53)"
    using assms(1) by (simp only: of_int_abs [symmetric] of_int_le_iff)
  moreover have "\<bar>of_int m / 2 ^ k :: rat\<bar> \<le> \<bar>of_int m\<bar> / 1"
    by (simp add: abs_divide divide_le_eq mult_le_cancel_left1)
  moreover have "(2::rat) ^ 53 \<le> max_float" unfolding max_float_def by simp
  ultimately show "\<bar>of_int m / 2 ^ k :: rat\<bar> \<le> max_float" by simp
qed (use assms in auto)

lemma rnd_nat: "n < 2 ^ 53 \<Longrightarrow> rnd (of_nat n) = Fin (of_nat n)"
  using rnd_of_int [of "int n"] by simp

end
