(* ===== verification/GoText.thy ===== *)
theory GoText
  imports GoFloat
begin

text \<open>
  The parts of Go's \<^verbatim>\<open>strings\<close>, \<^verbatim>\<open>strconv\<close>, \<^verbatim>\<open>fmt\<close> and \<^verbatim>\<open>path/filepath\<close> (Unix) packages the program
  uses. A Go string is its list of bytes. Case mapping and white space are those of ASCII: the
  code applies them to identifiers, protocol text and media names.
\<close>

section \<open>strings\<close>

definition is_space :: "char \<Rightarrow> bool" where
  "is_space c \<longleftrightarrow> of_char c \<in> {9, 10, 11, 12, 13, 32 :: nat}"

definition lower_char :: "char \<Rightarrow> char" where
  "lower_char c = (let n = (of_char c :: nat) in if 65 \<le> n \<and> n \<le> 90 then char_of (n + 32) else c)"

definition upper_char :: "char \<Rightarrow> char" where
  "upper_char c = (let n = (of_char c :: nat) in if 97 \<le> n \<and> n \<le> 122 then char_of (n - 32) else c)"

definition to_lower :: "string \<Rightarrow> string" where
  "to_lower s = map lower_char s"

definition to_upper :: "string \<Rightarrow> string" where
  "to_upper s = map upper_char s"

definition equal_fold :: "string \<Rightarrow> string \<Rightarrow> bool" where
  "equal_fold s t \<longleftrightarrow> to_lower s = to_lower t"

lemma of_char_less_256: "(of_char c :: nat) < 256"
  using of_char_mod_256 [of c, where ?'a = nat] mod_less_divisor [of 256 "of_char c :: nat"]
  by linarith

lemma of_char_char_of: "n < 256 \<Longrightarrow> (of_char (char_of n) :: nat) = n"
  by (simp only: of_char_of mod_less)

lemma upper_char_idem [simp]: "upper_char (upper_char c) = upper_char c"
proof (cases "97 \<le> (of_char c :: nat) \<and> (of_char c :: nat) \<le> 122")
  case True
  then have "(of_char (char_of ((of_char c :: nat) - 32)) :: nat) = of_char c - 32"
    by (intro of_char_char_of) linarith
  moreover have "\<not> 97 \<le> (of_char c :: nat) - 32" using True by linarith
  ultimately show ?thesis using True unfolding upper_char_def Let_def by simp
next
  case False
  have "upper_char c = c" unfolding upper_char_def Let_def if_not_P [OF False] ..
  then show ?thesis by simp
qed

lemma lower_char_idem [simp]: "lower_char (lower_char c) = lower_char c"
proof (cases "65 \<le> (of_char c :: nat) \<and> (of_char c :: nat) \<le> 90")
  case True
  then have "(of_char (char_of ((of_char c :: nat) + 32)) :: nat) = of_char c + 32"
    by (intro of_char_char_of) linarith
  moreover have "\<not> (of_char c :: nat) + 32 \<le> 90" using True by linarith
  ultimately show ?thesis using True unfolding lower_char_def Let_def by simp
next
  case False
  have "lower_char c = c" unfolding lower_char_def Let_def if_not_P [OF False] ..
  then show ?thesis by simp
qed

lemma to_upper_idem [simp]: "to_upper (to_upper s) = to_upper s"
  by (simp add: to_upper_def)

lemma to_lower_idem [simp]: "to_lower (to_lower s) = to_lower s"
  by (simp add: to_lower_def)

lemma to_upper_Nil_iff [simp]: "to_upper s = [] \<longleftrightarrow> s = []" "to_lower s = [] \<longleftrightarrow> s = []"
  by (simp_all add: to_upper_def to_lower_def)

definition trim_left_func :: "(char \<Rightarrow> bool) \<Rightarrow> string \<Rightarrow> string" where
  "trim_left_func p s = dropWhile p s"

definition trim_right_func :: "(char \<Rightarrow> bool) \<Rightarrow> string \<Rightarrow> string" where
  "trim_right_func p s = rev (dropWhile p (rev s))"

definition trim_space :: "string \<Rightarrow> string" where
  "trim_space s = trim_right_func is_space (trim_left_func is_space s)"

lemma trim_space_Nil_iff: "trim_space s = [] \<longleftrightarrow> (\<forall>c \<in> set s. is_space c)"
proof -
  have "trim_space s = [] \<longleftrightarrow> (\<forall>c \<in> set (dropWhile is_space s). is_space c)"
    by (simp add: trim_space_def trim_right_func_def trim_left_func_def dropWhile_eq_Nil_conv)
  also have "\<dots> \<longleftrightarrow> dropWhile is_space s = []"
    by (metis dropWhile_eq_Nil_conv hd_dropWhile hd_in_set list.set(1) empty_iff)
  finally show ?thesis by (simp add: dropWhile_eq_Nil_conv)
qed

lemma trim_space_inner:
  assumes "trim_space u \<noteq> []" and "trim_space v \<noteq> []"
  shows "c \<in> set (trim_space (u @ [c] @ v))"
proof -
  obtain x y where x: "x \<in> set u" "\<not> is_space x" and y: "y \<in> set v" "\<not> is_space y"
    using assms by (auto simp: trim_space_Nil_iff)
  have l: "trim_left_func is_space (u @ [c] @ v) = dropWhile is_space u @ [c] @ v"
    using x by (simp add: trim_left_func_def)
  have "rev (dropWhile is_space u @ [c] @ v) = rev v @ c # rev (dropWhile is_space u)" by simp
  moreover have "dropWhile is_space (rev v @ w) = dropWhile is_space (rev v) @ w" for w
    using y by (intro dropWhile_append1 [of y]) auto
  ultimately have "trim_space (u @ [c] @ v) =
      dropWhile is_space u @ [c] @ rev (dropWhile is_space (rev v))"
    unfolding trim_space_def l trim_right_func_def by simp
  then show ?thesis by simp
qed

definition trim_cut :: "string \<Rightarrow> string \<Rightarrow> string" where
  "trim_cut s cs = trim_right_func (\<lambda>c. c \<in> set cs) (trim_left_func (\<lambda>c. c \<in> set cs) s)"

definition trim_right :: "string \<Rightarrow> string \<Rightarrow> string" where
  "trim_right s cs = trim_right_func (\<lambda>c. c \<in> set cs) s"

definition has_prefix :: "string \<Rightarrow> string \<Rightarrow> bool" where
  "has_prefix s p \<longleftrightarrow> take (length p) s = p"

definition has_suffix :: "string \<Rightarrow> string \<Rightarrow> bool" where
  "has_suffix s p \<longleftrightarrow> length p \<le> length s \<and> drop (length s - length p) s = p"

definition trim_prefix :: "string \<Rightarrow> string \<Rightarrow> string" where
  "trim_prefix s p = (if has_prefix s p then drop (length p) s else s)"

definition trim_suffix :: "string \<Rightarrow> string \<Rightarrow> string" where
  "trim_suffix s p = (if has_suffix s p then take (length s - length p) s else s)"

fun str_index :: "string \<Rightarrow> string \<Rightarrow> nat option" where
  "str_index [] sub = (if sub = [] then Some 0 else None)"
| "str_index (c # cs) sub =
     (if has_prefix (c # cs) sub then Some 0 else map_option Suc (str_index cs sub))"

definition str_contains :: "string \<Rightarrow> string \<Rightarrow> bool" where
  "str_contains s sub \<longleftrightarrow> str_index s sub \<noteq> None"

lemma has_prefix_iff: "has_prefix s p \<longleftrightarrow> (\<exists>b. s = p @ b)"
  unfolding has_prefix_def by (metis append_eq_conv_conj append_take_drop_id)

lemma str_contains_Nil: "str_contains [] sub \<longleftrightarrow> sub = []"
  by (simp add: str_contains_def)

lemma str_contains_Cons: "str_contains (c # cs) sub \<longleftrightarrow> has_prefix (c # cs) sub \<or> str_contains cs sub"
  by (auto simp: str_contains_def)

lemma str_contains_iff: "str_contains s sub \<longleftrightarrow> (\<exists>a b. s = a @ sub @ b)"
proof (induction s)
  case Nil
  then show ?case by (simp add: str_contains_Nil)
next
  case (Cons c s)
  show ?case
  proof
    assume "str_contains (c # s) sub"
    then consider "has_prefix (c # s) sub" | "str_contains s sub" by (auto simp: str_contains_Cons)
    then show "\<exists>a b. c # s = a @ sub @ b"
    proof cases
      case 1
      then show ?thesis by (metis append_Nil has_prefix_iff)
    next
      case 2
      then show ?thesis using Cons.IH by (metis append_Cons)
    qed
  next
    assume "\<exists>a b. c # s = a @ sub @ b"
    then obtain a b where e: "c # s = a @ sub @ b" by blast
    show "str_contains (c # s) sub"
    proof (cases a)
      case Nil
      then have "has_prefix (c # s) sub" using e by (auto simp: has_prefix_iff)
      then show ?thesis by (simp add: str_contains_Cons)
    next
      case (Cons d ds)
      then have "s = ds @ sub @ b" using e by simp
      then show ?thesis using Cons.IH by (auto simp: str_contains_Cons)
    qed
  qed
qed

lemma str_contains_within: "str_contains h sub \<Longrightarrow> str_contains (a @ h @ b) sub"
  unfolding str_contains_iff by (metis append.assoc)

text \<open>\<^verbatim>\<open>strings.Split\<close> for a one-byte separator.\<close>

fun split_char :: "char \<Rightarrow> string \<Rightarrow> string list" where
  "split_char sep [] = [[]]"
| "split_char sep (c # cs) =
     (if c = sep then [] # split_char sep cs
      else case split_char sep cs of [] \<Rightarrow> [[c]] | p # ps \<Rightarrow> (c # p) # ps)"

text \<open>\<^verbatim>\<open>strings.Split\<close> for a separator of two or more bytes.\<close>

lemma str_index_bound: "str_index s sub = Some i \<Longrightarrow> i + length sub \<le> length s"
proof (induction s arbitrary: i)
  case Nil
  then show ?case by (simp split: if_splits)
next
  case (Cons c s)
  show ?case
  proof (cases "has_prefix (c # s) sub")
    case True
    then have "length sub \<le> length (c # s)"
      by (metis has_prefix_def length_take min.cobounded1)
    then show ?thesis using True Cons.prems by simp
  next
    case False
    then show ?thesis using Cons by auto
  qed
qed

function split_str :: "string \<Rightarrow> string \<Rightarrow> string list" where
  "split_str s sep =
     (case str_index s sep of None \<Rightarrow> [s]
      | Some i \<Rightarrow> if sep = [] then [s] else take i s # split_str (drop (i + length sep) s) sep)"
  by pat_completeness auto
termination
  by (relation "measure (\<lambda>(s, sep). length s)") (auto dest!: str_index_bound simp: neq_Nil_conv)

declare split_str.simps [simp del]

definition str_fields :: "string \<Rightarrow> string list" where
  "str_fields s =
     filter (\<lambda>w. w \<noteq> []) (split_char (CHR '' '') (map (\<lambda>c. if is_space c then CHR '' '' else c) s))"

definition replace_char :: "char \<Rightarrow> string \<Rightarrow> string \<Rightarrow> string" where
  "replace_char c new s = concat (map (\<lambda>d. if d = c then new else [d]) s)"

definition replace_first :: "string \<Rightarrow> string \<Rightarrow> string \<Rightarrow> string" where
  "replace_first s old new =
     (case str_index s old of None \<Rightarrow> s
      | Some i \<Rightarrow> take i s @ new @ drop (i + length old) s)"

fun join_str :: "string \<Rightarrow> string list \<Rightarrow> string" where
  "join_str sep [] = []"
| "join_str sep [s] = s"
| "join_str sep (s # t # ts) = s @ sep @ join_str sep (t # ts)"

section \<open>Numbers: strconv and fmt\<close>

fun nat_str :: "nat \<Rightarrow> string" where
  "nat_str n = (if n < 10 then [char_of (48 + n)] else nat_str (n div 10) @ [char_of (48 + n mod 10)])"

declare nat_str.simps [simp del]

definition int_str :: "int \<Rightarrow> string" where
  "int_str i = (if i < 0 then CHR ''-'' # nat_str (nat (- i)) else nat_str (nat i))"

text \<open>One digit of \<^verbatim>\<open>%x\<close> and of \<^verbatim>\<open>hex.EncodeToString\<close>.\<close>

definition hex_digit :: "nat \<Rightarrow> char" where
  "hex_digit n = ''0123456789abcdef'' ! (n mod 16)"

definition digit_val :: "char \<Rightarrow> nat option" where
  "digit_val c = (let n = (of_char c :: nat) in if 48 \<le> n \<and> n \<le> 57 then Some (n - 48) else None)"

definition is_digit :: "char \<Rightarrow> bool" where
  "is_digit c \<longleftrightarrow> digit_val c \<noteq> None"

definition digits_val :: "string \<Rightarrow> nat" where
  "digits_val s = foldl (\<lambda>acc c. acc * 10 + the (digit_val c)) 0 s"

text \<open>\<^verbatim>\<open>strconv.ParseInt(s, 10, 64)\<close> and \<^verbatim>\<open>strconv.Atoi\<close>: an optional sign and at least one digit.\<close>

definition parse_signed :: "bool \<Rightarrow> string \<Rightarrow> int option" where
  "parse_signed neg ds =
     (if ds = [] \<or> \<not> list_all is_digit ds then None
      else let v = (if neg then - int (digits_val ds) else int (digits_val ds))
           in if - (2 ^ 63) \<le> v \<and> v < 2 ^ 63 then Some v else None)"

fun atoi :: "string \<Rightarrow> int option" where
  "atoi [] = None"
| "atoi (c # cs) =
     (if c = CHR ''-'' then parse_signed True cs
      else if c = CHR ''+'' then parse_signed False cs
      else parse_signed False (c # cs))"

text \<open>
  \<^verbatim>\<open>fmt.Sscanf(s, "%d", &x)\<close>: blanks are skipped, then a sign and the longest run of digits; what
  follows is ignored. \<open>None\<close>: the scan fails and \<^verbatim>\<open>x\<close> keeps its value.
\<close>

definition sscanf_int :: "string \<Rightarrow> int option" where
  "sscanf_int s =
     (let t = dropWhile (\<lambda>c. is_space c \<and> c \<noteq> char_of (10 :: nat)) s in
      case t of [] \<Rightarrow> None
      | c # cs \<Rightarrow>
        if c = CHR ''-'' then parse_signed True (takeWhile is_digit cs)
        else if c = CHR ''+'' then parse_signed False (takeWhile is_digit cs)
        else parse_signed False (takeWhile is_digit t))"

definition sscanf_into :: "int \<Rightarrow> string \<Rightarrow> int" where
  "sscanf_into old s = (case sscanf_int s of None \<Rightarrow> old | Some v \<Rightarrow> v)"

text \<open>\<^verbatim>\<open>%.<p>f\<close>: the decimal with \<open>p\<close> fractional digits nearest to the exact value.\<close>

definition pad_zeros :: "nat \<Rightarrow> string \<Rightarrow> string" where
  "pad_zeros n s = replicate (n - length s) CHR ''0'' @ s"

definition fixed_digits :: "nat \<Rightarrow> rat \<Rightarrow> string" where
  "fixed_digits p a =
     (let n = nat (half_even (a * 10 ^ p)) in
      if p = 0 then nat_str n
      else nat_str (n div 10 ^ p) @ CHR ''.'' # pad_zeros p (nat_str (n mod 10 ^ p)))"

fun fmt_fixed :: "nat \<Rightarrow> float64 \<Rightarrow> string" where
  "fmt_fixed p NaN = ''NaN''"
| "fmt_fixed p (Infty s) = (if s then ''-Inf'' else ''+Inf'')"
| "fmt_fixed p (Fin a) =
     (if a < 0 then CHR ''-'' # fixed_digits p (- a) else fixed_digits p a)"

section \<open>filepath (Unix)\<close>

definition path_base :: "string \<Rightarrow> string" where
  "path_base p =
     (if p = [] then ''.''
      else let q = trim_right p ''/'' in
        if q = [] then ''/'' else last (split_char CHR ''/'' q))"

text \<open>
  \<^verbatim>\<open>filepath.Clean\<close> on the components between slashes: empty and \<open>.\<close> components go, a \<open>..\<close> removes
  the component before it, or is dropped at the root, or is kept where nothing is left to remove.
\<close>

fun clean_comps :: "bool \<Rightarrow> string list \<Rightarrow> string list \<Rightarrow> string list" where
  "clean_comps rooted acc [] = rev acc"
| "clean_comps rooted acc (c # cs) =
     (if c = [] \<or> c = ''.'' then clean_comps rooted acc cs
      else if c = ''..'' then
        (case acc of
           [] \<Rightarrow> if rooted then clean_comps rooted [] cs else clean_comps rooted [''..''] cs
         | d # ds \<Rightarrow> if d = ''..'' then clean_comps rooted (''..'' # acc) cs
                    else clean_comps rooted ds cs)
      else clean_comps rooted (c # acc) cs)"

definition path_clean :: "string \<Rightarrow> string" where
  "path_clean p =
     (let rooted = has_prefix p ''/'';
          body = join_str ''/'' (clean_comps rooted [] (split_char CHR ''/'' p))
      in if rooted then CHR ''/'' # body else if body = [] then ''.'' else body)"

definition path_join :: "string list \<Rightarrow> string" where
  "path_join es =
     (let fs = filter (\<lambda>e. e \<noteq> []) es in if fs = [] then [] else path_clean (join_str ''/'' fs))"

end
