(* ===== verification/GoTime.thy ===== *)
theory GoTime
  imports GoText
begin

text \<open>
  Go's \<^verbatim>\<open>time\<close> package as far as the program uses it. A \<^verbatim>\<open>time.Time\<close> is the \<open>int\<close> of nanoseconds
  since the zero time, so \<^verbatim>\<open>IsZero\<close> is \<open>t = 0\<close> and \<^verbatim>\<open>UTC()\<close> changes nothing; a \<^verbatim>\<open>time.Duration\<close> is a
  64-bit count of nanoseconds. Every call of \<^verbatim>\<open>time.Now\<close> is an argument of the operation.
\<close>

type_synonym gotime = int
type_synonym duration = int

definition second :: duration where
  "second = 1000000000"

text \<open>\<^verbatim>\<open>UnixNano\<close>, \<^verbatim>\<open>UnixMilli\<close> and \<^verbatim>\<open>Unix\<close>: since 1970; the zero time is 62135596800 s before.\<close>

definition unix_nano :: "gotime \<Rightarrow> int" where
  "unix_nano t = i64 (t - 62135596800 * second)"

definition unix_milli :: "gotime \<Rightarrow> int" where
  "unix_milli t = i64 ((t - 62135596800 * second) div 1000000)"

definition unix_secs :: "gotime \<Rightarrow> int" where
  "unix_secs t = t div second - 62135596800"

text \<open>\<^verbatim>\<open>t.Sub(u)\<close> saturates at the ends of the duration range.\<close>

definition time_sub :: "gotime \<Rightarrow> gotime \<Rightarrow> duration" where
  "time_sub t u = max (- (2 ^ 63)) (min (2 ^ 63 - 1) (t - u))"

text \<open>\<^verbatim>\<open>d.Seconds()\<close>: whole seconds and the rest, each truncated towards zero, added as floats.\<close>

definition dur_seconds :: "duration \<Rightarrow> float64" where
  "dur_seconds d =
     (let q = sgn d * (\<bar>d\<bar> div second); r = sgn d * (\<bar>d\<bar> mod second)
      in fadd (f_of_int q) (fdiv (f_of_int r) (rnd 1000000000)))"

text \<open>\<^verbatim>\<open>time.Duration(s * float64(time.Second))\<close>\<close>

definition seconds_dur :: "float64 \<Rightarrow> duration" where
  "seconds_dur s = f_to_i64 (fmul s (f_of_int second))"

lemma time_sub_bounds: "- (2 ^ 63) \<le> time_sub t u" "time_sub t u < 2 ^ 63"
  by (auto simp: time_sub_def)

lemma time_sub_pos_iff: "0 < time_sub t u \<longleftrightarrow> u < t"
  by (auto simp: time_sub_def)

lemma time_sub_ge_iff: "0 \<le> d \<Longrightarrow> d < 2 ^ 63 \<Longrightarrow> d \<le> time_sub t u \<longleftrightarrow> u + d \<le> t"
  by (auto simp: time_sub_def)

lemma rnd_tiny: "rnd (1 / 2 ^ 30) = Fin (1 / 2 ^ 30)"
proof (rule rnd_repr [of _ 1 "- 30"])
  show "(1 / 2 ^ 30 :: rat) = of_int 1 * 2 powi - 30" by (simp add: power_int_minus)
  show "\<bar>1 / 2 ^ 30 :: rat\<bar> \<le> max_float" by (simp add: max_float_def)
qed simp_all

text \<open>The seconds of a positive duration are a positive number, however short it is.\<close>

lemma dur_seconds_pos:
  assumes "0 < d" and "d < 2 ^ 63"
  obtains a where "dur_seconds d = Fin a" and "0 < a"
proof -
  define q r where "q = d div second" and "r = d mod second"
  have r: "0 \<le> r" "r < 10 ^ 9" and split: "d = 10 ^ 9 * q + r"
    by (simp_all add: q_def r_def second_def)
  have q: "0 \<le> q" "q < 2 ^ 40" and qr: "0 < q \<or> 0 < r"
    using assms r split by auto
  have fq: "f_of_int q = Fin (of_int q)" and fr: "f_of_int r = Fin (of_int r)"
    and fq1: "f_of_int (q + 1) = Fin (of_int (q + 1))"
    using q r rnd_of_int [of q] rnd_of_int [of r] rnd_of_int [of "q + 1"] by (simp_all add: f_of_int_def)
  define lo where "lo = (if r = 0 then 0 else 1 / 2 ^ 30 :: rat)"
  have rq: "(of_int r :: rat) \<le> of_int (10 ^ 9)" using r by (simp only: of_int_le_iff)
  have "(1 :: rat) \<le> of_int r" if "r \<noteq> 0" using that r(1) of_int_le_iff [of 1 r, where ?'a = rat] by simp
  then have "lo \<le> of_int r / 10 ^ 9" using r by (auto simp: lo_def field_simps)
  moreover have "of_int r / 10 ^ 9 \<le> (1 :: rat)" using rq by simp
  moreover have "rnd lo = Fin lo" using rnd_tiny by (simp add: lo_def)
  ultimately obtain y where y: "rnd (of_int r / 10 ^ 9) = Fin y" "lo \<le> y" "y \<le> 1"
    using rnd_between [of lo "of_int r / 10 ^ 9" 1] rnd_1 by blast
  have y0: "0 \<le> y" using y(2) by (simp add: lo_def split: if_splits)
  have eq: "dur_seconds d = rnd (of_int q + y)"
    using assms(1) fq fr y(1) by (simp add: dur_seconds_def q_def r_def Let_def)
  show ?thesis
  proof (cases "q = 0")
    case True
    then have "lo = 1 / 2 ^ 30" using qr r by (auto simp: lo_def)
    then obtain a where "rnd y = Fin a" "1 / 2 ^ 30 \<le> a"
      using rnd_between [of "1 / 2 ^ 30" y 1] rnd_tiny y rnd_1 by metis
    then show ?thesis using that [of a] eq True by simp
  next
    case False
    have "of_int q \<le> (of_int q + y :: rat)" "of_int q + y \<le> (of_int (q + 1) :: rat)"
      using y y0 by simp_all
    then obtain a where "rnd (of_int q + y) = Fin a" "of_int q \<le> a"
      using rnd_between fq fq1 unfolding f_of_int_def by metis
    moreover have "(0 :: rat) < of_int q" using False q(1) by simp
    ultimately show ?thesis using that [of a] eq by simp
  qed
qed

end
