(* ===== verification/DomainFragment.thy ===== *)
theory DomainFragment
  imports GoTime "HOL-Library.Word"
begin

text \<open>
  \<^verbatim>\<open>internal/domain/fragment.go\<close>: the \<^verbatim>\<open>RecordingFragment\<close> entity and its \<^verbatim>\<open>Validate\<close>, which both
  checks the fragment and fills defaults in. It changes the fragment also when it fails, so the
  result is the error and the fragment as it was left.
\<close>

type_synonym bytes = "8 word list"

record fragment =
  fr_id :: string
  fr_tenant_id :: string
  fr_stream_id :: string
  fr_recording_mode :: string
  fr_start :: gotime
  fr_end :: gotime
  fr_duration :: float64
  fr_size :: int
  fr_path :: string
  fr_content_type :: string
  fr_codec :: string
  fr_created :: gotime

definition zero_fragment :: fragment where
  "zero_fragment =
     \<lparr>fr_id = [], fr_tenant_id = [], fr_stream_id = [], fr_recording_mode = [], fr_start = 0,
      fr_end = 0, fr_duration = Fin 0, fr_size = 0, fr_path = [], fr_content_type = [],
      fr_codec = [], fr_created = 0\<rparr>"

definition default_tenant :: string where
  "default_tenant = ''00000000-0000-0000-0000-000000000001''"

text \<open>The checks and defaults before the times are settled (lines 34-52).\<close>

definition check_duration :: "fragment \<Rightarrow> go_error option \<times> fragment" where
  "check_duration f =
     (if fle (fr_duration f) (Fin 0) then
        (if fr_start f \<noteq> 0 \<and> fr_end f \<noteq> 0 \<and> fr_end f > fr_start f
         then (None, f\<lparr>fr_duration := dur_seconds (time_sub (fr_end f) (fr_start f))\<rparr>)
         else (Some ErrInvalidFragmentDuration, f))
      else (None, f))"

text \<open>The start and end times, each computed from the other and the duration if missing (53-62).\<close>

definition settle_times :: "gotime \<Rightarrow> fragment \<Rightarrow> fragment" where
  "settle_times now f =
     (let f1 = (if fr_start f = 0
                then f\<lparr>fr_start := now + i64 (- seconds_dur (fr_duration f))\<rparr> else f)
      in if fr_end f1 = 0
         then f1\<lparr>fr_end := fr_start f1 + seconds_dur (fr_duration f1)\<rparr> else f1)"

definition fill_media :: "gotime \<Rightarrow> fragment \<Rightarrow> fragment" where
  "fill_media now f =
     (let f1 = (if fr_content_type f = [] then f\<lparr>fr_content_type := ''video/mp4''\<rparr> else f);
          f2 = (if fr_codec f1 = [] then f1\<lparr>fr_codec := ''h264''\<rparr> else f1)
      in if fr_created f2 = 0 then f2\<lparr>fr_created := now\<rparr> else f2)"

text \<open>\<^verbatim>\<open>Validate\<close>: \<open>now1\<close> and \<open>now2\<close> are its two readings of the clock.\<close>

definition validate_fragment ::
  "gotime \<Rightarrow> gotime \<Rightarrow> fragment \<Rightarrow> go_error option \<times> fragment" where
  "validate_fragment now1 now2 f =
     (if trim_space (fr_stream_id f) = [] then (Some ErrInvalidFragmentStreamID, f)
      else
        let f1 = (if fr_tenant_id f = [] then f\<lparr>fr_tenant_id := default_tenant\<rparr> else f);
            f2 = (if fr_recording_mode f1 = [] then f1\<lparr>fr_recording_mode := ''motion''\<rparr> else f1)
        in if fr_start f2 \<noteq> 0 \<and> fr_end f2 \<noteq> 0 \<and> fr_end f2 < fr_start f2
           then (Some ErrInvalidFragmentTimes, f2)
           else case check_duration f2 of
              (Some e, f3) \<Rightarrow> (Some e, f3)
            | (None, f3) \<Rightarrow>
                let f4 = settle_times now1 f3
                in if fr_end f4 < fr_start f4 then (Some ErrInvalidFragmentTimes, f4)
                   else (None, fill_media now2 f4))"

definition fragment_ok :: "fragment \<Rightarrow> bool" where
  "fragment_ok f \<longleftrightarrow>
     trim_space (fr_stream_id f) \<noteq> [] \<and> fr_tenant_id f \<noteq> [] \<and> fr_recording_mode f \<noteq> [] \<and>
     fr_start f \<le> fr_end f \<and> fr_content_type f \<noteq> [] \<and> fr_codec f \<noteq> [] \<and> fr_created f \<noteq> 0"

lemma check_duration_frame:
  "check_duration f = (e, g) \<Longrightarrow>
     fr_id g = fr_id f \<and> fr_tenant_id g = fr_tenant_id f \<and> fr_stream_id g = fr_stream_id f \<and>
     fr_recording_mode g = fr_recording_mode f \<and> fr_start g = fr_start f \<and> fr_end g = fr_end f \<and>
     fr_size g = fr_size f \<and> fr_path g = fr_path f \<and> fr_content_type g = fr_content_type f \<and>
     fr_codec g = fr_codec f \<and> fr_created g = fr_created f"
  by (auto simp: check_duration_def split: if_splits)

lemma settle_times_frame [simp]:
  "fr_id (settle_times now f) = fr_id f"
  "fr_tenant_id (settle_times now f) = fr_tenant_id f"
  "fr_stream_id (settle_times now f) = fr_stream_id f"
  "fr_recording_mode (settle_times now f) = fr_recording_mode f"
  "fr_duration (settle_times now f) = fr_duration f"
  "fr_size (settle_times now f) = fr_size f"
  "fr_path (settle_times now f) = fr_path f"
  "fr_content_type (settle_times now f) = fr_content_type f"
  "fr_codec (settle_times now f) = fr_codec f"
  "fr_created (settle_times now f) = fr_created f"
  by (simp_all add: settle_times_def Let_def)

lemma fill_media_fields [simp]:
  "fr_id (fill_media now f) = fr_id f"
  "fr_tenant_id (fill_media now f) = fr_tenant_id f"
  "fr_stream_id (fill_media now f) = fr_stream_id f"
  "fr_recording_mode (fill_media now f) = fr_recording_mode f"
  "fr_start (fill_media now f) = fr_start f"
  "fr_end (fill_media now f) = fr_end f"
  "fr_duration (fill_media now f) = fr_duration f"
  "fr_size (fill_media now f) = fr_size f"
  "fr_path (fill_media now f) = fr_path f"
  "fr_content_type (fill_media now f) = (if fr_content_type f = [] then ''video/mp4'' else fr_content_type f)"
  "fr_codec (fill_media now f) = (if fr_codec f = [] then ''h264'' else fr_codec f)"
  "fr_created (fill_media now f) = (if fr_created f = 0 then now else fr_created f)"
  by (simp_all add: fill_media_def Let_def)

lemma validate_fragment_frame:
  "validate_fragment now1 now2 f = (e, g) \<Longrightarrow>
     fr_id g = fr_id f \<and> fr_stream_id g = fr_stream_id f \<and> fr_size g = fr_size f \<and> fr_path g = fr_path f"
  by (auto simp: validate_fragment_def Let_def dest!: check_duration_frame
      split: if_splits prod.splits option.splits)

lemma validate_fragment_ok:
  "validate_fragment now1 now2 f = (None, g) \<Longrightarrow> now2 \<noteq> 0 \<Longrightarrow> fragment_ok g"
  by (auto simp: validate_fragment_def Let_def fragment_ok_def default_tenant_def
      dest!: check_duration_frame split: if_splits prod.splits option.splits)

text \<open>
  A fragment that passed with both times known and a positive duration passes again unchanged:
  the handler, the service and the repository each validate, and only the first call acts.
\<close>

lemma validate_fragment_stable:
  assumes "fragment_ok g" and "fr_start g \<noteq> 0" and "fr_end g \<noteq> 0"
    and "\<not> fle (fr_duration g) (Fin 0)"
  shows "validate_fragment now1 now2 g = (None, g)"
  using assms
  by (simp add: validate_fragment_def Let_def fragment_ok_def check_duration_def settle_times_def
      fill_media_def)

lemma check_duration_pos:
  assumes "check_duration f = (None, g)"
  shows "\<not> fle (fr_duration g) (Fin 0)"
proof (cases "fle (fr_duration f) (Fin 0)")
  case True
  then have "fr_start f < fr_end f" and g: "g = f\<lparr>fr_duration := dur_seconds (time_sub (fr_end f) (fr_start f))\<rparr>"
    using assms by (auto simp: check_duration_def split: if_splits)
  then have "0 < time_sub (fr_end f) (fr_start f)" by (simp add: time_sub_pos_iff)
  then obtain a where "dur_seconds (time_sub (fr_end f) (fr_start f)) = Fin a" "0 < a"
    using dur_seconds_pos time_sub_bounds(2) by blast
  then show ?thesis by (simp add: g fle_def)
next
  case False
  then show ?thesis using assms by (auto simp: check_duration_def)
qed

lemma validate_fragment_duration:
  "validate_fragment now1 now2 f = (None, g) \<Longrightarrow> \<not> fle (fr_duration g) (Fin 0)"
  by (auto simp: validate_fragment_def Let_def dest: check_duration_pos split: if_splits prod.splits option.splits)

end
