(* ===== verification/MotionDetector.thy ===== *)
theory MotionDetector
  imports DomainFragment
begin

text \<open>
  \<^verbatim>\<open>internal/domain/motion.go\<close> and \<^verbatim>\<open>internal/adapters/secondary/vmd/cell_motion_detector.go\<close>: the
  cell motion detector. A frame is split into a grid of cells; the mean luminance of each cell
  is compared with an exponentially smoothed baseline; the share of cells that changed decides
  whether there is motion, and motion ends only after a cooldown. Floats are IEEE doubles
  (theory GoFloat), every index into the frame is checked, and one call of \<^verbatim>\<open>AnalyzeFrame\<close> is one step.
\<close>

section \<open>Configuration\<close>

record motion_config =
  mc_columns :: int
  mc_rows :: int
  mc_sensitivity :: float64
  mc_cell_threshold :: float64
  mc_active_ratio_min :: float64
  mc_cooldown_seconds :: int
  mc_pre_buffer_sec :: int

definition default_motion_config :: motion_config where
  "default_motion_config =
     \<lparr>mc_columns = 16, mc_rows = 12, mc_sensitivity = rnd 75, mc_cell_threshold = rnd 18,
      mc_active_ratio_min = rnd (2 / 100), mc_cooldown_seconds = 5, mc_pre_buffer_sec = 5\<rparr>"

definition validate_motion_config :: "motion_config \<Rightarrow> go_error + motion_config" where
  "validate_motion_config c =
     (if mc_columns c < 2 \<or> mc_columns c > 64 \<or> mc_rows c < 2 \<or> mc_rows c > 64
      then Inl ErrInvalidGridDimensions
      else if flt (mc_sensitivity c) (Fin 0) \<or> flt (rnd 100) (mc_sensitivity c)
      then Inl ErrInvalidSensitivity
      else
        let c1 = (if fle (mc_cell_threshold c) (Fin 0) then c\<lparr>mc_cell_threshold := rnd 18\<rparr> else c);
            c2 = (if fle (mc_active_ratio_min c1) (Fin 0) \<or> flt (rnd 1) (mc_active_ratio_min c1)
                  then c1\<lparr>mc_active_ratio_min := rnd (2 / 100)\<rparr> else c1);
            c3 = (if mc_cooldown_seconds c2 \<le> 0 then c2\<lparr>mc_cooldown_seconds := 5\<rparr> else c2);
            c4 = (if mc_pre_buffer_sec c3 \<le> 0 then c3\<lparr>mc_pre_buffer_sec := 5\<rparr> else c3)
        in Inr c4)"

record motion_event =
  me_stream_id :: string
  me_active :: bool
  me_active_cells :: int
  me_total_cells :: int
  me_active_ratio :: float64
  me_timestamp :: gotime
  me_duration :: float64

section \<open>Detector state\<close>

record motion_state =
  ms_config :: motion_config
  ms_prev :: "float64 list"
  ms_has_baseline :: bool
  ms_active :: bool
  ms_last :: gotime
  ms_start :: gotime

type_synonym detector = "string \<rightharpoonup> motion_state"

definition new_motion_state :: motion_state where
  "new_motion_state =
     \<lparr>ms_config = default_motion_config, ms_prev = [], ms_has_baseline = False, ms_active = False,
      ms_last = 0, ms_start = 0\<rparr>"

definition get_or_create_state :: "string \<Rightarrow> detector \<Rightarrow> motion_state \<times> detector" where
  "get_or_create_state sid d =
     (case d sid of Some s \<Rightarrow> (s, d)
      | None \<Rightarrow> (new_motion_state, d(sid \<mapsto> new_motion_state)))"

definition set_motion_config :: "string \<Rightarrow> motion_config \<Rightarrow> detector \<Rightarrow> go_error + detector" where
  "set_motion_config sid c d =
     (case validate_motion_config c of
        Inl e \<Rightarrow> Inl e
      | Inr c' \<Rightarrow>
          let (s, d1) = get_or_create_state sid d
          in Inr (d1(sid \<mapsto> s\<lparr>ms_config := c', ms_has_baseline := False\<rparr>)))"

definition get_motion_config :: "string \<Rightarrow> detector \<Rightarrow> motion_config" where
  "get_motion_config sid d = (case d sid of Some s \<Rightarrow> ms_config s | None \<Rightarrow> default_motion_config)"

definition reset_motion :: "string \<Rightarrow> detector \<Rightarrow> detector" where
  "reset_motion sid d = d(sid := None)"

section \<open>Sampling a frame\<close>

fun bind_outcome :: "'a outcome \<Rightarrow> ('a \<Rightarrow> 'b outcome) \<Rightarrow> 'b outcome" where
  "bind_outcome (Returns x) f = f x"
| "bind_outcome Panics f = Panics"

fun fold_outcome :: "('a \<Rightarrow> 's \<Rightarrow> 's outcome) \<Rightarrow> 'a list \<Rightarrow> 's \<Rightarrow> 's outcome" where
  "fold_outcome f [] s = Returns s"
| "fold_outcome f (x # xs) s = bind_outcome (f x s) (fold_outcome f xs)"

fun map_all_outcome :: "('a \<Rightarrow> 'b outcome) \<Rightarrow> 'a list \<Rightarrow> 'b list outcome" where
  "map_all_outcome f [] = Returns []"
| "map_all_outcome f (x # xs) =
     bind_outcome (f x) (\<lambda>y. map_outcome (Cons y) (map_all_outcome f xs))"

text \<open>The values of \<^verbatim>\<open>for i := lo; i < hi; i += 2\<close>.\<close>

definition stride2 :: "int \<Rightarrow> int \<Rightarrow> int list" where
  "stride2 lo hi = map (\<lambda>k. lo + 2 * int k) [0..<nat ((hi - lo + 1) div 2)]"

definition byte_float :: "8 word \<Rightarrow> float64" where
  "byte_float b = f_of_int (uint b)"

definition pixel_luma :: "bytes \<Rightarrow> int \<Rightarrow> int \<Rightarrow> float64 outcome" where
  "pixel_luma frame channels off =
     (if channels = 1 then map_outcome byte_float (go_index frame off)
      else
        bind_outcome (go_index frame off) (\<lambda>r.
        bind_outcome (go_index frame (off + 1)) (\<lambda>g.
        bind_outcome (go_index frame (off + 2)) (\<lambda>b.
          Returns (fadd (fadd (fmul (rnd (299 / 1000)) (byte_float r))
                              (fmul (rnd (587 / 1000)) (byte_float g)))
                        (fmul (rnd (114 / 1000)) (byte_float b)))))))"

definition sample_pixel ::
  "bytes \<Rightarrow> int \<Rightarrow> int \<Rightarrow> int \<Rightarrow> int \<Rightarrow> float64 \<times> nat \<Rightarrow> (float64 \<times> nat) outcome" where
  "sample_pixel frame width channels y x acc =
     map_outcome (\<lambda>v. (fadd (fst acc) v, Suc (snd acc)))
       (pixel_luma frame channels (i64 (i64 (i64 (y * width) * channels) + i64 (x * channels))))"

definition sample_cell ::
  "bytes \<Rightarrow> int \<Rightarrow> int \<Rightarrow> int \<Rightarrow> int \<Rightarrow> int \<times> int \<Rightarrow> float64 outcome" where
  "sample_cell frame width channels cell_w cell_h pos =
     map_outcome (\<lambda>(total, n). if n > 0 then fdiv total (f_of_int (int n)) else Fin 0)
       (fold_outcome
          (\<lambda>y. fold_outcome (\<lambda>x. sample_pixel frame width channels y x)
                 (stride2 (snd pos * cell_w) (snd pos * cell_w + cell_w)))
          (stride2 (fst pos * cell_h) (fst pos * cell_h + cell_h)) (Fin 0, 0))"

text \<open>The cells in the order of \<^verbatim>\<open>cellIdx\<close>: row by row.\<close>

definition grid_positions :: "int \<Rightarrow> int \<Rightarrow> (int \<times> int) list" where
  "grid_positions rows columns = concat (map (\<lambda>cy. map (Pair cy) [0..columns - 1]) [0..rows - 1])"

definition frame_cells :: "bytes \<Rightarrow> int \<Rightarrow> int \<Rightarrow> int \<Rightarrow> motion_config \<Rightarrow> float64 list outcome" where
  "frame_cells frame width height channels cfg =
     map_all_outcome
       (sample_cell frame width channels (width div mc_columns cfg) (height div mc_rows cfg))
       (grid_positions (mc_rows cfg) (mc_columns cfg))"

section \<open>Deciding on motion\<close>

definition effective_threshold :: "motion_config \<Rightarrow> float64" where
  "effective_threshold cfg =
     (let sens = fmax (rnd (2 / 10)) (fdiv (fsub (rnd 100) (mc_sensitivity cfg)) (rnd 50))
      in fmax (rnd 2) (fmul (mc_cell_threshold cfg) sens))"

definition active_cells :: "float64 \<Rightarrow> float64 list \<Rightarrow> float64 list \<Rightarrow> nat" where
  "active_cells thr cur prev =
     length (filter (\<lambda>(c, p). fle thr (fabs (fsub c p))) (zip cur prev))"

definition smooth :: "float64 \<Rightarrow> float64 \<Rightarrow> float64" where
  "smooth p c = fadd (fmul (fsub (rnd 1) (rnd (1 / 4))) p) (fmul (rnd (1 / 4)) c)"

text \<open>The state machine of the last part of \<^verbatim>\<open>AnalyzeFrame\<close> (lines 186-199 of the file).\<close>

definition motion_step :: "gotime \<Rightarrow> bool \<Rightarrow> motion_state \<Rightarrow> motion_state" where
  "motion_step now instant s =
     (if instant then
        let s1 = s\<lparr>ms_last := now\<rparr>
        in if \<not> ms_active s1 then s1\<lparr>ms_active := True, ms_start := now\<rparr> else s1
      else if ms_active s then
        (if time_sub now (ms_last s) \<ge> i64 (mc_cooldown_seconds (ms_config s) * second)
         then s\<lparr>ms_active := False\<rparr> else s)
      else s)"

definition judge_frame ::
  "gotime \<Rightarrow> string \<Rightarrow> float64 list \<Rightarrow> motion_state \<Rightarrow> motion_event \<times> motion_state" where
  "judge_frame now sid cur s =
     (let cfg = ms_config s;
          total = mc_columns cfg * mc_rows cfg;
          ev0 = \<lparr>me_stream_id = sid, me_active = False, me_active_cells = 0, me_total_cells = total,
                 me_active_ratio = Fin 0, me_timestamp = now, me_duration = Fin 0\<rparr>
      in if \<not> ms_has_baseline s \<or> int (length (ms_prev s)) \<noteq> total
         then (ev0, s\<lparr>ms_prev := cur, ms_has_baseline := True, ms_active := False\<rparr>)
         else
           let n = active_cells (effective_threshold cfg) cur (ms_prev s);
               ratio = fdiv (f_of_int (int n)) (f_of_int total);
               s1 = s\<lparr>ms_prev := map2 smooth (ms_prev s) cur\<rparr>;
               s2 = motion_step now (fle (mc_active_ratio_min cfg) ratio) s1
           in (ev0\<lparr>me_active_cells := int n, me_active_ratio := ratio, me_active := ms_active s2,
                  me_duration := (if ms_active s2
                                  then dur_seconds (time_sub now (ms_start s2)) else Fin 0)\<rparr>, s2))"

text \<open>\<^verbatim>\<open>AnalyzeFrame\<close>. The stream's state is created before the cell size is checked.\<close>

definition analyze_frame ::
  "gotime \<Rightarrow> string \<Rightarrow> bytes \<Rightarrow> int \<Rightarrow> int \<Rightarrow> int \<Rightarrow> detector
   \<Rightarrow> (go_error + motion_event) outcome \<times> detector" where
  "analyze_frame now sid frame width height channels d =
     (if width \<le> 0 \<or> height \<le> 0 then (Returns (Inl ErrInvalidFrameDimensions), d)
      else
        let ch = (if channels \<le> 0 then 1 else channels)
        in if int (length frame) < i64 (i64 (width * height) * ch)
           then (Returns (Inl ErrInvalidFrameBuffer), d)
           else
             let (s, d1) = get_or_create_state sid d; cfg = ms_config s
             in if mc_columns cfg * mc_rows cfg < 0 \<or> mc_columns cfg = 0 \<or> mc_rows cfg = 0
                then (Panics, d1)
                else if width div mc_columns cfg \<le> 0 \<or> height div mc_rows cfg \<le> 0
                then (Returns (Inl ErrInvalidFrameDimensions), d1)
                else case frame_cells frame width height ch cfg of
                  Panics \<Rightarrow> (Panics, d1)
                | Returns cur \<Rightarrow>
                    let (ev, s') = judge_frame now sid cur s in (Returns (Inr ev), d1(sid \<mapsto> s')))"

section \<open>Sampling stays inside the frame and inside the luminance range\<close>

lemma stride2_bounds: "x \<in> set (stride2 lo hi) \<Longrightarrow> lo \<le> x \<and> x < hi"
  by (auto simp: stride2_def)

lemma length_stride2: "1 \<le> c \<Longrightarrow> length (stride2 lo (lo + c)) \<le> nat c"
  by (simp add: stride2_def)

lemma stride2_pos: "1 \<le> c \<Longrightarrow> 0 < length (stride2 lo (lo + c))"
  by (simp add: stride2_def)

lemma map_outcome_eq: "(map_outcome f r = Returns y) = (\<exists>x. r = Returns x \<and> y = f x)"
  by (cases r) auto

lemma map_outcome_Panics [simp]: "(map_outcome f r = Panics) = (r = Panics)"
  by (cases r) auto

lemma fold_outcome_steps:
  assumes step: "\<And>x s n. x \<in> set xs \<Longrightarrow> P n s \<Longrightarrow> n + m \<le> (N :: nat) \<Longrightarrow>
      \<exists>s'. f x s = Returns s' \<and> P (n + m) s'"
    and "P n s" and "n + m * length xs \<le> N"
  shows "\<exists>s'. fold_outcome f xs s = Returns s' \<and> P (n + m * length xs) s'"
  using assms
proof (induction xs arbitrary: n s)
  case Nil
  then show ?case by simp
next
  case (Cons x xs)
  have "n + m \<le> N" using Cons.prems(3) by simp
  then obtain s' where s': "f x s = Returns s'" "P (n + m) s'"
    using Cons.prems(1) [of x n s] Cons.prems(2) by auto
  have "\<exists>s''. fold_outcome f xs s' = Returns s'' \<and> P ((n + m) + m * length xs) s''"
    using Cons.prems(1,3) s'(2) by (intro Cons.IH) auto
  then show ?case using s'(1) by (simp add: add.assoc)
qed

lemma map_all_outcome_ok:
  "(\<And>x. x \<in> set xs \<Longrightarrow> \<exists>y. f x = Returns y \<and> P y) \<Longrightarrow>
   \<exists>ys. map_all_outcome f xs = Returns ys \<and> length ys = length xs \<and> (\<forall>y \<in> set ys. P y)"
proof (induction xs)
  case Nil
  then show ?case by simp
next
  case (Cons x xs)
  obtain y where "f x = Returns y" "P y" using Cons.prems by auto
  moreover obtain ys where "map_all_outcome f xs = Returns ys" "length ys = length xs" "\<forall>y \<in> set ys. P y"
    using Cons by (auto simp: list.set_intros)
  ultimately show ?case by simp
qed

lemma map_all_outcome_Panics: "x \<in> set xs \<Longrightarrow> f x = Panics \<Longrightarrow> map_all_outcome f xs = Panics"
proof (induction xs)
  case Nil
  then show ?case by simp
next
  case (Cons z xs)
  then show ?case by (cases "f z") auto
qed

lemma length_map_all_outcome: "map_all_outcome f xs = Returns ys \<Longrightarrow> length ys = length xs"
proof (induction xs arbitrary: ys)
  case Nil
  then show ?case by simp
next
  case (Cons z xs)
  then show ?case by (cases "f z") (auto simp: map_outcome_eq)
qed

lemma byte_float_in: "fin_in 0 255 (byte_float b)"
proof -
  have "0 \<le> uint b" "uint b < 256" using uint_bounded [of b] by simp_all
  then have "rnd (of_int (uint b)) = Fin (of_int (uint b))" "(0::rat) \<le> of_int (uint b)"
    "of_int (uint b) \<le> (of_int 255 :: rat)"
  proof -
    show "rnd (of_int (uint b)) = Fin (of_int (uint b))"
      using \<open>0 \<le> uint b\<close> \<open>uint b < 256\<close> by (intro rnd_of_int) (simp add: abs_of_nonneg)
    show "(0::rat) \<le> of_int (uint b)" using \<open>0 \<le> uint b\<close> by (simp only: of_int_0_le_iff)
    show "of_int (uint b) \<le> (of_int 255 :: rat)"
      using \<open>uint b < 256\<close> by (simp only: of_int_le_iff)
  qed
  then show ?thesis unfolding byte_float_def f_of_int_def fin_in_def by simp
qed

lemma weights_in:
  "fin_in 0 (307 / 1024) (rnd (299 / 1000))"
  "fin_in 0 (602 / 1024) (rnd (587 / 1000))"
  "fin_in 0 (117 / 1024) (rnd (114 / 1000))"
  using rnd_dyadic [of 307 10] rnd_dyadic [of 602 10] rnd_dyadic [of 117 10]
  by (auto intro!: fin_in_rnd)

lemma go_index_in: "0 \<le> i \<Longrightarrow> i < int (length xs) \<Longrightarrow> go_index xs i = Returns (xs ! nat i)"
  by (simp add: go_index_def)

lemma pixel_luma_in:
  assumes "0 \<le> off" and "off + ch \<le> int (length frame)" and "ch = 1 \<or> 3 \<le> ch"
  shows "\<exists>v. pixel_luma frame ch off = Returns v \<and> fin_in 0 256 v"
proof (cases "ch = 1")
  case True
  have "fin_in 0 256 (byte_float b)" for b by (rule fin_in_weaken [OF byte_float_in]) simp_all
  then show ?thesis using True assms by (simp add: pixel_luma_def go_index_in)
next
  case False
  then have ch: "3 \<le> ch" using assms(3) by simp
  define r g b where "r = frame ! nat off" and "g = frame ! nat (off + 1)" and "b = frame ! nat (off + 2)"
  have R: "fin_in 0 (307 / 1024 * 255) (fmul (rnd (299 / 1000)) (byte_float r))"
    using rnd_dyadic [of 78285 10] by (intro fin_in_mult weights_in byte_float_in) simp
  have G: "fin_in 0 (602 / 1024 * 255) (fmul (rnd (587 / 1000)) (byte_float g))"
    using rnd_dyadic [of 153510 10] by (intro fin_in_mult weights_in byte_float_in) simp
  have B: "fin_in 0 (117 / 1024 * 255) (fmul (rnd (114 / 1000)) (byte_float b))"
    using rnd_dyadic [of 29835 10] by (intro fin_in_mult weights_in byte_float_in) simp
  have RG: "fin_in (0 + 0) (307 / 1024 * 255 + 602 / 1024 * 255)
      (fadd (fmul (rnd (299 / 1000)) (byte_float r)) (fmul (rnd (587 / 1000)) (byte_float g)))"
    using rnd_dyadic [of 231795 10] by (intro fin_in_add [OF R G]) simp_all
  have "fin_in ((0 + 0) + 0) ((307 / 1024 * 255 + 602 / 1024 * 255) + 117 / 1024 * 255)
      (fadd (fadd (fmul (rnd (299 / 1000)) (byte_float r)) (fmul (rnd (587 / 1000)) (byte_float g)))
        (fmul (rnd (114 / 1000)) (byte_float b)))"
    using rnd_dyadic [of 261630 10] by (intro fin_in_add [OF RG B]) simp_all
  then have "fin_in 0 256
      (fadd (fadd (fmul (rnd (299 / 1000)) (byte_float r)) (fmul (rnd (587 / 1000)) (byte_float g)))
        (fmul (rnd (114 / 1000)) (byte_float b)))"
    by (rule fin_in_weaken) simp_all
  moreover have "go_index frame off = Returns r" "go_index frame (off + 1) = Returns g"
    "go_index frame (off + 2) = Returns b"
    using assms(1,2) ch by (simp_all add: go_index_in r_def g_def b_def)
  ultimately show ?thesis using False by (simp add: pixel_luma_def)
qed

text \<open>The running sum of \<open>n\<close> samples.\<close>

definition sum_ok :: "nat \<Rightarrow> float64 \<times> nat \<Rightarrow> bool" where
  "sum_ok n acc \<longleftrightarrow> snd acc = n \<and> fin_in 0 (256 * of_nat n) (fst acc)"

lemma rnd_256n:
  assumes "n < 2 ^ 45"
  shows "rnd (256 * of_nat n) = Fin (256 * of_nat n)"
  using rnd_nat [of "256 * n"] assms by simp

lemma sample_pixel_ok:
  assumes "0 \<le> y" "y < height" "0 \<le> x" "x < width" "ch = 1 \<or> 3 \<le> ch"
    and "width * height * ch \<le> int (length frame)" and "width * height * ch < 2 ^ 53"
    and "sum_ok n acc" and "n + 1 < 2 ^ 45"
  shows "\<exists>acc'. sample_pixel frame width ch y x acc = Returns acc' \<and> sum_ok (n + 1) acc'"
proof -
  define off where "off = y * width * ch + x * ch"
  have ch: "1 \<le> ch" using assms(5) by auto
  have "y * width + x + 1 \<le> y * width + width" using assms(4) by simp
  also have "\<dots> = (y + 1) * width" by (simp add: algebra_simps)
  also have "\<dots> \<le> height * width" using assms(2,3,4) by (intro mult_right_mono) auto
  finally have "(y * width + x + 1) * ch \<le> height * width * ch" using ch by (intro mult_right_mono) auto
  then have off: "off + ch \<le> width * height * ch" by (simp add: off_def algebra_simps)
  have nn: "0 \<le> y * width" "0 \<le> y * width * ch" "0 \<le> x * ch" using assms(1-4) ch by simp_all
  have small: "y * width \<le> y * width * ch" using nn ch by (simp add: mult_le_cancel_left1)
  have "i64 (y * width) = y * width" "i64 (y * width * ch) = y * width * ch" "i64 (x * ch) = x * ch"
    "i64 (y * width * ch + x * ch) = off"
    using nn small off assms(7) ch unfolding off_def by (auto intro!: i64_id)
  then have eq: "i64 (i64 (i64 (y * width) * ch) + i64 (x * ch)) = off" by simp
  obtain v where v: "pixel_luma frame ch off = Returns v" "fin_in 0 256 v"
    using pixel_luma_in [of off ch frame] nn off assms(5,6) unfolding off_def by auto
  have "rnd (256 * of_nat n + 256) = Fin (256 * of_nat n + 256)"
    using rnd_256n [of "n + 1"] assms(9) by (simp add: algebra_simps)
  then have "fin_in (0 + 0) (256 * of_nat n + 256) (fadd (fst acc) v)"
    using assms(8) v(2) by (intro fin_in_add) (auto simp: sum_ok_def)
  then have "fin_in 0 (256 * of_nat (n + 1)) (fadd (fst acc) v)" by (simp add: algebra_simps)
  then show ?thesis
    using assms(8) unfolding sample_pixel_def eq v(1) by (simp add: sum_ok_def)
qed

lemma sample_cell_ok:
  assumes "0 \<le> cy" "(cy + 1) * cell_h \<le> height" "0 \<le> cx" "(cx + 1) * cell_w \<le> width"
    and "1 \<le> cell_w" "1 \<le> cell_h" and ch: "ch = 1 \<or> 3 \<le> ch"
    and len: "width * height * ch \<le> int (length frame)" and small: "width * height < 2 ^ 44"
    "width * height * ch < 2 ^ 53"
  shows "\<exists>v. sample_cell frame width ch cell_w cell_h (cy, cx) = Returns v \<and> fin_in 0 256 v"
proof -
  define xs ys where "xs = stride2 (cx * cell_w) (cx * cell_w + cell_w)"
    and "ys = stride2 (cy * cell_h) (cy * cell_h + cell_h)"
  define N where "N = length xs * length ys"
  have wh: "cell_w \<le> width" "cell_h \<le> height"
  proof -
    have "cell_w \<le> (cx + 1) * cell_w" "cell_h \<le> (cy + 1) * cell_h"
      using assms(1,3,5,6) by (simp_all add: mult_le_cancel_right1)
    then show "cell_w \<le> width" "cell_h \<le> height" using assms(2,4) by linarith+
  qed
  have l: "length xs \<le> nat cell_w" "length ys \<le> nat cell_h" "0 < length xs" "0 < length ys"
    using assms(5,6) length_stride2 stride2_pos by (auto simp: xs_def ys_def)
  then have "int N \<le> cell_w * cell_h"
    unfolding N_def using assms(5,6) by (simp add: nat_le_iff mult_mono le_nat_iff)
  also have "\<dots> \<le> width * height" using wh assms(5,6) by (intro mult_mono) auto
  finally have "int N < 2 ^ 44" using small(1) by linarith
  then have N: "N + 1 < 2 ^ 45" by simp
  have N0: "0 < N" using l by (simp add: N_def)
  have yb: "0 \<le> y \<and> y < height" if "y \<in> set ys" for y
  proof -
    have "cy * cell_h \<le> y" "y < cy * cell_h + cell_h"
      using stride2_bounds [OF that [unfolded ys_def]] by simp_all
    moreover have "0 \<le> cy * cell_h" using assms(1,6) by simp
    moreover have "cy * cell_h + cell_h = (cy + 1) * cell_h" by (simp add: distrib_right)
    ultimately show ?thesis using assms(2) by linarith
  qed
  have xb: "0 \<le> x \<and> x < width" if "x \<in> set xs" for x
  proof -
    have "cx * cell_w \<le> x" "x < cx * cell_w + cell_w"
      using stride2_bounds [OF that [unfolded xs_def]] by simp_all
    moreover have "0 \<le> cx * cell_w" using assms(3,5) by simp
    moreover have "cx * cell_w + cell_w = (cx + 1) * cell_w" by (simp add: distrib_right)
    ultimately show ?thesis using assms(4) by linarith
  qed
  have row: "\<exists>acc'. fold_outcome (\<lambda>x. sample_pixel frame width ch y x) xs acc = Returns acc' \<and>
      sum_ok (n + length xs) acc'" if "y \<in> set ys" "sum_ok n acc" "n + length xs \<le> N" for y acc n
    using fold_outcome_steps [of xs sum_ok 1 N "\<lambda>x. sample_pixel frame width ch y x" n acc]
      sample_pixel_ok [of y height _ width ch frame] yb [OF that(1)] xb ch len small N that by auto
  have "\<exists>acc'. fold_outcome (\<lambda>y. fold_outcome (\<lambda>x. sample_pixel frame width ch y x) xs) ys (Fin 0, 0)
      = Returns acc' \<and> sum_ok (0 + length xs * length ys) acc'"
    by (rule fold_outcome_steps [where N = N])
      (use row in \<open>auto simp: N_def sum_ok_def fin_in_def\<close>)
  then obtain acc where acc: "fold_outcome (\<lambda>y. fold_outcome (\<lambda>x. sample_pixel frame width ch y x) xs) ys
      (Fin 0, 0) = Returns acc" "sum_ok N acc" by (auto simp: N_def)
  have "fin_in 0 256 (fdiv (fst acc) (Fin (of_nat N)))"
    using acc(2) N0 rnd_256n [of 1] by (intro fin_in_div) (auto simp: sum_ok_def)
  moreover have "f_of_int (int N) = Fin (of_nat N)"
    using rnd_nat [of N] N by (simp add: f_of_int_def)
  ultimately show ?thesis
    using acc N0 unfolding sample_cell_def fst_conv snd_conv xs_def [symmetric] ys_def [symmetric]
    by (simp add: split_beta sum_ok_def)
qed

lemma grid_positions_mem:
  "p \<in> set (grid_positions rows columns) \<longleftrightarrow>
     0 \<le> fst p \<and> fst p < rows \<and> 0 \<le> snd p \<and> snd p < columns"
  by (cases p) (force simp: grid_positions_def)

lemma length_grid_positions:
  assumes "0 \<le> rows" "0 \<le> columns"
  shows "int (length (grid_positions rows columns)) = rows * columns"
proof -
  have "length (grid_positions rows columns) = length [0..rows - 1] * length [0..columns - 1]"
    by (simp add: grid_positions_def length_concat sum_list_triv o_def)
  then show ?thesis using assms by simp
qed

section \<open>Configurations in use are valid\<close>

definition config_ok :: "motion_config \<Rightarrow> bool" where
  "config_ok c \<longleftrightarrow> 2 \<le> mc_columns c \<and> mc_columns c \<le> 64 \<and> 2 \<le> mc_rows c \<and> mc_rows c \<le> 64 \<and>
     0 < mc_cooldown_seconds c"

lemma validate_motion_config_ok: "validate_motion_config c = Inr c' \<Longrightarrow> config_ok c'"
  by (auto simp: validate_motion_config_def Let_def config_ok_def split: if_splits)

definition state_ok :: "motion_state \<Rightarrow> bool" where
  "state_ok s \<longleftrightarrow> config_ok (ms_config s) \<and> (\<forall>v \<in> set (ms_prev s). fin_in 0 256 v)"

definition detector_ok :: "detector \<Rightarrow> bool" where
  "detector_ok d \<longleftrightarrow> (\<forall>sid s. d sid = Some s \<longrightarrow> state_ok s)"

lemma detector_ok_empty [hs_inv]: "detector_ok Map.empty"
  by (simp add: detector_ok_def)

lemma new_motion_state_ok: "state_ok new_motion_state"
  by (simp add: state_ok_def new_motion_state_def default_motion_config_def config_ok_def)

lemma detector_ok_upd: "detector_ok d \<Longrightarrow> state_ok s \<Longrightarrow> detector_ok (d(sid \<mapsto> s))"
  by (auto simp: detector_ok_def)

lemma get_or_create_ok:
  "detector_ok d \<Longrightarrow> get_or_create_state sid d = (s, d1) \<Longrightarrow> state_ok s \<and> detector_ok d1 \<and> d1 sid = Some s"
  using new_motion_state_ok
  by (auto simp: get_or_create_state_def detector_ok_def split: option.splits if_splits)

lemma detector_ok_set_config [hs_inv]:
  "detector_ok d \<Longrightarrow> set_motion_config sid c d = Inr d' \<Longrightarrow> detector_ok d'"
proof -
  assume ok: "detector_ok d" and set: "set_motion_config sid c d = Inr d'"
  obtain s d1 where g: "get_or_create_state sid d = (s, d1)" by fastforce
  obtain c' where c': "validate_motion_config c = Inr c'"
    and d': "d' = d1(sid \<mapsto> s\<lparr>ms_config := c', ms_has_baseline := False\<rparr>)"
    using set by (auto simp: set_motion_config_def g split: sum.splits)
  show "detector_ok d'"
    unfolding d' using get_or_create_ok [OF ok g] validate_motion_config_ok [OF c']
    by (intro detector_ok_upd) (simp_all add: state_ok_def)
qed

lemma detector_ok_reset [hs_inv]: "detector_ok d \<Longrightarrow> detector_ok (reset_motion sid d)"
  by (auto simp: detector_ok_def reset_motion_def)

lemma frame_cells_ok:
  assumes cfg: "config_ok cfg" and "0 < width div mc_columns cfg" "0 < height div mc_rows cfg"
    and "ch = 1 \<or> 3 \<le> ch" "width * height * ch \<le> int (length frame)"
    and "width * height < 2 ^ 44" "width * height * ch < 2 ^ 53"
  shows "\<exists>cur. frame_cells frame width height ch cfg = Returns cur \<and>
    int (length cur) = mc_columns cfg * mc_rows cfg \<and> (\<forall>v \<in> set cur. fin_in 0 256 v)"
proof -
  have pos: "0 < mc_columns cfg" "0 < mc_rows cfg" using cfg by (auto simp: config_ok_def)
  have cell: "\<exists>v. sample_cell frame width ch (width div mc_columns cfg) (height div mc_rows cfg) p =
      Returns v \<and> fin_in 0 256 v" if "p \<in> set (grid_positions (mc_rows cfg) (mc_columns cfg))" for p
  proof -
    obtain cy cx where p: "p = (cy, cx)" by fastforce
    then have b: "0 \<le> cy" "cy + 1 \<le> mc_rows cfg" "0 \<le> cx" "cx + 1 \<le> mc_columns cfg"
      using that by (auto simp: grid_positions_mem)
    have "(cy + 1) * (height div mc_rows cfg) \<le> mc_rows cfg * (height div mc_rows cfg)"
      using b assms(3) by (intro mult_right_mono) auto
    also have "\<dots> \<le> height"
      using minus_mult_div_eq_mod [of height "mc_rows cfg"] pos_mod_sign [OF pos(2), of height]
      by linarith
    finally have H: "(cy + 1) * (height div mc_rows cfg) \<le> height" .
    have "(cx + 1) * (width div mc_columns cfg) \<le> mc_columns cfg * (width div mc_columns cfg)"
      using b assms(2) by (intro mult_right_mono) auto
    also have "\<dots> \<le> width"
      using minus_mult_div_eq_mod [of width "mc_columns cfg"] pos_mod_sign [OF pos(1), of width]
      by linarith
    finally have W: "(cx + 1) * (width div mc_columns cfg) \<le> width" .
    show ?thesis
      unfolding p
      by (rule sample_cell_ok [OF b(1) H b(3) W _ _ assms(4-7)]) (use assms(2,3) in linarith)+
  qed
  have "\<exists>cur. frame_cells frame width height ch cfg = Returns cur \<and>
      length cur = length (grid_positions (mc_rows cfg) (mc_columns cfg)) \<and>
      (\<forall>v \<in> set cur. fin_in 0 256 v)"
    unfolding frame_cells_def by (rule map_all_outcome_ok) (rule cell)
  then show ?thesis
    using pos length_grid_positions [of "mc_rows cfg" "mc_columns cfg"] by (auto simp: mult.commute)
qed

lemma smooth_in:
  assumes "fin_in 0 256 p" "fin_in 0 256 c"
  shows "fin_in 0 256 (smooth p c)"
proof -
  have q: "rnd (1 / 4) = Fin (1 / 4)" "rnd (3 / 4) = Fin (3 / 4)"
    using rnd_dyadic [of 1 2] rnd_dyadic [of 3 2] by simp_all
  have "fin_in 0 (3 / 4) (Fin (3 / 4))" "fin_in 0 (1 / 4) (Fin (1 / 4))"
    by (rule fin_inI; simp)+
  then have "fin_in 0 (3 / 4 * 256) (fmul (Fin (3 / 4)) p)" "fin_in 0 (1 / 4 * 256) (fmul (Fin (1 / 4)) c)"
    using fin_in_mult [of "3 / 4" "Fin (3 / 4)" 256 p] fin_in_mult [of "1 / 4" "Fin (1 / 4)" 256 c] assms
    by simp_all
  then have "fin_in (0 + 0) (3 / 4 * 256 + 1 / 4 * 256)
      (fadd (fmul (Fin (3 / 4)) p) (fmul (Fin (1 / 4)) c))"
    by (rule fin_in_add) simp_all
  then show ?thesis by (simp add: smooth_def fsub_def q)
qed

lemma motion_step_frame [simp]:
  "ms_config (motion_step now b s) = ms_config s"
  "ms_prev (motion_step now b s) = ms_prev s"
  "ms_has_baseline (motion_step now b s) = ms_has_baseline s"
  by (simp_all add: motion_step_def Let_def)

lemma active_cells_le: "active_cells thr cur prev \<le> length cur"
  using length_filter_le [of _ "zip cur prev"] by (auto simp: active_cells_def intro: order_trans)

lemma judge_frame_ok:
  assumes "state_ok s" and "\<forall>v \<in> set cur. fin_in 0 256 v"
    and "int (length cur) = mc_columns (ms_config s) * mc_rows (ms_config s)"
    and "judge_frame now sid cur s = (ev, s')"
  shows "state_ok s' \<and> 0 \<le> me_active_cells ev \<and> me_active_cells ev \<le> me_total_cells ev \<and>
    fin_in 0 1 (me_active_ratio ev)"
proof -
  let ?n = "active_cells (effective_threshold (ms_config s)) cur (ms_prev s)"
  let ?t = "mc_columns (ms_config s) * mc_rows (ms_config s)"
  have cfg: "config_ok (ms_config s)" using assms(1) by (simp add: state_ok_def)
  have "int ?n \<le> int (length cur)" using active_cells_le by (simp only: of_nat_le_iff)
  then have n: "int ?n \<le> ?t" using assms(3) by simp
  have "?t \<le> 64 * 64" using cfg by (intro mult_mono) (auto simp: config_ok_def)
  moreover have "2 * 2 \<le> ?t" using cfg by (intro mult_mono) (auto simp: config_ok_def)
  ultimately have t: "f_of_int ?t = Fin (of_int ?t)" "f_of_int (int ?n) = Fin (of_int (int ?n))" "0 < ?t"
    using n rnd_of_int [of ?t] rnd_of_int [of "int ?n"] unfolding f_of_int_def by simp_all
  have "fin_in 0 1 (fdiv (Fin (of_int (int ?n))) (Fin (of_int ?t)))"
  proof (rule fin_in_div)
    have "(of_int (int ?n) :: rat) \<le> of_int ?t" using n by (simp only: of_int_le_iff)
    then show "fin_in 0 (1 * of_int ?t) (Fin (of_int (int ?n)))" by (simp add: fin_in_def)
    show "0 < (of_int ?t :: rat)" using t(3) by (simp only: of_int_0_less_iff)
  qed simp_all
  then have ratio: "fin_in 0 1 (fdiv (f_of_int (int ?n)) (f_of_int ?t))" by (simp only: t)
  have "\<forall>v \<in> set (map2 smooth (ms_prev s) cur). fin_in 0 256 v"
    using assms(1,2) by (auto simp: state_ok_def dest: set_zip_leftD set_zip_rightD intro: smooth_in)
  then show ?thesis
    using assms n ratio t(3)
    by (auto simp: judge_frame_def Let_def state_ok_def fin_in_def split: if_splits)
qed

section \<open>The cooldown state machine\<close>

text \<open>A run of frames, each a time and whether it moved enough; the abstract view of a stream.\<close>

definition motion_run :: "(gotime \<times> bool) list \<Rightarrow> motion_state \<Rightarrow> motion_state" where
  "motion_run fs s = fold (\<lambda>(now, b). motion_step now b) fs s"

definition last_motion :: "(gotime \<times> bool) list \<Rightarrow> gotime option" where
  "last_motion fs = (let ms = filter snd fs in if ms = [] then None else Some (fst (last ms)))"

definition cooldown_of :: "motion_state \<Rightarrow> duration" where
  "cooldown_of s = i64 (mc_cooldown_seconds (ms_config s) * second)"

lemma last_motion_snoc:
  "last_motion (fs @ [(now, b)]) = (if b then Some now else last_motion fs)"
  by (simp add: last_motion_def Let_def)

lemma motion_run_snoc: "motion_run (fs @ [(now, b)]) s = motion_step now b (motion_run fs s)"
  by (simp add: motion_run_def)

lemma motion_run_config [simp]: "ms_config (motion_run fs s) = ms_config s"
  by (induction fs rule: rev_induct) (auto simp: motion_run_def split_beta)

text \<open>
  On frames in time order, a stream that starts quiet is active exactly when its last moving frame
  is less than one cooldown before the newest frame.
\<close>

lemma motion_run_active:
  assumes "\<not> ms_active s" and "0 < cooldown_of s" and "cooldown_of s < 2 ^ 63"
    and "sorted (map fst fs)" and "fs \<noteq> []"
  shows "ms_active (motion_run fs s) \<longleftrightarrow>
      (case last_motion fs of None \<Rightarrow> False | Some t \<Rightarrow> fst (last fs) < t + cooldown_of s)"
    and "ms_active (motion_run fs s) \<longrightarrow> Some (ms_last (motion_run fs s)) = last_motion fs"
proof -
  have "(ms_active (motion_run fs s) \<longleftrightarrow>
      (case last_motion fs of None \<Rightarrow> False | Some t \<Rightarrow> fs \<noteq> [] \<and> fst (last fs) < t + cooldown_of s)) \<and>
    (ms_active (motion_run fs s) \<longrightarrow> Some (ms_last (motion_run fs s)) = last_motion fs)"
    using assms(4)
  proof (induction fs rule: rev_induct)
    case Nil
    then show ?case using assms(1) by (simp add: motion_run_def last_motion_def)
  next
    case (snoc f fs)
    obtain now b where f: "f = (now, b)" by fastforce
    have sorted: "sorted (map fst fs)" and le: "fs \<noteq> [] \<Longrightarrow> fst (last fs) \<le> now"
      using snoc.prems by (auto simp: f sorted_append)
    have cd: "i64 (mc_cooldown_seconds (ms_config s) * second) = cooldown_of s"
      by (simp add: cooldown_of_def)
    have ge: "cooldown_of s \<le> time_sub now u \<longleftrightarrow> u + cooldown_of s \<le> now" for u
      using assms(2,3) time_sub_ge_iff by simp
    have "last_motion [] = None" by (simp add: last_motion_def)
    then show ?case
      using snoc.IH [OF sorted] le assms(2)
      by (cases "fs = []"; cases "last_motion fs")
        (auto simp: f motion_run_snoc last_motion_snoc motion_step_def cd ge Let_def
          motion_run_snoc [of "[]", simplified] last_motion_snoc [of "[]", simplified])
  qed
  then show "ms_active (motion_run fs s) \<longleftrightarrow>
      (case last_motion fs of None \<Rightarrow> False | Some t \<Rightarrow> fst (last fs) < t + cooldown_of s)"
    and "ms_active (motion_run fs s) \<longrightarrow> Some (ms_last (motion_run fs s)) = last_motion fs"
    using assms(5) by (auto split: option.splits)
qed

section \<open>Properties\<close>



text \<open>
  A frame of two channels is accepted by the size check and read as if it had three: with the
  default 16x12 grid, a 16x12 frame of exactly width * height * 2 bytes makes AnalyzeFrame panic
  with an index out of range, whatever the bytes.
\<close>

theorem analyze_two_channels_panics:
  assumes "length frame = 384"
  shows "fst (analyze_frame now sid frame 16 12 2 Map.empty) = Panics"
proof -
  have stride: "stride2 15 16 = [15]" "stride2 11 12 = [11]" by (code_simp)+
  have id: "i64 176 = 176" "i64 352 = 352" "i64 30 = 30" "i64 382 = 382" "i64 192 = 192" "i64 384 = 384"
    by (simp_all add: i64_id)
  have "go_index frame 384 = Panics" using assms by (simp add: go_index_def)
  then have "pixel_luma frame 2 382 = Panics"
    using assms by (simp add: pixel_luma_def go_index_in)
  then have "sample_cell frame 16 2 1 1 (11, 15) = Panics"
    by (simp add: sample_cell_def stride sample_pixel_def id)
  moreover have "(11, 15) \<in> set (grid_positions 12 16)" by (simp add: grid_positions_mem)
  ultimately have "map_all_outcome (sample_cell frame 16 2 1 1) (grid_positions 12 16) = Panics"
    by (rule map_all_outcome_Panics [rotated])
  then show ?thesis
    using assms by (simp add: analyze_frame_def Let_def id get_or_create_state_def new_motion_state_def
        default_motion_config_def frame_cells_def)
qed

theorem analyze_two_channels_panics_witness:
  "fst (analyze_frame 5 ''cam'' (replicate 384 0) 16 12 2 Map.empty) = Panics"
  by (rule analyze_two_channels_panics) simp

text \<open>
  C20: Motion lasts one cooldown: for frames in time order, starting from a quiet stream and with an
  accepted configuration whose cooldown fits a duration, the stream is active after the last
  frame exactly when some frame moved and the last one that did is less than the cooldown before
  the newest frame.
\<close>

theorem motion_cooldown:
  assumes "\<not> ms_active s" and "config_ok (ms_config s)"
    and "mc_cooldown_seconds (ms_config s) < 9223372036" and "sorted (map fst fs)" and "fs \<noteq> []"
  shows "ms_active (motion_run fs s) \<longleftrightarrow>
    (\<exists>t. last_motion fs = Some t \<and>
       fst (last fs) < t + mc_cooldown_seconds (ms_config s) * 1000000000)"
proof -
  have "0 < mc_cooldown_seconds (ms_config s)" using assms(2) by (simp add: config_ok_def)
  then have "cooldown_of s = mc_cooldown_seconds (ms_config s) * 1000000000"
    using assms(3) unfolding cooldown_of_def second_def by (intro i64_id) auto
  then show ?thesis
    using motion_run_active(1) [OF assms(1) _ _ assms(4,5)] assms(3)
      \<open>0 < mc_cooldown_seconds (ms_config s)\<close>
    by (auto split: option.splits)
qed

theorem motion_cooldown_witness:
  "ms_active (motion_run [(1, True), (4000000000, False)] new_motion_state) \<and>
   \<not> ms_active (motion_run [(1, True), (6000000000, False)] new_motion_state)"
  using motion_cooldown [of new_motion_state "[(1, True), (4000000000, False)]"]
    motion_cooldown [of new_motion_state "[(1, True), (6000000000, False)]"]
  by (simp add: new_motion_state_def default_motion_config_def config_ok_def last_motion_def)

end
