(* ===== verification/ShmAdapter.thy ===== *)
theory ShmAdapter
  imports DomainFragment
begin

text \<open>
  \<^verbatim>\<open>internal/adapters/secondary/shm/shm_adapter.go\<close>: the 64-byte little-endian header of a shared
  memory ring, as \<^verbatim>\<open>encoding/binary\<close> writes and reads it, and the operations on the files that hold
  it. The file system is a map from paths to contents.
\<close>

section \<open>Little-endian numbers\<close>

fun le_encode :: "nat \<Rightarrow> nat \<Rightarrow> bytes" where
  "le_encode 0 x = []"
| "le_encode (Suc n) x = of_nat (x mod 256) # le_encode n (x div 256)"

fun le_decode :: "bytes \<Rightarrow> nat" where
  "le_decode [] = 0"
| "le_decode (b # bs) = unat b + 256 * le_decode bs"

lemma length_le_encode [simp]: "length (le_encode n x) = n"
  by (induction n arbitrary: x) simp_all

lemma le_decode_encode: "le_decode (le_encode n x) = x mod 256 ^ n"
proof (induction n arbitrary: x)
  case (Suc n)
  have "unat (of_nat (x mod 256) :: 8 word) = x mod 256"
    by (simp add: unsigned_of_nat take_bit_eq_mod)
  then show ?case using Suc by (simp add: mod_mult2_eq)
qed simp

section \<open>The header\<close>

record shm_header =
  hd_magic :: "32 word"
  hd_version :: "32 word"
  hd_width :: "32 word"
  hd_height :: "32 word"
  hd_format :: "32 word"
  hd_slot_count :: "32 word"
  hd_slot_size :: "32 word"
  hd_notify_seq :: "32 word"
  hd_write_seq :: "64 word"
  hd_reserved :: bytes

definition HydraMagic :: "32 word" where
  "HydraMagic = 0x48594452"

definition HydraVersion :: "32 word" where
  "HydraVersion = 1"

definition encode_header :: "shm_header \<Rightarrow> bytes" where
  "encode_header h =
     concat (map (\<lambda>w. le_encode 4 (unat w))
       [hd_magic h, hd_version h, hd_width h, hd_height h, hd_format h, hd_slot_count h,
        hd_slot_size h, hd_notify_seq h]) @
     le_encode 8 (unat (hd_write_seq h)) @ hd_reserved h"

definition field32 :: "bytes \<Rightarrow> nat \<Rightarrow> 32 word" where
  "field32 bs off = of_nat (le_decode (take 4 (drop off bs)))"

definition decode_header :: "bytes \<Rightarrow> shm_header option" where
  "decode_header bs =
     (if length bs < 64 then None
      else Some
        \<lparr>hd_magic = field32 bs 0, hd_version = field32 bs 4, hd_width = field32 bs 8,
         hd_height = field32 bs 12, hd_format = field32 bs 16, hd_slot_count = field32 bs 20,
         hd_slot_size = field32 bs 24, hd_notify_seq = field32 bs 28,
         hd_write_seq = of_nat (le_decode (take 8 (drop 32 bs))),
         hd_reserved = take 24 (drop 40 bs)\<rparr>)"

section \<open>The manager\<close>

record shm_manager =
  sm_base :: string
  sm_files :: "string \<rightharpoonup> bytes"

definition new_manager :: "bool \<Rightarrow> string \<Rightarrow> (string \<rightharpoonup> bytes) \<Rightarrow> shm_manager" where
  "new_manager has_shm tmp files =
     \<lparr>sm_base = (if has_shm then ''/dev/shm'' else tmp), sm_files = files\<rparr>"

definition shm_path :: "shm_manager \<Rightarrow> string \<Rightarrow> string" where
  "shm_path m sid = path_join [sm_base m, ''hydra_'' @ sid]"

text \<open>\<open>io.EOF\<close> for an empty file, \<open>io.ErrUnexpectedEOF\<close> for a short one.\<close>

definition inspect_stream_shm :: "string \<Rightarrow> shm_manager \<Rightarrow> go_error + shm_header" where
  "inspect_stream_shm sid m =
     (case sm_files m (shm_path m sid) of
        None \<Rightarrow> Inl (ErrNew (''open '' @ shm_path m sid @ '': no such file or directory''))
      | Some bs \<Rightarrow>
          (case decode_header bs of
             None \<Rightarrow> Inl (ErrNew (''failed to read SHM header: '' @
                      (if bs = [] then ''EOF'' else ''unexpected EOF'')))
           | Some h \<Rightarrow>
               if hd_magic h \<noteq> HydraMagic
               then Inl (ErrNew ''invalid HydraStream SHM magic identifier'') else Inr h))"

definition read_latest_sequence :: "string \<Rightarrow> shm_manager \<Rightarrow> go_error + 64 word" where
  "read_latest_sequence sid m =
     (case inspect_stream_shm sid m of Inl e \<Rightarrow> Inl e | Inr h \<Rightarrow> Inr (hd_write_seq h))"

text \<open>Writing one byte at an offset: past the end, the gap is filled with zeros.\<close>

definition write_byte_at :: "nat \<Rightarrow> 8 word \<Rightarrow> bytes \<Rightarrow> bytes" where
  "write_byte_at off b bs =
     (if off < length bs then bs[off := b] else bs @ replicate (off - length bs) 0 @ [b])"

definition mock_header :: "32 word \<Rightarrow> 32 word \<Rightarrow> 32 word \<Rightarrow> shm_header" where
  "mock_header width height slots =
     \<lparr>hd_magic = HydraMagic, hd_version = HydraVersion, hd_width = width, hd_height = height,
      hd_format = 1, hd_slot_count = slots, hd_slot_size = width * height * 3, hd_notify_seq = 0,
      hd_write_seq = 42, hd_reserved = replicate 24 0\<rparr>"

definition write_mock_header ::
  "string \<Rightarrow> 32 word \<Rightarrow> 32 word \<Rightarrow> 32 word \<Rightarrow> shm_manager \<Rightarrow> string \<times> shm_manager" where
  "write_mock_header sid width height slots m =
     (let path = shm_path m sid;
          h = mock_header width height slots;
          content = write_byte_at (unat (hd_slot_size h)) 0 (encode_header h)
      in (path, m\<lparr>sm_files := (sm_files m)(path \<mapsto> content)\<rparr>))"

definition cleanup_shm :: "string \<Rightarrow> shm_manager \<Rightarrow> shm_manager" where
  "cleanup_shm sid m = m\<lparr>sm_files := (sm_files m)(shm_path m sid := None)\<rparr>"

section \<open>Lemmas\<close>

lemma field32_encode: "of_nat (le_decode (le_encode 4 (unat w))) = (w :: 32 word)"
  using unsigned_less [of w, where ?'a = nat] by (simp add: le_decode_encode)

lemma field64_encode: "of_nat (le_decode (le_encode 8 (unat w))) = (w :: 64 word)"
  using unsigned_less [of w, where ?'a = nat] by (simp add: le_decode_encode)

lemma length_encode_header: "length (hd_reserved h) = 24 \<Longrightarrow> length (encode_header h) = 64"
  by (simp add: encode_header_def)

lemma decode_encode: "length (hd_reserved h) = 24 \<Longrightarrow> decode_header (encode_header h @ rest) = Some h"
  by (simp add: decode_header_def length_encode_header)
    (simp add: encode_header_def field32_def field32_encode field64_encode)

lemma mock_header_simps [simp]:
  "length (hd_reserved (mock_header w h n)) = 24" "hd_magic (mock_header w h n) = HydraMagic"
  "hd_slot_size (mock_header w h n) = w * h * 3" "hd_write_seq (mock_header w h n) = 42"
  by (simp_all add: mock_header_def)

lemma write_past_header:
  "64 \<le> off \<Longrightarrow> \<exists>rest. write_byte_at off b (encode_header (mock_header w h n)) =
     encode_header (mock_header w h n) @ rest"
  by (simp add: write_byte_at_def length_encode_header)

lemma le_encode_4:
  "le_encode 4 x = [of_nat (x mod 256), of_nat (x div 256 mod 256), of_nat (x div 256 div 256 mod 256),
     of_nat (x div 256 div 256 div 256 mod 256)]"
proof -
  have "le_encode (Suc (Suc (Suc (Suc 0)))) x = [of_nat (x mod 256), of_nat (x div 256 mod 256),
      of_nat (x div 256 div 256 mod 256), of_nat (x div 256 div 256 div 256 mod 256)]" by simp
  moreover have "(4::nat) = Suc (Suc (Suc (Suc 0)))" by simp
  ultimately show ?thesis by (simp only:)
qed

lemma magic_byte_cleared:
  assumes "off < 4" and "length (hd_reserved h) = 24" and "hd_magic h = HydraMagic"
  shows "\<exists>h'. decode_header (write_byte_at off 0 (encode_header h)) = Some h' \<and> hd_magic h' \<noteq> HydraMagic"
proof -
  have bytes: "encode_header h = [0x52, 0x44, 0x59, 0x48] @ drop 4 (encode_header h)"
    by (simp add: encode_header_def assms(3) HydraMagic_def le_encode_4)
  have "take 4 (encode_header h) = [0x52, 0x44, 0x59, 0x48]" by (subst bytes) simp
  then have "take 4 ((encode_header h)[off := 0]) = [0x52, 0x44, 0x59, 0x48][off := 0]"
    by (metis take_update_swap)
  moreover have "off = 0 \<or> off = 1 \<or> off = 2 \<or> off = 3" using assms(1) by linarith
  ultimately have "field32 ((encode_header h)[off := 0]) 0 \<noteq> HydraMagic"
    by (auto simp: field32_def HydraMagic_def)
  then show ?thesis
    using assms by (simp add: decode_header_def write_byte_at_def length_encode_header)
qed

section \<open>Properties\<close>


text \<open>
  A mock buffer can be inspected if its slot is at least as large as the header: the header read
  back has the dimensions and slot count it was written with and sequence number 42, the other
  streams' files are untouched, and after Cleanup the buffer is gone.
\<close>

theorem mock_header_inspect:
  assumes "write_mock_header sid w h n m = (path, m')" and "64 \<le> unat (w * h * 3)"
  shows "inspect_stream_shm sid m' = Inr (mock_header w h n) \<and> read_latest_sequence sid m' = Inr 42 \<and>
    (\<forall>p. p \<noteq> path \<longrightarrow> sm_files m' p = sm_files m p) \<and>
    sm_files (cleanup_shm sid m') path = None"
proof -
  obtain rest where w: "write_byte_at (unat (w * h * 3)) 0 (encode_header (mock_header w h n)) =
      encode_header (mock_header w h n) @ rest"
    using write_past_header [OF assms(2)] by blast
  have m': "path = shm_path m sid" "shm_path m' sid = shm_path m sid"
    "sm_files m' = (sm_files m)(path \<mapsto> encode_header (mock_header w h n) @ rest)"
    using assms(1) w by (auto simp: write_mock_header_def Let_def shm_path_def)
  have "inspect_stream_shm sid m' = Inr (mock_header w h n)"
    using decode_encode [of "mock_header w h n" rest] by (simp add: inspect_stream_shm_def m')
  then show ?thesis
    by (simp add: read_latest_sequence_def m' cleanup_shm_def)
qed

text \<open>
  A mock buffer whose slot size comes out below 4 (a zero dimension, or a product of the
  dimensions that wraps around 2^32) destroys its own header: the padding byte is written over
  the magic number, and inspecting the buffer reports an invalid magic identifier.
\<close>

theorem mock_header_self_destroyed:
  assumes "write_mock_header sid w h n m = (path, m')" and "unat (w * h * 3) < 4"
  shows "inspect_stream_shm sid m' = Inl (ErrNew ''invalid HydraStream SHM magic identifier'')"
proof -
  obtain h' where "decode_header (write_byte_at (unat (w * h * 3)) 0 (encode_header (mock_header w h n))) = Some h'"
      "hd_magic h' \<noteq> HydraMagic"
    using magic_byte_cleared [OF assms(2), of "mock_header w h n"] by auto
  then show ?thesis
    using assms(1) by (auto simp: write_mock_header_def Let_def inspect_stream_shm_def shm_path_def)
qed

definition empty_shm :: shm_manager where
  "empty_shm = new_manager True [] Map.empty"


theorem mock_header_inspect_witness:
  "inspect_stream_shm ''cam'' (snd (write_mock_header ''cam'' 1920 1080 16 empty_shm)) =
     Inr (mock_header 1920 1080 16)"
  using mock_header_inspect [OF prod.collapse [symmetric], of 1920 1080 "''cam''" 16 empty_shm] by simp

theorem mock_header_self_destroyed_witness:
  "inspect_stream_shm ''cam'' (snd (write_mock_header ''cam'' 65536 65536 16 empty_shm)) =
     Inl (ErrNew ''invalid HydraStream SHM magic identifier'')"
  using mock_header_self_destroyed [OF prod.collapse [symmetric], of 65536 65536 "''cam''" 16 empty_shm] by simp

end
