(* ===== verification/DomainStream.thy ===== *)
theory DomainStream
  imports GoTime "HOL-Library.Word"
begin

text \<open>
  \<^verbatim>\<open>internal/domain/stream.go\<close>: the \<^verbatim>\<open>Consumer\<close> and \<^verbatim>\<open>Stream\<close> entities with their methods, and
  the telemetry values built from them. Each call of \<^verbatim>\<open>time.Now\<close> is an argument.
\<close>

section \<open>Entities\<close>

record consumer =
  co_analytic_type :: string
  co_target_fps :: float64
  co_actual_fps :: float64
  co_output_format :: string
  co_shm_key :: string
  co_dropped_count :: "64 word"
  co_created_at :: gotime

record stream =
  st_tenant_id :: string
  st_stream_id :: string
  st_source_url :: string
  st_substream_url :: string
  st_decoding_engine :: string
  st_status :: string
  st_resolution :: string
  st_codec :: string
  st_ingest_fps :: float64
  st_network_kbps :: float64
  st_cpu_load_percent :: float64
  st_gpu_memory_mb :: float64
  st_decode_latency :: float64
  st_resource_score :: float64
  st_consumers :: "consumer list"
  st_created_at :: gotime

definition zero_consumer :: consumer where
  "zero_consumer =
     \<lparr>co_analytic_type = [], co_target_fps = Fin 0, co_actual_fps = Fin 0, co_output_format = [],
      co_shm_key = [], co_dropped_count = 0, co_created_at = 0\<rparr>"

definition zero_stream :: stream where
  "zero_stream =
     \<lparr>st_tenant_id = [], st_stream_id = [], st_source_url = [], st_substream_url = [],
      st_decoding_engine = [], st_status = [], st_resolution = [], st_codec = [],
      st_ingest_fps = Fin 0, st_network_kbps = Fin 0, st_cpu_load_percent = Fin 0,
      st_gpu_memory_mb = Fin 0, st_decode_latency = Fin 0, st_resource_score = Fin 0,
      st_consumers = [], st_created_at = 0\<rparr>"

record ingest_stats =
  is_stream_id :: string
  is_status :: string
  is_ingest_fps :: float64
  is_bitrate_kbps :: float64
  is_frames_total :: "64 word"
  is_bytes_total :: "64 word"
  is_last_frame_time :: gotime
  is_error_msg :: string

record chaos_injection =
  ci_experiment_type :: string
  ci_intensity :: float64
  ci_stream_id :: string

record chaos_result =
  cr_experiment_type :: string
  cr_status :: string
  cr_message :: string
  cr_recovery_ms :: float64
  cr_frames_dropped :: "64 word"
  cr_jitter_delta_ms :: float64
  cr_timestamp :: gotime

section \<open>Methods of Stream\<close>

definition validate_stream :: "stream \<Rightarrow> go_error option" where
  "validate_stream s = (if st_stream_id s = [] then Some (ErrNew ''stream_id is required'') else None)"

definition calculate_resource_score :: "stream \<Rightarrow> float64" where
  "calculate_resource_score s =
     fadd (fadd (fmul (st_cpu_load_percent s) (rnd 2)) (fdiv (st_gpu_memory_mb s) (rnd 10)))
       (fdiv (st_network_kbps s) (rnd 1000))"

text \<open>\<^verbatim>\<open>SetDefaults\<close>: the assignments in the code's order (the score last, on the other fields).\<close>

definition set_defaults :: "gotime \<Rightarrow> stream \<Rightarrow> stream" where
  "set_defaults now s0 =
     (let s1 = (if st_created_at s0 = 0 then s0\<lparr>st_created_at := now\<rparr> else s0);
          s2 = (if st_status s1 = [] then s1\<lparr>st_status := ''online''\<rparr> else s1);
          s3 = (if st_resolution s2 = [] then s2\<lparr>st_resolution := ''1920x1080''\<rparr> else s2);
          s4 = (if st_codec s3 = [] then s3\<lparr>st_codec := ''h264''\<rparr> else s3);
          s5 = (if feq (st_ingest_fps s4) (Fin 0) then s4\<lparr>st_ingest_fps := rnd 30\<rparr> else s4)
      in if feq (st_resource_score s5) (Fin 0)
         then s5\<lparr>st_resource_score := calculate_resource_score s5\<rparr> else s5)"

text \<open>\<^verbatim>\<open>UpdateConsumer\<close>: the first consumer of that type is updated in place, else one is appended.\<close>

definition retarget :: "float64 \<Rightarrow> string \<Rightarrow> consumer \<Rightarrow> consumer" where
  "retarget fps fmt c =
     (let c1 = c\<lparr>co_target_fps := fps\<rparr> in
      if fmt \<noteq> [] then c1\<lparr>co_output_format := fmt\<rparr> else c1)"

definition new_consumer :: "gotime \<Rightarrow> string \<Rightarrow> float64 \<Rightarrow> string \<Rightarrow> consumer" where
  "new_consumer now atype fps fmt =
     zero_consumer\<lparr>co_analytic_type := atype, co_target_fps := fps, co_actual_fps := fps,
       co_output_format := fmt, co_created_at := now\<rparr>"

fun update_consumers ::
  "gotime \<Rightarrow> string \<Rightarrow> float64 \<Rightarrow> string \<Rightarrow> consumer list \<Rightarrow> consumer list" where
  "update_consumers now atype fps fmt [] = [new_consumer now atype fps fmt]"
| "update_consumers now atype fps fmt (c # cs) =
     (if co_analytic_type c = atype then retarget fps fmt c # cs
      else c # update_consumers now atype fps fmt cs)"

definition update_consumer :: "gotime \<Rightarrow> string \<Rightarrow> float64 \<Rightarrow> string \<Rightarrow> stream \<Rightarrow> stream" where
  "update_consumer now atype fps fmt s =
     s\<lparr>st_consumers := update_consumers now atype fps fmt (st_consumers s)\<rparr>"

section \<open>What the methods keep\<close>

text \<open>What \<^verbatim>\<open>SetDefaults\<close> establishes: no field the handlers rely on is left empty.\<close>

definition stream_filled :: "stream \<Rightarrow> bool" where
  "stream_filled s \<longleftrightarrow>
     st_created_at s \<noteq> 0 \<and> st_status s \<noteq> [] \<and> st_resolution s \<noteq> [] \<and> st_codec s \<noteq> [] \<and>
     \<not> feq (st_ingest_fps s) (Fin 0)"

lemma set_defaults_id [simp]:
  "st_stream_id (set_defaults now s) = st_stream_id s"
  "st_tenant_id (set_defaults now s) = st_tenant_id s"
  "st_source_url (set_defaults now s) = st_source_url s"
  "st_substream_url (set_defaults now s) = st_substream_url s"
  "st_decoding_engine (set_defaults now s) = st_decoding_engine s"
  "st_consumers (set_defaults now s) = st_consumers s"
  by (simp_all add: set_defaults_def Let_def)

lemma set_defaults_fields:
  "st_created_at (set_defaults now s) = (if st_created_at s = 0 then now else st_created_at s)"
  "st_status (set_defaults now s) = (if st_status s = [] then ''online'' else st_status s)"
  "st_resolution (set_defaults now s) =
     (if st_resolution s = [] then ''1920x1080'' else st_resolution s)"
  "st_codec (set_defaults now s) = (if st_codec s = [] then ''h264'' else st_codec s)"
  "st_ingest_fps (set_defaults now s) =
     (if feq (st_ingest_fps s) (Fin 0) then Fin 30 else st_ingest_fps s)"
  "st_network_kbps (set_defaults now s) = st_network_kbps s"
  "st_cpu_load_percent (set_defaults now s) = st_cpu_load_percent s"
  "st_gpu_memory_mb (set_defaults now s) = st_gpu_memory_mb s"
  "st_decode_latency (set_defaults now s) = st_decode_latency s"
  by (simp_all add: set_defaults_def Let_def)

lemma set_defaults_score:
  "st_resource_score (set_defaults now s) =
     (if feq (st_resource_score s) (Fin 0) then calculate_resource_score s else st_resource_score s)"
  by (simp add: set_defaults_def Let_def calculate_resource_score_def)

lemma calculate_resource_score_set_defaults [simp]:
  "calculate_resource_score (set_defaults now s) = calculate_resource_score s"
  by (simp add: calculate_resource_score_def set_defaults_fields)

lemma set_defaults_filled: "now \<noteq> 0 \<Longrightarrow> stream_filled (set_defaults now s)"
  by (simp add: stream_filled_def set_defaults_fields)

text \<open>A filled stream whose score is settled is a fixed point.\<close>

lemma set_defaults_fixed:
  assumes "stream_filled s"
    and "feq (st_resource_score s) (Fin 0) \<Longrightarrow> calculate_resource_score s = st_resource_score s"
  shows "set_defaults now s = s"
  using assms by (auto simp: stream_filled_def set_defaults_def Let_def)

lemma feq_zero_iff: "feq x (Fin 0) \<longleftrightarrow> x = Fin 0"
  by (cases x) auto

lemma set_defaults_idem: "now \<noteq> 0 \<Longrightarrow> set_defaults now' (set_defaults now s) = set_defaults now s"
  by (rule set_defaults_fixed)
    (auto simp: set_defaults_filled set_defaults_score feq_zero_iff split: if_splits)

definition find_consumer :: "string \<Rightarrow> stream \<Rightarrow> consumer option" where
  "find_consumer atype s = find (\<lambda>c. co_analytic_type c = atype) (st_consumers s)"

lemma retarget_type [simp]: "co_analytic_type (retarget fps fmt c) = co_analytic_type c"
  by (simp add: retarget_def Let_def)

lemma new_consumer_type [simp]: "co_analytic_type (new_consumer now a fps fmt) = a"
  by (simp add: new_consumer_def)

lemma update_consumers_types:
  "map co_analytic_type (update_consumers now a fps fmt cs) =
     (if a \<in> co_analytic_type ` set cs then map co_analytic_type cs
      else map co_analytic_type cs @ [a])"
  by (induction cs) auto

lemma update_consumers_distinct:
  "distinct (map co_analytic_type cs) \<Longrightarrow>
   distinct (map co_analytic_type (update_consumers now a fps fmt cs))"
  by (simp add: update_consumers_types)

lemma find_update_consumers:
  "find (\<lambda>c. co_analytic_type c = b) (update_consumers now a fps fmt cs) =
     (if b = a then Some (case find (\<lambda>c. co_analytic_type c = a) cs of
                            None \<Rightarrow> new_consumer now a fps fmt | Some c \<Rightarrow> retarget fps fmt c)
      else find (\<lambda>c. co_analytic_type c = b) cs)"
  by (induction cs) (auto split: option.splits)

lemma find_update_consumer:
  "find_consumer b (update_consumer now a fps fmt s) =
     (if b = a then Some (case find_consumer a s of
                            None \<Rightarrow> new_consumer now a fps fmt | Some c \<Rightarrow> retarget fps fmt c)
      else find_consumer b s)"
  by (simp add: find_consumer_def update_consumer_def find_update_consumers)

lemma update_consumer_frame [simp]:
  "st_stream_id (update_consumer now a fps fmt s) = st_stream_id s"
  "st_tenant_id (update_consumer now a fps fmt s) = st_tenant_id s"
  "st_resource_score (update_consumer now a fps fmt s) = st_resource_score s"
  by (simp_all add: update_consumer_def)

lemma stream_filled_update_consumer [simp]:
  "stream_filled (update_consumer now a fps fmt s) = stream_filled s"
  by (simp add: stream_filled_def update_consumer_def)

end
