(* ===== verification/StreamRepo.thy ===== *)
theory StreamRepo
  imports DomainStream "HOL-Library.List_Lexorder" "HOL-Library.Char_ord"
begin

text \<open>
  \<^verbatim>\<open>internal/adapters/secondary/memory/memory_store.go\<close>: the in-memory \<^verbatim>\<open>StreamRepository\<close>. Its map
  of pointers is a map of values: the only writes through a shared pointer are those of the
  repository's own operations (\<^verbatim>\<open>SetDefaults\<close>, the score \<^verbatim>\<open>ListFiltered\<close> fills in, \<^verbatim>\<open>UpdateConsumer\<close>),
  and each returns the new map. The mutex makes each operation one step. The
  repository is a \<open>keyed_table\<close>, interpreted below on its own lookup, save and delete.
\<close>

section \<open>State and operations\<close>

record stream_repo =
  sr_streams :: "string \<rightharpoonup> stream"
  sr_start_time :: gotime

definition demo_stream :: "(nat \<Rightarrow> gotime) \<Rightarrow> stream" where
  "demo_stream clock =
     zero_stream\<lparr>st_tenant_id := ''tenant_company_alpha'', st_stream_id := ''cam_entrance_01'',
       st_source_url := ''synthetic://benchmark_4k_gpu'', st_decoding_engine := ''nvidia_nvdec'',
       st_status := ''online'', st_resolution := ''1920x1080'', st_codec := ''h264'',
       st_ingest_fps := rnd 30, st_created_at := clock 1,
       st_consumers :=
         [zero_consumer\<lparr>co_analytic_type := ''lpr_ocr'', co_target_fps := rnd 2,
            co_actual_fps := rnd 2, co_output_format := ''shm_numpy'',
            co_shm_key := ''/hs_shm_tenant_company_alpha_cam_entrance_01_lpr'',
            co_created_at := clock 2\<rparr>,
          zero_consumer\<lparr>co_analytic_type := ''object_tracker'', co_target_fps := rnd 15,
            co_actual_fps := rnd (1498 / 100), co_output_format := ''cuda_ipc_tensor'',
            co_created_at := clock 3\<rparr>]\<rparr>"

text \<open>\<^verbatim>\<open>NewStreamRepository\<close>: \<open>clock i\<close> is the \<open>i\<close>-th reading of the clock.\<close>

definition new_stream_repository :: "(nat \<Rightarrow> gotime) \<Rightarrow> stream_repo" where
  "new_stream_repository clock =
     (let st = set_defaults (clock 4) (demo_stream clock)
      in \<lparr>sr_streams = [st_stream_id st \<mapsto> st], sr_start_time = clock 0\<rparr>)"

text \<open>\<^verbatim>\<open>Save\<close> fills the caller's stream in as well, so the filled stream is returned too.\<close>

definition repo_save :: "gotime \<Rightarrow> stream \<Rightarrow> stream_repo \<Rightarrow> go_error + (stream \<times> stream_repo)" where
  "repo_save now st r =
     (let st' = set_defaults now st
      in Inr (st', r\<lparr>sr_streams := (sr_streams r)(st_stream_id st' \<mapsto> st')\<rparr>))"

definition repo_find :: "string \<Rightarrow> stream_repo \<Rightarrow> go_error + stream" where
  "repo_find i r = (case sr_streams r i of None \<Rightarrow> Inl ErrStreamNotFound | Some st \<Rightarrow> Inr st)"

definition settle_score :: "stream \<Rightarrow> stream" where
  "settle_score s =
     (if feq (st_resource_score s) (Fin 0)
      then s\<lparr>st_resource_score := calculate_resource_score s\<rparr> else s)"

definition stream_matches :: "string \<Rightarrow> string \<Rightarrow> stream \<Rightarrow> bool" where
  "stream_matches query tenant s =
     (if tenant \<noteq> [] \<and> to_lower (st_tenant_id s) \<noteq> tenant then False
      else if query \<noteq> [] then
        str_contains (to_lower (st_stream_id s)) query \<or>
        str_contains (to_lower (st_source_url s)) query \<or>
        str_contains (to_lower (st_codec s)) query
      else True)"

definition stream_before :: "string \<Rightarrow> stream \<Rightarrow> stream \<Rightarrow> bool" where
  "stream_before sort_by a b =
     (if sort_by = ''latency_desc'' then flt (st_decode_latency b) (st_decode_latency a)
      else if sort_by = ''fps_desc'' then flt (st_ingest_fps b) (st_ingest_fps a)
      else if sort_by = ''stream_id_asc'' then st_stream_id a < st_stream_id b
      else flt (st_resource_score b) (st_resource_score a))"

text \<open>
  The part of \<^verbatim>\<open>ListFiltered\<close> before the paging: the score of every stream is settled, and the
  matching streams are collected in iteration order and sorted.
\<close>

definition settle_all :: "stream_repo \<Rightarrow> stream_repo" where
  "settle_all r = r\<lparr>sr_streams := (\<lambda>k. map_option settle_score (sr_streams r k))\<rparr>"

definition sorted_matches :: "string list \<Rightarrow> string \<Rightarrow> string \<Rightarrow> string \<Rightarrow> stream_repo \<Rightarrow> stream list" where
  "sorted_matches ord query tenant sort_by r =
     sort_slice (stream_before sort_by)
       (filter (stream_matches (to_lower (trim_space query)) (to_lower (trim_space tenant)))
         (range_map ord (sr_streams (settle_all r))))"

text \<open>The paging, on 64-bit integers: the product and the sum may wrap around.\<close>

definition page_of :: "'a list \<Rightarrow> int \<Rightarrow> int \<Rightarrow> 'a list outcome" where
  "page_of xs page limit =
     (let total = int (length xs);
          page1 = (if page < 1 then 1 else page);
          limit1 = (if limit < 1 then 10 else limit);
          start = i64 ((page1 - 1) * limit1)
      in if start \<ge> total then Returns []
         else let stop = i64 (start + limit1);
                  stop1 = (if stop > total then total else stop)
              in go_slice xs start stop1)"

definition list_filtered ::
  "string list \<Rightarrow> string \<Rightarrow> string \<Rightarrow> string \<Rightarrow> int \<Rightarrow> int \<Rightarrow> stream_repo
   \<Rightarrow> (stream list \<times> int) outcome \<times> stream_repo" where
  "list_filtered ord query tenant sort_by page limit r =
     (let xs = sorted_matches ord query tenant sort_by r
      in (map_outcome (\<lambda>ys. (ys, int (length xs))) (page_of xs page limit), settle_all r))"

definition repo_list_all :: "string list \<Rightarrow> stream_repo \<Rightarrow> stream list outcome \<times> stream_repo" where
  "repo_list_all ord r =
     (let (res, r') = list_filtered ord [] [] ''resource_desc'' 1 1000 r
      in (map_outcome fst res, r'))"

definition repo_delete :: "string \<Rightarrow> stream_repo \<Rightarrow> go_error + stream_repo" where
  "repo_delete i r =
     (case sr_streams r i of
        None \<Rightarrow> Inl ErrStreamNotFound
      | Some _ \<Rightarrow> Inr (r\<lparr>sr_streams := (sr_streams r)(i := None)\<rparr>))"

definition update_consumer_fps ::
  "gotime \<Rightarrow> string \<Rightarrow> string \<Rightarrow> float64 \<Rightarrow> string \<Rightarrow> stream_repo \<Rightarrow> go_error + stream_repo" where
  "update_consumer_fps now i atype fps fmt r =
     (case sr_streams r i of
        None \<Rightarrow> Inl ErrStreamNotFound
      | Some st \<Rightarrow> Inr (r\<lparr>sr_streams := (sr_streams r)(i \<mapsto> update_consumer now atype fps fmt st)\<rparr>))"

text \<open>\<^verbatim>\<open>uint64(time.Since(r.startTime).Seconds())\<close>\<close>

definition uptime_seconds :: "gotime \<Rightarrow> stream_repo \<Rightarrow> 64 word" where
  "uptime_seconds now r = word_of_int (f_to_i64 (dur_seconds (time_sub now (sr_start_time r))))"

section \<open>The repository as a keyed table\<close>

definition repo_get :: "stream_repo \<Rightarrow> string \<Rightarrow> stream option" where
  "repo_get r i = sr_streams r i"

definition repo_put :: "string \<Rightarrow> stream \<Rightarrow> stream_repo \<Rightarrow> stream_repo" where
  "repo_put i st r = r\<lparr>sr_streams := (sr_streams r)(i \<mapsto> st)\<rparr>"

definition repo_drop :: "string \<Rightarrow> stream_repo \<Rightarrow> stream_repo" where
  "repo_drop i r = r\<lparr>sr_streams := (sr_streams r)(i := None)\<rparr>"

interpretation streams: keyed_table repo_get repo_put repo_drop
  by unfold_locales (auto simp: repo_get_def repo_put_def repo_drop_def)

lemma repo_save_eq:
  "repo_save now st r = Inr (set_defaults now st, repo_put (st_stream_id st) (set_defaults now st) r)"
  by (simp add: repo_save_def repo_put_def Let_def)

lemma repo_find_eq:
  "repo_find i r = (case repo_get r i of None \<Rightarrow> Inl ErrStreamNotFound | Some st \<Rightarrow> Inr st)"
  by (simp add: repo_find_def repo_get_def)

lemma repo_delete_eq:
  "repo_delete i r = (if repo_get r i = None then Inl ErrStreamNotFound else Inr (repo_drop i r))"
  by (auto simp: repo_delete_def repo_get_def repo_drop_def split: option.split)

lemma update_consumer_fps_eq:
  "update_consumer_fps now i a fps fmt r =
     (case repo_get r i of None \<Rightarrow> Inl ErrStreamNotFound
      | Some st \<Rightarrow> Inr (repo_put i (update_consumer now a fps fmt st) r))"
  by (simp add: update_consumer_fps_def repo_get_def repo_put_def split: option.split)

text \<open>The invariant: a stream is stored under its own id, with its defaults filled in.\<close>

definition entry_ok :: "string \<Rightarrow> stream \<Rightarrow> bool" where
  "entry_ok i st \<longleftrightarrow> st_stream_id st = i \<and> stream_filled st"

definition repo_ok :: "stream_repo \<Rightarrow> bool" where
  "repo_ok r \<longleftrightarrow> streams.entries_ok entry_ok r"

lemma repo_ok_get: "repo_ok r \<Longrightarrow> repo_get r i = Some st \<Longrightarrow> st_stream_id st = i \<and> stream_filled st"
  unfolding repo_ok_def entry_ok_def by (rule streams.entries_ok_get [of entry_ok, unfolded entry_ok_def])

lemma repo_ok_save [hs_inv]:
  "repo_ok r \<Longrightarrow> now \<noteq> 0 \<Longrightarrow> repo_save now st r = Inr (st', r') \<Longrightarrow> repo_ok r'"
  by (auto simp: repo_ok_def repo_save_eq entry_ok_def set_defaults_filled
      intro!: streams.entries_ok_put)

lemma repo_ok_delete [hs_inv]: "repo_ok r \<Longrightarrow> repo_delete i r = Inr r' \<Longrightarrow> repo_ok r'"
  by (auto simp: repo_ok_def repo_delete_eq intro!: streams.entries_ok_del split: if_splits)

lemma repo_ok_update [hs_inv]:
  "repo_ok r \<Longrightarrow> update_consumer_fps now i a fps fmt r = Inr r' \<Longrightarrow> repo_ok r'"
  by (auto simp: update_consumer_fps_eq repo_ok_def entry_ok_def split: option.splits
      intro!: streams.entries_ok_put dest: streams.entries_ok_get)

lemma settle_score_simps [simp]:
  "st_stream_id (settle_score s) = st_stream_id s"
  "st_tenant_id (settle_score s) = st_tenant_id s"
  "st_source_url (settle_score s) = st_source_url s"
  "st_status (settle_score s) = st_status s"
  "st_codec (settle_score s) = st_codec s"
  "st_consumers (settle_score s) = st_consumers s"
  "stream_filled (settle_score s) = stream_filled s"
  by (simp_all add: settle_score_def stream_filled_def)

lemma repo_get_settle_all: "repo_get (settle_all r) i = map_option settle_score (repo_get r i)"
  by (simp add: repo_get_def settle_all_def)

lemma dom_settle_all [simp]: "dom (sr_streams (settle_all r)) = dom (sr_streams r)"
  by (auto simp: settle_all_def dom_def)

lemma map_order_settle_all [simp]:
  "map_order ord (sr_streams (settle_all r)) = map_order ord (sr_streams r)"
  by (simp add: map_order_def)

lemma repo_ok_settle_all [hs_inv]: "repo_ok r \<Longrightarrow> repo_ok (settle_all r)"
  by (auto simp: repo_ok_def streams.entries_ok_def repo_get_settle_all entry_ok_def)

lemma repo_ok_list [hs_inv]:
  "repo_ok r \<Longrightarrow> list_filtered ord q t s p l r = (res, r') \<Longrightarrow> repo_ok r'"
  by (auto simp: list_filtered_def Let_def repo_ok_settle_all)

lemma repo_ok_new [hs_inv]: "clock 1 \<noteq> 0 \<Longrightarrow> repo_ok (new_stream_repository clock)"
  by (auto simp: repo_ok_def streams.entries_ok_def new_stream_repository_def Let_def repo_get_def
      entry_ok_def stream_filled_def set_defaults_fields demo_stream_def split: if_splits)

section \<open>Listing: the matching streams\<close>

lemma set_sorted_matches:
  assumes "map_order ord (sr_streams r)"
  shows "set (sorted_matches ord q t sort_by r) =
     {s. \<exists>i st. repo_get r i = Some st \<and> s = settle_score st \<and>
          stream_matches (to_lower (trim_space q)) (to_lower (trim_space t)) s}"
proof -
  have "set (range_map ord (sr_streams (settle_all r))) = ran (sr_streams (settle_all r))"
    using assms by (simp add: set_range_map_order)
  then show ?thesis
    by (auto simp: sorted_matches_def ran_def settle_all_def repo_get_def)
qed

lemma distinct_range_map_ids:
  assumes "distinct ord" and "\<And>k s. m k = Some s \<Longrightarrow> st_stream_id s = k"
  shows "distinct (map st_stream_id (range_map ord m))"
  using assms(1)
  by (induction ord) (auto simp: set_range_map assms(2) split: option.split)

lemma distinct_insert_slice:
  "distinct (map f (insert_slice lt x xs)) = (f x \<notin> f ` set xs \<and> distinct (map f xs))"
  by (induction xs) auto

lemma distinct_sort_slice: "distinct (map f (sort_slice lt xs)) = distinct (map f xs)"
  by (induction xs) (simp_all add: distinct_insert_slice)

lemma distinct_sorted_matches:
  assumes "repo_ok r" and "map_order ord (sr_streams r)"
  shows "distinct (map st_stream_id (sorted_matches ord q t sort_by r))"
proof -
  have "distinct (map st_stream_id (range_map ord (sr_streams (settle_all r))))"
    using assms repo_ok_get [OF repo_ok_settle_all [OF assms(1)]]
    by (intro distinct_range_map_ids) (auto simp: map_order_def repo_get_def)
  then show ?thesis
    by (simp add: sorted_matches_def distinct_sort_slice distinct_map_filter)
qed

section \<open>Listing: the order\<close>

definition keys_numeric :: "stream \<Rightarrow> bool" where
  "keys_numeric s \<longleftrightarrow>
     st_decode_latency s \<noteq> NaN \<and> st_ingest_fps s \<noteq> NaN \<and> st_resource_score s \<noteq> NaN"

lemma flt_irrefl_asym: "flt x y \<Longrightarrow> \<not> flt y x"
  by (cases x; cases y) auto

lemma flt_mid: "flt x z \<Longrightarrow> y \<noteq> NaN \<Longrightarrow> flt x y \<or> flt y z"
  by (cases x; cases y; cases z) (auto split: if_splits)

lemma weak_order_stream_before:
  assumes "\<And>s. s \<in> A \<Longrightarrow> keys_numeric s"
  shows "weak_order_on A (stream_before sort_by)"
proof -
  have "\<not> stream_before sort_by b a" if "stream_before sort_by a b" for a b
    using that by (auto simp: stream_before_def dest: flt_irrefl_asym split: if_splits)
  moreover have "\<not> stream_before sort_by c a"
    if "b \<in> A" "\<not> stream_before sort_by b a" "\<not> stream_before sort_by c b" for a b c
    using that assms [OF that(1)]
      flt_mid [of "st_decode_latency a" "st_decode_latency c" "st_decode_latency b"]
      flt_mid [of "st_ingest_fps a" "st_ingest_fps c" "st_ingest_fps b"]
      flt_mid [of "st_resource_score a" "st_resource_score c" "st_resource_score b"]
    by (auto simp: stream_before_def keys_numeric_def split: if_splits)
  ultimately show ?thesis unfolding weak_order_on_def by blast
qed

lemma sorted_sorted_matches:
  assumes "map_order ord (sr_streams r)"
    and "\<And>i s. repo_get r i = Some s \<Longrightarrow> keys_numeric (settle_score s)"
  shows "sorted_wrt (\<lambda>a b. \<not> stream_before sort_by b a) (sorted_matches ord q t sort_by r)"
  unfolding sorted_matches_def
proof (rule sorted_sort_slice, rule weak_order_stream_before)
  fix s
  assume "s \<in> set (filter (stream_matches (to_lower (trim_space q)) (to_lower (trim_space t)))
      (range_map ord (sr_streams (settle_all r))))"
  then show "keys_numeric s"
    using assms by (auto simp: set_range_map settle_all_def repo_get_def)
qed

section \<open>Listing: the pages\<close>

definition norm_page :: "int \<Rightarrow> int" where
  "norm_page page = (if page < 1 then 1 else page)"

definition norm_limit :: "int \<Rightarrow> int" where
  "norm_limit limit = (if limit < 1 then 10 else limit)"

lemma page_of_exact:
  assumes "norm_page page * norm_limit limit < 2 ^ 63" and "int (length xs) < 2 ^ 63"
  shows "page_of xs page limit =
     Returns (take (nat (norm_limit limit)) (drop (nat ((norm_page page - 1) * norm_limit limit)) xs))"
proof -
  let ?p = "norm_page page" and ?l = "norm_limit limit"
  have pl: "1 \<le> ?p" "1 \<le> ?l" by (auto simp: norm_page_def norm_limit_def)
  define s where "s = (?p - 1) * ?l"
  have s: "0 \<le> s" "s + ?l = ?p * ?l" using pl by (auto simp: s_def algebra_simps)
  have w: "i64 s = s" "i64 (s + ?l) = s + ?l" using s assms(1) pl by (auto intro!: i64_id)
  have eq: "page_of xs page limit =
      (if int (length xs) \<le> s then Returns []
       else go_slice xs s (if int (length xs) < s + ?l then int (length xs) else s + ?l))"
    using w by (simp add: page_of_def Let_def s_def norm_page_def norm_limit_def)
  show ?thesis
  proof (cases "int (length xs) \<le> s")
    case True
    then show ?thesis using s by (simp add: eq s_def [symmetric])
  next
    case False
    have "take (nat (int (length xs) - s)) (drop (nat s) xs) = take (nat ?l) (drop (nat s) xs)"
      if "int (length xs) < s + ?l"
      using that False s(1) pl by (simp add: nat_diff_distrib')
    then show ?thesis
      using False s(1) pl by (auto simp: eq go_slice_def s_def [symmetric])
  qed
qed

lemma page_of_length: "page_of xs page limit = Returns ys \<Longrightarrow> length ys \<le> length xs"
  by (auto simp: page_of_def Let_def go_slice_def split: if_splits)

lemma page_of_subset: "page_of xs page limit = Returns ys \<Longrightarrow> set ys \<subseteq> set xs"
  by (auto simp: page_of_def Let_def go_slice_def split: if_splits dest!: in_set_takeD in_set_dropD)

lemma concat_pages:
  "concat (map (\<lambda>p. take l (drop (p * l) xs)) [0..<n]) = take (n * l) xs"
  by (induction n) (simp_all add: take_add [symmetric] add.commute)

section \<open>Reachable repositories\<close>

text \<open>One step is one operation of the interface, whatever it returned.\<close>

inductive repo_step :: "stream_repo \<Rightarrow> stream_repo \<Rightarrow> bool" where
  step_save: "now \<noteq> 0 \<Longrightarrow> repo_save now st r = Inr (st', r') \<Longrightarrow> repo_step r r'"
| step_delete: "repo_delete i r = Inr r' \<Longrightarrow> repo_step r r'"
| step_update: "update_consumer_fps now i a fps fmt r = Inr r' \<Longrightarrow> repo_step r r'"
| step_list: "list_filtered ord q t s p l r = (res, r') \<Longrightarrow> repo_step r r'"

inductive repo_reachable :: "(nat \<Rightarrow> gotime) \<Rightarrow> stream_repo \<Rightarrow> bool" for clock where
  reach_new: "repo_reachable clock (new_stream_repository clock)"
| reach_step: "repo_reachable clock r \<Longrightarrow> repo_step r r' \<Longrightarrow> repo_reachable clock r'"

inductive_cases repo_stepE: "repo_step r r'"

lemma repo_step_ok: "repo_step r r' \<Longrightarrow> repo_ok r \<Longrightarrow> repo_ok r'"
  by (elim repo_stepE) (auto intro: hs_inv)

lemma list_filtered_member:
  assumes "map_order ord (sr_streams r)" and "trim_space t \<noteq> []"
    and "list_filtered ord q t sort_by page limit r = (Returns (ys, n), r')" and "s \<in> set ys"
  shows "to_lower (st_tenant_id s) = to_lower (trim_space t)"
    and "\<exists>i st. repo_get r i = Some st \<and> s = settle_score st" and "r' = settle_all r"
proof -
  have "s \<in> set (sorted_matches ord q t sort_by r)" and r': "r' = settle_all r"
    using assms(3,4) page_of_subset [of "sorted_matches ord q t sort_by r" page limit]
    by (auto simp: list_filtered_def Let_def elim!: map_outcome.elims)
  then obtain i st where g: "repo_get r i = Some st" "s = settle_score st"
      and m: "stream_matches (to_lower (trim_space q)) (to_lower (trim_space t)) s"
    using set_sorted_matches [OF assms(1)] by auto
  have "to_lower (trim_space t) \<noteq> []" using assms(2) by (simp add: to_lower_def)
  then show "to_lower (st_tenant_id s) = to_lower (trim_space t)"
    using m by (auto simp: stream_matches_def split: if_splits)
  show "\<exists>i st. repo_get r i = Some st \<and> s = settle_score st" "r' = settle_all r"
    using g r' by blast+
qed

section \<open>Properties\<close>

text \<open>
  C9: In every repository reachable from \<open>NewStreamRepository\<close> by any sequence of Save, Delete,
  UpdateConsumerFPS and ListFiltered, each stream is stored under its own id and has all its
  defaults filled in (creation time, status, resolution, codec, ingest FPS).
\<close>

theorem repo_reachable_ok:
  assumes "clock 1 \<noteq> 0" and "repo_reachable clock r" and "sr_streams r i = Some st"
  shows "st_stream_id st = i \<and> st_created_at st \<noteq> 0 \<and> st_status st \<noteq> [] \<and>
    st_resolution st \<noteq> [] \<and> st_codec st \<noteq> [] \<and> \<not> feq (st_ingest_fps st) (Fin 0)"
proof -
  have "repo_ok r"
    using assms(2)
    by (induction rule: repo_reachable.induct) (use assms(1) in \<open>auto intro: repo_ok_new repo_step_ok\<close>)
  then show ?thesis
    using assms(3) by (auto dest!: repo_ok_get simp: repo_get_def stream_filled_def)
qed

theorem repo_reachable_ok_witness:
  "st_stream_id (set_defaults 1 (demo_stream (\<lambda>_. 1))) = ''cam_entrance_01'' \<and>
   st_codec (set_defaults 1 (demo_stream (\<lambda>_. 1))) \<noteq> []"
  using repo_reachable_ok [of "\<lambda>_. 1", OF _ reach_new, of "''cam_entrance_01''"]
  by (simp add: new_stream_repository_def Let_def demo_stream_def)



text \<open>
  The tenant filter isolates tenants: with a non-blank tenant filter, every stream ListFiltered
  returns belongs to that tenant (up to letter case) and is the stream the repository holds under
  its id.
\<close>

theorem list_filtered_tenant:
  assumes "repo_ok r" and "map_order ord (sr_streams r)" and "trim_space t \<noteq> []"
    and "list_filtered ord q t sort_by page limit r = (Returns (ys, n), r')" and "s \<in> set ys"
  shows "to_lower (st_tenant_id s) = to_lower (trim_space t) \<and>
    repo_find (st_stream_id s) r' = Inr s"
  using list_filtered_member [OF assms(2-5)] repo_ok_get [OF assms(1)]
  by (fastforce simp: repo_find_eq repo_get_settle_all)

theorem list_filtered_tenant_witness:
  "let r = new_stream_repository (\<lambda>_. 1); st = set_defaults 1 (demo_stream (\<lambda>_. 1))
   in repo_find (st_stream_id (settle_score st)) (settle_all r) = Inr (settle_score st)"
proof -
  let ?r = "new_stream_repository (\<lambda>_. 1)" and ?st = "set_defaults 1 (demo_stream (\<lambda>_. 1))"
  let ?t = "''Tenant_Company_Alpha ''"
  have r: "sr_streams ?r = [''cam_entrance_01'' \<mapsto> ?st]"
    by (simp add: new_stream_repository_def Let_def demo_stream_def)
  have m: "stream_matches (to_lower (trim_space [])) (to_lower (trim_space ?t)) (settle_score ?st)"
  proof -
    have "to_lower (trim_space ?t) = ''tenant_company_alpha''" "to_lower (trim_space []) = []"
      "to_lower ''tenant_company_alpha'' = ''tenant_company_alpha''" by code_simp+
    then show ?thesis by (simp add: stream_matches_def demo_stream_def)
  qed
  have "list_filtered [''cam_entrance_01''] [] ?t [] 1 10 ?r =
      (Returns ([settle_score ?st], 1), settle_all ?r)"
    using m by (simp add: list_filtered_def sorted_matches_def settle_all_def r Let_def page_of_def
        go_slice_def i64_def)
  then show ?thesis
    using list_filtered_tenant [of ?r "[''cam_entrance_01'']" ?t "[]" "[]" 1 10 "[settle_score ?st]" 1
        "settle_all ?r" "settle_score ?st"]
    by (simp add: repo_ok_new map_order_def r Let_def trim_space_def trim_right_func_def
        trim_left_func_def is_space_def)
qed

text \<open>
  C39: The paging arithmetic overflows: with page \<open>2^62 + 1\<close> and limit 2 the start index wraps to a
  negative number, and ListFiltered panics whenever any stream matches.
\<close>

theorem list_filtered_overflow_panics:
  assumes "sorted_matches ord q t sort_by r \<noteq> []"
  shows "fst (list_filtered ord q t sort_by 4611686018427387905 2 r) = Panics"
proof -
  have "i64 9223372036854775808 = - 9223372036854775808" by (simp add: i64_def)
  then show ?thesis
    using assms by (simp add: list_filtered_def Let_def page_of_def go_slice_def)
qed

theorem list_filtered_overflow_panics_witness:
  "fst (list_filtered [''cam_entrance_01''] [] [] [] 4611686018427387905 2
     (new_stream_repository (\<lambda>_. 1))) = Panics"
proof (rule list_filtered_overflow_panics)
  show "sorted_matches [''cam_entrance_01''] [] [] [] (new_stream_repository (\<lambda>_. 1)) \<noteq> []"
    by (simp add: sorted_matches_def settle_all_def new_stream_repository_def Let_def
        demo_stream_def stream_matches_def to_lower_def trim_space_def trim_right_func_def
        trim_left_func_def)
qed

end
