(* ===== verification/DomainTelemetry.thy ===== *)
theory DomainTelemetry
  imports DomainStream
begin

text \<open>
  \<^verbatim>\<open>internal/domain/telemetry.go\<close>: log entries, queries over them and the error summary. A log
  level is any string, as in the code; the constants are the ones the logger counts. The free-form
  \<^verbatim>\<open>details\<close> (\<^verbatim>\<open>map[string]interface\<close>) are association lists of JSON values.
\<close>

datatype json =
    JNull
  | JBool bool
  | JNum float64
  | JStr string
  | JArr "json list"
  | JObj "(string \<times> json) list"

type_synonym log_level = string
type_synonym details = "(string \<times> json) list"

definition LogLevelDebug :: log_level where "LogLevelDebug = ''DEBUG''"
definition LogLevelInfo :: log_level where "LogLevelInfo = ''INFO''"
definition LogLevelWarn :: log_level where "LogLevelWarn = ''WARN''"
definition LogLevelError :: log_level where "LogLevelError = ''ERROR''"
definition LogLevelCritical :: log_level where "LogLevelCritical = ''CRITICAL''"

lemmas log_level_defs =
  LogLevelDebug_def LogLevelInfo_def LogLevelWarn_def LogLevelError_def LogLevelCritical_def

record log_entry =
  le_id :: "64 word"
  le_timestamp :: gotime
  le_level :: log_level
  le_component :: string
  le_message :: string
  le_details :: details

record log_filter =
  lf_level :: log_level
  lf_component :: string
  lf_since :: gotime
  lf_limit :: int

record log_query_result =
  lq_total_logs :: int
  lq_total_errors :: int
  lq_total_warns :: int
  lq_filter_level :: string
  lq_logs :: "log_entry list"

record error_summary =
  es_total_errors :: int
  es_total_warnings :: int
  es_last_error_time :: "gotime option"
  es_last_error_message :: string
  es_errors_by_component :: "string \<rightharpoonup> int"
  es_recent_errors :: "log_entry list"

end
