(* ===== verification/RingLogger.thy ===== *)
theory RingLogger
  imports DomainTelemetry
begin

text \<open>
  \<^verbatim>\<open>internal/adapters/secondary/logger/ring_logger.go\<close>: the in-memory ring of log entries with its
  counters. \<^verbatim>\<open>RecordLog\<close> first takes an id and counts with atomic additions, then appends under
  the mutex; the two halves are separate definitions, so that the interleaving of several callers
  can be modelled with them (section on concurrent callers).
\<close>

section \<open>State and operations\<close>

record ring_logger =
  rl_capacity :: int
  rl_entries :: "log_entry list"
  rl_next_id :: "64 word"
  rl_total_logs :: "64 word"
  rl_total_warns :: "64 word"
  rl_total_errs :: "64 word"
  rl_last_error :: "log_entry option"

definition default_ring_capacity :: int where
  "default_ring_capacity = 1000"

text \<open>\<^verbatim>\<open>NewRingLogger(capacity ...int)\<close>: only the first argument counts, and only if positive.\<close>

definition new_ring_logger :: "int list \<Rightarrow> ring_logger" where
  "new_ring_logger capacity =
     (let cap = (case capacity of c # _ \<Rightarrow> if c > 0 then c else default_ring_capacity
                 | [] \<Rightarrow> default_ring_capacity)
      in \<lparr>rl_capacity = cap, rl_entries = [], rl_next_id = 0, rl_total_logs = 0,
          rl_total_warns = 0, rl_total_errs = 0, rl_last_error = None\<rparr>)"

definition log_reserve :: "log_level \<Rightarrow> ring_logger \<Rightarrow> 64 word \<times> ring_logger" where
  "log_reserve level r =
     (let r1 = r\<lparr>rl_next_id := rl_next_id r + 1, rl_total_logs := rl_total_logs r + 1\<rparr>;
          r2 = (if level = LogLevelWarn then r1\<lparr>rl_total_warns := rl_total_warns r1 + 1\<rparr>
                else if level = LogLevelError \<or> level = LogLevelCritical
                then r1\<lparr>rl_total_errs := rl_total_errs r1 + 1\<rparr> else r1)
      in (rl_next_id r1, r2))"

definition log_append :: "log_entry \<Rightarrow> ring_logger \<Rightarrow> ring_logger" where
  "log_append e r =
     (let r1 = (if le_level e = LogLevelError \<or> le_level e = LogLevelCritical
                then r\<lparr>rl_last_error := Some e\<rparr> else r)
      in if int (length (rl_entries r1)) \<ge> rl_capacity r1
         then r1\<lparr>rl_entries := tl (rl_entries r1) @ [e]\<rparr>
         else r1\<lparr>rl_entries := rl_entries r1 @ [e]\<rparr>)"

definition make_entry ::
  "64 word \<Rightarrow> gotime \<Rightarrow> log_level \<Rightarrow> string \<Rightarrow> string \<Rightarrow> details \<Rightarrow> log_entry" where
  "make_entry i now level compo msg ds =
     \<lparr>le_id = i, le_timestamp = now, le_level = level, le_component = compo, le_message = msg,
      le_details = ds\<rparr>"

definition record_log ::
  "gotime \<Rightarrow> log_level \<Rightarrow> string \<Rightarrow> string \<Rightarrow> details \<Rightarrow> ring_logger \<Rightarrow> ring_logger" where
  "record_log now level compo msg ds r =
     (let (i, r') = log_reserve level r in log_append (make_entry i now level compo msg ds) r')"

text \<open>The two marks \<^verbatim>\<open>Write\<close> looks for, a cross and a warning sign, in UTF-8.\<close>

definition cross_mark :: string where
  "cross_mark = map char_of [226, 157, 140 :: nat]"

definition warning_sign :: string where
  "warning_sign = map char_of [226, 154, 160, 239, 184, 143 :: nat]"

definition write_level :: "string \<Rightarrow> log_level" where
  "write_level raw =
     (let upper = to_upper raw in
      if str_contains upper ''ERROR'' \<or> str_contains raw cross_mark \<or>
         str_contains upper ''FAILED'' \<or> str_contains upper ''FATAL'' then LogLevelError
      else if str_contains upper ''WARN'' \<or> str_contains raw warning_sign then LogLevelWarn
      else if str_contains upper ''DEBUG'' then LogLevelDebug
      else LogLevelInfo)"

definition write_component :: "string \<Rightarrow> string" where
  "write_component raw =
     (case str_index raw ''['' of
        None \<Rightarrow> ''system''
      | Some i \<Rightarrow>
          (case str_index (drop i raw) '']'' of
             None \<Rightarrow> ''system''
           | Some j \<Rightarrow>
               (let tag = to_lower (trim_space (take (j - 1) (drop (i + 1) raw)))
                in if tag \<noteq> [] then tag else ''system'')))"

text \<open>\<^verbatim>\<open>Write\<close>, the \<^verbatim>\<open>io.Writer\<close> that receives the standard log; it returns the bytes consumed.\<close>

definition logger_write :: "gotime \<Rightarrow> string \<Rightarrow> ring_logger \<Rightarrow> nat \<times> ring_logger" where
  "logger_write now p r =
     (let raw = trim_space p in
      if raw = [] then (length p, r)
      else (length p, record_log now (write_level raw) (write_component raw) raw [] r))"

definition log_matches :: "gotime \<Rightarrow> string \<Rightarrow> string \<Rightarrow> log_entry \<Rightarrow> bool" where
  "log_matches since level compo e =
     (if since \<noteq> 0 \<and> le_timestamp e < since then False
      else if level \<noteq> [] \<and> le_level e \<noteq> level then False
      else if compo \<noteq> [] \<and> \<not> str_contains (to_lower (le_component e)) compo then False
      else True)"

text \<open>The loop of \<^verbatim>\<open>QueryLogs\<close>, over the entries from the newest, with its \<^verbatim>\<open>break\<close>.\<close>

fun query_loop :: "(log_entry \<Rightarrow> bool) \<Rightarrow> nat \<Rightarrow> log_entry list \<Rightarrow> log_entry list \<Rightarrow> log_entry list" where
  "query_loop P limit acc [] = acc"
| "query_loop P limit acc (e # es) =
     (if \<not> P e then query_loop P limit acc es
      else let acc' = acc @ [e]
           in if length acc' \<ge> limit then acc' else query_loop P limit acc' es)"

definition query_limit :: "log_filter \<Rightarrow> int" where
  "query_limit f = (if lf_limit f \<le> 0 \<or> lf_limit f > 500 then 50 else lf_limit f)"

definition query_logs :: "log_filter \<Rightarrow> ring_logger \<Rightarrow> log_query_result" where
  "query_logs f r =
     (let limit = query_limit f;
          level = to_upper (lf_level f);
          compo = to_lower (lf_component f)
      in \<lparr>lq_total_logs = sint (rl_total_logs r),
          lq_total_errors = sint (rl_total_errs r),
          lq_total_warns = sint (rl_total_warns r),
          lq_filter_level = level,
          lq_logs = query_loop (log_matches (lf_since f) level compo) (nat limit) []
                      (rev (rl_entries r))\<rparr>)"

definition is_error_entry :: "log_entry \<Rightarrow> bool" where
  "is_error_entry e \<longleftrightarrow> le_level e = LogLevelError \<or> le_level e = LogLevelCritical"

fun summary_loop ::
  "(string \<rightharpoonup> int) \<Rightarrow> log_entry list \<Rightarrow> log_entry list \<Rightarrow> (string \<rightharpoonup> int) \<times> log_entry list" where
  "summary_loop m acc [] = (m, acc)"
| "summary_loop m acc (e # es) =
     (if is_error_entry e
      then summary_loop
             (m(le_component e \<mapsto> (case m (le_component e) of None \<Rightarrow> 0 | Some n \<Rightarrow> n) + 1))
             (if length acc < 20 then acc @ [e] else acc) es
      else summary_loop m acc es)"

definition get_error_summary :: "ring_logger \<Rightarrow> error_summary" where
  "get_error_summary r =
     (let (m, recent) = summary_loop Map.empty [] (rev (rl_entries r))
      in \<lparr>es_total_errors = sint (rl_total_errs r),
          es_total_warnings = sint (rl_total_warns r),
          es_last_error_time = map_option le_timestamp (rl_last_error r),
          es_last_error_message =
            (case rl_last_error r of None \<Rightarrow> [] | Some e \<Rightarrow> le_message e),
          es_errors_by_component = m,
          es_recent_errors = recent\<rparr>)"

definition format_stats :: "ring_logger \<Rightarrow> string" where
  "format_stats r =
     ''Logs: '' @ nat_str (unat (rl_total_logs r)) @ '' | Errors: '' @
     nat_str (unat (rl_total_errs r)) @ '' | Warnings: '' @ nat_str (unat (rl_total_warns r))"

section \<open>The ring is a bounded ring\<close>

interpretation log_ring: bounded_ring log_append rl_entries "\<lambda>r. nat (rl_capacity r)"
  by unfold_locales (auto simp: log_append_def Let_def split: if_splits)

definition logger_ok :: "ring_logger \<Rightarrow> bool" where
  "logger_ok r \<longleftrightarrow> log_ring.ring_ok r"

lemma logger_ok_new [hs_inv]: "logger_ok (new_ring_logger capacity)"
  by (auto simp: logger_ok_def log_ring.ring_ok_def new_ring_logger_def Let_def
      default_ring_capacity_def split: list.split)

lemma log_reserve_frame [simp]:
  "rl_entries (snd (log_reserve level r)) = rl_entries r"
  "rl_capacity (snd (log_reserve level r)) = rl_capacity r"
  "rl_last_error (snd (log_reserve level r)) = rl_last_error r"
  "fst (log_reserve level r) = rl_next_id r + 1"
  by (simp_all add: log_reserve_def Let_def)

lemma log_reserve_counts:
  "rl_next_id (snd (log_reserve level r)) = rl_next_id r + 1"
  "rl_total_logs (snd (log_reserve level r)) = rl_total_logs r + 1"
  "rl_total_warns (snd (log_reserve level r)) =
     rl_total_warns r + (if level = LogLevelWarn then 1 else 0)"
  "rl_total_errs (snd (log_reserve level r)) =
     rl_total_errs r + (if level = LogLevelError \<or> level = LogLevelCritical then 1 else 0)"
  by (auto simp: log_reserve_def Let_def log_level_defs)

lemma log_append_counts [simp]:
  "rl_next_id (log_append e r) = rl_next_id r"
  "rl_total_logs (log_append e r) = rl_total_logs r"
  "rl_total_warns (log_append e r) = rl_total_warns r"
  "rl_total_errs (log_append e r) = rl_total_errs r"
  "rl_capacity (log_append e r) = rl_capacity r"
  "rl_last_error (log_append e r) = (if is_error_entry e then Some e else rl_last_error r)"
  by (simp_all add: log_append_def Let_def is_error_entry_def)

lemma make_entry_simps [simp]:
  "le_id (make_entry i now level compo msg ds) = i"
  "le_timestamp (make_entry i now level compo msg ds) = now"
  "le_level (make_entry i now level compo msg ds) = level"
  "le_component (make_entry i now level compo msg ds) = compo"
  "le_message (make_entry i now level compo msg ds) = msg"
  by (simp_all add: make_entry_def)

lemma record_log_eq:
  "record_log now level compo msg ds r =
     log_append (make_entry (rl_next_id r + 1) now level compo msg ds) (snd (log_reserve level r))"
  by (simp add: record_log_def split_beta)

lemma ring_ok_reserve: "log_ring.ring_ok (snd (log_reserve level r)) = log_ring.ring_ok r"
  by (simp add: log_ring.ring_ok_def)

lemma logger_ok_record [hs_inv]: "logger_ok r \<Longrightarrow> logger_ok (record_log now level compo msg ds r)"
  by (simp add: logger_ok_def record_log_eq log_ring.ring_ok_push ring_ok_reserve)

lemma logger_ok_write [hs_inv]: "logger_ok r \<Longrightarrow> logger_ok (snd (logger_write now p r))"
  by (simp add: logger_write_def Let_def logger_ok_record)

section \<open>A sequence of RecordLog calls\<close>

record log_call =
  lc_now :: gotime
  lc_level :: log_level
  lc_component :: string
  lc_message :: string
  lc_details :: details

definition do_call :: "log_call \<Rightarrow> ring_logger \<Rightarrow> ring_logger" where
  "do_call c r =
     record_log (lc_now c) (lc_level c) (lc_component c) (lc_message c) (lc_details c) r"

definition call_entry :: "nat \<Rightarrow> log_call \<Rightarrow> log_entry" where
  "call_entry n c =
     make_entry (of_nat n) (lc_now c) (lc_level c) (lc_component c) (lc_message c) (lc_details c)"

text \<open>The abstract log: every entry ever recorded, numbered from 1.\<close>

definition full_log :: "log_call list \<Rightarrow> log_entry list" where
  "full_log cs = map (\<lambda>(n, c). call_entry (Suc n) c) (enumerate 0 cs)"

lemma full_log_Nil [simp]: "full_log [] = []"
  by (simp add: full_log_def)

lemma full_log_snoc [simp]: "full_log (cs @ [c]) = full_log cs @ [call_entry (Suc (length cs)) c]"
  by (simp add: full_log_def enumerate_append_eq)

lemma length_full_log [simp]: "length (full_log cs) = length cs"
  by (simp add: full_log_def)

definition last_error_of :: "log_entry list \<Rightarrow> log_entry option" where
  "last_error_of es = (let bad = filter is_error_entry es in if bad = [] then None else Some (last bad))"

definition log_abs :: "log_call list \<Rightarrow> ring_logger \<Rightarrow> bool" where
  "log_abs cs r \<longleftrightarrow>
     rl_entries r = take_last (nat (rl_capacity r)) (full_log cs) \<and>
     rl_next_id r = of_nat (length cs) \<and>
     rl_total_logs r = of_nat (length cs) \<and>
     rl_total_warns r = of_nat (length (filter (\<lambda>c. lc_level c = LogLevelWarn) cs)) \<and>
     rl_total_errs r = of_nat (length (filter is_error_entry (full_log cs))) \<and>
     rl_last_error r = last_error_of (full_log cs)"

lemma log_abs_new: "log_abs [] (new_ring_logger capacity)"
  by (simp add: log_abs_def new_ring_logger_def Let_def last_error_of_def take_last_def)

lemma log_abs_call:
  assumes "log_abs cs r" and "logger_ok r"
  shows "log_abs (cs @ [c]) (do_call c r)"
proof -
  let ?e = "call_entry (Suc (length cs)) c" and ?r = "snd (log_reserve (lc_level c) r)"
  have eq: "do_call c r = log_append ?e ?r"
    using assms(1) by (simp add: do_call_def record_log_eq call_entry_def log_abs_def add.commute)
  have "rl_entries (log_append ?e ?r) = take_last (nat (rl_capacity r)) (rl_entries r @ [?e])"
    using assms(2) log_ring.items_push_last [of ?r ?e] by (simp add: ring_ok_reserve logger_ok_def)
  also have "\<dots> = take_last (nat (rl_capacity r)) (full_log cs @ [?e])"
    using assms take_last_snoc [of "nat (rl_capacity r)" "full_log cs" ?e]
    by (simp add: log_abs_def logger_ok_def log_ring.ring_ok_def)
  finally have "rl_entries (log_append ?e ?r) = take_last (nat (rl_capacity r)) (full_log (cs @ [c]))"
    by simp
  then show ?thesis
    using assms(1) by (auto simp: log_abs_def eq log_reserve_counts last_error_of_def Let_def
        is_error_entry_def call_entry_def add.commute)
qed

lemma logger_ok_calls: "logger_ok r \<Longrightarrow> logger_ok (fold do_call cs r)"
  by (induction cs arbitrary: r) (auto simp: do_call_def intro: hs_inv)

lemma log_abs_calls: "log_abs cs (fold do_call cs (new_ring_logger capacity))"
proof (induction cs rule: rev_induct)
  case Nil
  then show ?case by (simp add: log_abs_new)
next
  case (snoc c cs)
  then show ?case using log_abs_call [OF snoc logger_ok_calls [OF logger_ok_new]] by simp
qed

lemma capacity_calls: "rl_capacity (fold do_call cs r) = rl_capacity r"
  by (induction cs arbitrary: r) (auto simp: do_call_def record_log_eq)

section \<open>Queries\<close>

lemma query_loop_eq:
  "length acc < limit \<Longrightarrow> query_loop P limit acc es = acc @ take (limit - length acc) (filter P es)"
proof (induction es arbitrary: acc)
  case Nil
  then show ?case by simp
next
  case (Cons e es)
  show ?case
  proof (cases "P e")
    case True
    have "limit - length acc = Suc (limit - Suc (length acc))" using Cons.prems by linarith
    then show ?thesis using True Cons.IH [of "acc @ [e]"] Cons.prems by (auto simp: Let_def not_le)
  next
    case False
    then show ?thesis using Cons by simp
  qed
qed

lemma query_limit_bounds: "0 < query_limit f" "query_limit f \<le> 500"
  by (auto simp: query_limit_def)

lemma query_logs_eq:
  "lq_logs (query_logs f r) =
     take (nat (query_limit f))
       (filter (log_matches (lf_since f) (to_upper (lf_level f)) (to_lower (lf_component f)))
         (rev (rl_entries r)))"
  using query_loop_eq [of "[]"] query_limit_bounds [of f] by (simp add: query_logs_def Let_def)

definition count_errors :: "string \<Rightarrow> log_entry list \<Rightarrow> nat" where
  "count_errors compo es = length (filter (\<lambda>e. is_error_entry e \<and> le_component e = compo) es)"

lemma summary_loop_map:
  "fst (summary_loop m acc es) compo =
     (if count_errors compo es = 0 then m compo
      else Some ((case m compo of None \<Rightarrow> 0 | Some n \<Rightarrow> n) + int (count_errors compo es)))"
  by (induction es arbitrary: m acc) (auto simp: count_errors_def split: option.splits)

lemma summary_loop_recent:
  "length acc \<le> 20 \<Longrightarrow>
   snd (summary_loop m acc es) = acc @ take (20 - length acc) (filter is_error_entry es)"
proof (induction es arbitrary: m acc)
  case Nil
  then show ?case by simp
next
  case (Cons e es)
  show ?case
  proof (cases "is_error_entry e \<and> length acc < 20")
    case True
    then have "20 - length acc = Suc (20 - Suc (length acc))" by linarith
    then show ?thesis using True Cons.IH [of "acc @ [e]"] by simp
  next
    case False
    then show ?thesis using Cons by (auto simp: not_less)
  qed
qed

lemma count_errors_rev [simp]: "count_errors compo (rev es) = count_errors compo es"
  by (simp add: count_errors_def rev_filter [symmetric])

section \<open>Concurrent callers\<close>

text \<open>
  Several goroutines in \<^verbatim>\<open>RecordLog\<close>: each takes its id (\<open>log_reserve\<close>, the atomic additions) and
  later appends under the mutex (\<open>log_append\<close>), and other callers may run in between. The second
  component maps a goroutine to the entry it has numbered and not yet appended; \<open>n\<close> counts the
  calls begun.
\<close>

inductive log_run :: "int \<Rightarrow> nat \<Rightarrow> ring_logger \<Rightarrow> (nat \<rightharpoonup> log_entry) \<Rightarrow> bool" where
  run_new: "log_run cap 0 (new_ring_logger [cap]) Map.empty"
| run_begin: "log_run cap n r p \<Longrightarrow> p g = None \<Longrightarrow> log_reserve level r = (i, r') \<Longrightarrow>
    log_run cap (Suc n) r' (p(g \<mapsto> make_entry i now level compo msg ds))"
| run_finish: "log_run cap n r p \<Longrightarrow> p g = Some e \<Longrightarrow>
    log_run cap n (log_append e r) (p(g := None))"

definition ids_upto :: "nat \<Rightarrow> 64 word set" where
  "ids_upto n = of_nat ` {1..n}"

lemma ids_upto_Suc: "ids_upto (Suc n) = insert (of_nat (Suc n)) (ids_upto n)"
  by (auto simp: ids_upto_def atLeastAtMostSuc_conv)

lemma ids_upto_fresh: "n < 2 ^ 64 - 1 \<Longrightarrow> of_nat (Suc n) \<notin> ids_upto n"
proof
  assume n: "n < 2 ^ 64 - 1" and "of_nat (Suc n) \<in> ids_upto n"
  then obtain k where k: "k \<le> n" "(of_nat (Suc n) :: 64 word) = of_nat k"
    by (auto simp: ids_upto_def)
  have "unat (of_nat (Suc n) :: 64 word) = Suc n" "unat (of_nat k :: 64 word) = k"
    using n k(1) by (simp_all only: unat_of_nat) simp_all
  then have "Suc n = k" using k(2) by metis
  then show False using k(1) by simp
qed

definition ids_sep :: "64 word set \<Rightarrow> log_entry list \<Rightarrow> (nat \<rightharpoonup> log_entry) \<Rightarrow> bool" where
  "ids_sep A es p \<longleftrightarrow>
     distinct (map le_id es) \<and> (\<forall>e \<in> set es. le_id e \<in> A) \<and>
     (\<forall>g e. p g = Some e \<longrightarrow> le_id e \<in> A \<and> (\<forall>f \<in> set es. le_id f \<noteq> le_id e)) \<and>
     (\<forall>g h e f. p g = Some e \<longrightarrow> p h = Some f \<longrightarrow> le_id e = le_id f \<longrightarrow> g = h)"

lemma ids_sep_begin:
  assumes "ids_sep A es p" and "le_id e \<notin> A"
  shows "ids_sep (insert (le_id e) A) es (p(g \<mapsto> e))"
  using assms unfolding ids_sep_def by (auto split: if_splits) metis

lemma ids_sep_finish:
  assumes sep: "ids_sep A es p" and p: "p g = Some e"
  shows "ids_sep A (es @ [e]) (p(g := None))"
proof -
  have "\<forall>f \<in> set es. le_id f \<noteq> le_id e" "le_id e \<in> A" using assms unfolding ids_sep_def by blast+
  moreover have "le_id e \<noteq> le_id f" if "h \<noteq> g" "p h = Some f" for h f
    using assms that unfolding ids_sep_def by metis
  ultimately show ?thesis
    using sep unfolding ids_sep_def by (auto split: if_splits)
qed

lemma ids_sep_take_last: "ids_sep A es p \<Longrightarrow> ids_sep A (take_last k es) p"
  using set_take_last [of k es] unfolding ids_sep_def by (auto intro: distinct_take_last)

definition run_inv :: "nat \<Rightarrow> ring_logger \<Rightarrow> (nat \<rightharpoonup> log_entry) \<Rightarrow> bool" where
  "run_inv n r p \<longleftrightarrow>
     rl_next_id r = of_nat n \<and> rl_total_logs r = of_nat n \<and> logger_ok r \<and>
     ids_sep (ids_upto n) (rl_entries r) p"

lemma run_inv_begin:
  assumes inv: "run_inv n r p" and n: "n < 2 ^ 64 - 1"
  shows "run_inv (Suc n) (snd (log_reserve level r))
    (p(g \<mapsto> make_entry (rl_next_id r + 1) now level compo msg ds))"
proof -
  have nx: "rl_next_id r + 1 = of_nat (Suc n)" "rl_total_logs r + 1 = of_nat (Suc n)"
    using inv by (simp_all add: run_inv_def)
  have "ids_sep (ids_upto (Suc n)) (rl_entries r)
      (p(g \<mapsto> make_entry (of_nat (Suc n)) now level compo msg ds))"
    using ids_sep_begin [of "ids_upto n" "rl_entries r" p
        "make_entry (of_nat (Suc n)) now level compo msg ds" g] inv ids_upto_fresh [OF n]
    unfolding run_inv_def ids_upto_Suc make_entry_simps by blast
  moreover have "logger_ok (snd (log_reserve level r))"
    using inv by (simp add: run_inv_def logger_ok_def ring_ok_reserve)
  ultimately show ?thesis
    unfolding run_inv_def log_reserve_counts log_reserve_frame nx by blast
qed

lemma run_inv_finish:
  assumes inv: "run_inv n r p" and p: "p g = Some e"
  shows "run_inv n (log_append e r) (p(g := None))"
proof -
  have ok: "log_ring.ring_ok r" using inv by (simp add: run_inv_def logger_ok_def)
  have "ids_sep (ids_upto n) (take_last (nat (rl_capacity r)) (rl_entries r @ [e])) (p(g := None))"
    using inv p by (intro ids_sep_take_last ids_sep_finish) (simp_all add: run_inv_def)
  then show ?thesis
    using inv log_ring.items_push_last [OF ok] log_ring.ring_ok_push [OF ok]
    by (simp add: run_inv_def logger_ok_def)
qed

lemma run_inv_reach: "log_run cap n r p \<Longrightarrow> n < 2 ^ 64 \<Longrightarrow> run_inv n r p"
proof (induction rule: log_run.induct)
  case (run_new cap)
  show ?case
    using logger_ok_new [of "[cap]"] by (simp add: run_inv_def ids_sep_def new_ring_logger_def Let_def)
next
  case (run_begin cap n r p g level i r' now compo msg ds)
  have "i = rl_next_id r + 1" "r' = snd (log_reserve level r)"
    using run_begin.hyps(3) log_reserve_frame(4) [of level r] by simp_all
  moreover have "run_inv n r p" "n < 2 ^ 64 - 1"
    using run_begin.IH run_begin.prems by simp_all
  ultimately show ?case using run_inv_begin by blast
next
  case (run_finish cap n r p g e)
  show ?case by (rule run_inv_finish [OF run_finish.IH [OF run_finish.prems] run_finish.hyps(2)])
qed

lemma run_capacity: "log_run cap n r p \<Longrightarrow> rl_capacity r = rl_capacity (new_ring_logger [cap])"
  by (induction rule: log_run.induct) (auto simp: log_reserve_def Let_def split: if_splits)

section \<open>Properties\<close>

text \<open>
  C16: After any sequence of RecordLog calls on a new logger, the ring holds exactly the last
  capacity entries of the complete log (numbered from 1 in call order), the counters are the
  exact counts of all calls, warnings and errors (modulo 2^64), and lastError is the last error
  or critical entry ever recorded, evicted or not.
\<close>

theorem ring_refines_full_log:
  "log_abs cs (fold do_call cs (new_ring_logger capacity))"
  by (rule log_abs_calls)

text \<open>
  C30: QueryLogs returns the matching entries of the ring, newest first, and at most limit of them,
  where a limit outside 1..500 counts as 50; in terms of the calls made, it selects from the
  last capacity entries of the complete log.
\<close>

theorem query_logs_selects:
  "lq_logs (query_logs f (fold do_call cs (new_ring_logger capacity))) =
     take (nat (query_limit f))
       (filter (log_matches (lf_since f) (to_upper (lf_level f)) (to_lower (lf_component f)))
         (rev (take_last (nat (rl_capacity (new_ring_logger capacity))) (full_log cs))))
   \<and> 0 < query_limit f \<and> query_limit f \<le> 500"
  using log_abs_calls [of cs capacity] query_limit_bounds [of f]
  by (simp add: query_logs_eq log_abs_def capacity_calls)

text \<open>
  GetErrorSummary counts the error and critical entries in the ring per component and lists
  the newest 20 of them; a component has a count only if it has such an entry.
\<close>

theorem error_summary_counts:
  "es_errors_by_component (get_error_summary r) compo =
     (if count_errors compo (rl_entries r) = 0 then None
      else Some (int (count_errors compo (rl_entries r))))
   \<and> es_recent_errors (get_error_summary r) = take 20 (filter is_error_entry (rev (rl_entries r)))"
  using summary_loop_map [of Map.empty "[]" "rev (rl_entries r)" compo]
    summary_loop_recent [of "[]" Map.empty "rev (rl_entries r)"]
  by (simp add: get_error_summary_def split_beta)

text \<open>
  With any interleaving of concurrent RecordLog calls (fewer than 2^64 of them), the ids in
  the ring are pairwise distinct and differ from the ids still waiting to be appended, the ring
  never exceeds its capacity and the total counts every call begun.
\<close>

theorem concurrent_log_ids_distinct:
  assumes "log_run cap n r p" and "n < 2 ^ 64"
  shows "distinct (map le_id (rl_entries r)) \<and> le_id ` ran p \<inter> le_id ` set (rl_entries r) = {} \<and>
    length (rl_entries r) \<le> nat (if cap > 0 then cap else 1000) \<and> unat (rl_total_logs r) = n"
proof -
  have inv: "run_inv n r p" by (rule run_inv_reach [OF assms])
  have "rl_capacity r = (if cap > 0 then cap else 1000)"
    using run_capacity [OF assms(1)] by (simp add: new_ring_logger_def default_ring_capacity_def)
  moreover have "unat (of_nat n :: 64 word) = n" using assms(2) by (simp add: unat_of_nat)
  moreover have "le_id e \<noteq> le_id f" if "e \<in> ran p" "f \<in> set (rl_entries r)" for e f
    using inv that unfolding run_inv_def ids_sep_def ran_def by fastforce
  then have "le_id ` ran p \<inter> le_id ` set (rl_entries r) = {}" by blast
  ultimately show ?thesis
    using inv by (simp add: run_inv_def ids_sep_def logger_ok_def log_ring.ring_ok_def)
qed

definition early_run :: "ring_logger \<times> (nat \<rightharpoonup> log_entry)" where
  "early_run =
     (let (i, r1) = log_reserve LogLevelWarn (new_ring_logger [4])
      in (r1, [0 \<mapsto> make_entry i 10 LogLevelWarn ''rtsp'' ''slow'' []]))"

lemma early_run_reach: "log_run 4 1 (fst early_run) (snd early_run)"
  using log_run.run_begin [OF log_run.run_new [of 4] _ prod.collapse [symmetric],
      where g = 0 and level = LogLevelWarn and now = 10 and compo = "''rtsp''" and msg = "''slow''"
      and ds = "[]"]
  by (simp add: early_run_def split_beta)

theorem concurrent_log_ids_distinct_witness:
  "distinct (map le_id (rl_entries (fst early_run))) \<and>
   le_id ` ran (snd early_run) \<inter> le_id ` set (rl_entries (fst early_run)) = {} \<and>
   length (rl_entries (fst early_run)) \<le> nat (if (4::int) > 0 then 4 else 1000) \<and>
   unat (rl_total_logs (fst early_run)) = 1"
  using concurrent_log_ids_distinct [OF early_run_reach] by simp

definition call_a :: log_entry where "call_a = make_entry 1 10 LogLevelInfo ''rtsp'' ''a'' []"
definition call_b :: log_entry where "call_b = make_entry 2 11 LogLevelInfo ''rtsp'' ''b'' []"

text \<open>
  The ring is not ordered by id: when two callers number their entries and the second appends
  first, QueryLogs, which lists from the end of the ring, returns the older id (and time stamp)
  first.
\<close>

theorem concurrent_log_out_of_order:
  "\<exists>r. log_run 4 2 r Map.empty \<and>
     map le_id (lq_logs (query_logs \<lparr>lf_level = [], lf_component = [], lf_since = 0, lf_limit = 10\<rparr> r))
       = [1, 2]"
proof -
  define r0 where "r0 = new_ring_logger [4]"
  define r2 where "r2 = snd (log_reserve LogLevelInfo (snd (log_reserve LogLevelInfo r0)))"
  have 1: "log_run 4 1 (snd (log_reserve LogLevelInfo r0)) [0 \<mapsto> call_a]"
    using log_run.run_begin [OF log_run.run_new [of 4] _ prod.collapse [symmetric],
        where g = 0 and level = LogLevelInfo and now = 10 and compo = "''rtsp''" and msg = "''a''"
        and ds = "[]"]
    by (simp add: r0_def call_a_def log_reserve_def Let_def new_ring_logger_def log_level_defs)
  have 2: "log_run 4 2 r2 [0 \<mapsto> call_a, 1 \<mapsto> call_b]"
    using log_run.run_begin [OF 1 _ prod.collapse [symmetric],
        where g = 1 and level = LogLevelInfo and now = 11 and compo = "''rtsp''" and msg = "''b''"
        and ds = "[]"]
    by (simp add: r2_def r0_def call_b_def log_reserve_def Let_def new_ring_logger_def
        numeral_2_eq_2 log_level_defs)
  have 3: "log_run 4 2 (log_append call_b r2) [0 \<mapsto> call_a]"
    using log_run.run_finish [OF 2, of 1 call_b] by (simp add: fun_upd_twist)
  have 4: "log_run 4 2 (log_append call_a (log_append call_b r2)) Map.empty"
    using log_run.run_finish [OF 3, of 0 call_a] by simp
  moreover have "map le_id (lq_logs (query_logs
      \<lparr>lf_level = [], lf_component = [], lf_since = 0, lf_limit = 10\<rparr>
      (log_append call_a (log_append call_b r2)))) = [1, 2]"
  proof -
    have "rl_entries (log_append call_a (log_append call_b r2)) = [call_b, call_a]"
      by (simp add: log_append_def r2_def r0_def new_ring_logger_def Let_def)
    moreover have "log_matches 0 [] [] e" for e by (simp add: log_matches_def)
    ultimately show ?thesis
      by (simp add: query_logs_eq query_limit_def to_upper_def to_lower_def call_a_def call_b_def)
  qed
  ultimately show ?thesis by (intro exI conjI)
qed

text \<open>
  The level filter is upper-cased and the stored level is not, and only the exact upper-case
  names are counted: an entry recorded with a level that is not upper-case is never found by a
  level filter, and is counted neither as a warning nor as an error.
\<close>

theorem mixed_case_level_invisible:
  assumes "to_upper level \<noteq> level" and "lf_level f \<noteq> []"
  shows "(\<forall>e \<in> set (lq_logs (query_logs f r)). le_level e \<noteq> level) \<and>
    rl_total_errs (record_log now level compo msg ds r) = rl_total_errs r \<and>
    rl_total_warns (record_log now level compo msg ds r) = rl_total_warns r"
proof (intro conjI ballI)
  have up: "to_upper LogLevelWarn = LogLevelWarn" "to_upper LogLevelError = LogLevelError"
    "to_upper LogLevelCritical = LogLevelCritical"
    by (code_simp)+
  show "rl_total_errs (record_log now level compo msg ds r) = rl_total_errs r"
    and "rl_total_warns (record_log now level compo msg ds r) = rl_total_warns r"
    using assms(1) up by (auto simp: record_log_eq log_reserve_counts)
  fix e assume "e \<in> set (lq_logs (query_logs f r))"
  then have "log_matches (lf_since f) (to_upper (lf_level f)) (to_lower (lf_component f)) e"
    by (auto simp: query_logs_eq dest: in_set_takeD)
  then have "le_level e = to_upper (lf_level f)"
    using assms(2) by (auto simp: log_matches_def split: if_splits)
  then show "le_level e \<noteq> level" using assms(1) by auto
qed

theorem mixed_case_level_invisible_witness:
  "rl_total_errs (record_log 5 ''error'' ''api'' ''x'' [] (new_ring_logger [])) = 0 \<and>
   rl_total_warns (record_log 5 ''error'' ''api'' ''x'' [] (new_ring_logger [])) = 0"
proof -
  have low: "to_upper ''error'' \<noteq> ''error''" by code_simp
  show ?thesis
    using mixed_case_level_invisible [OF low, of
        "\<lparr>lf_level = ''error'', lf_component = [], lf_since = 0, lf_limit = 0\<rparr>" "new_ring_logger []"]
    by (simp add: new_ring_logger_def Let_def)
qed

end
