(* ===== verification/FragmentRepo.thy ===== *)
theory FragmentRepo
  imports DomainFragment
begin

text \<open>
  \<^verbatim>\<open>internal/adapters/secondary/memory/fragment_repository.go\<close>: fragments by stream id and fragment
  id, with their bytes on disk. The files are a map from the path names the code builds to their
  contents; whether a write or a removal succeeds is decided by the operating system and is an
  input, as is what a failed write leaves behind. Directory creation has no outcome of its own
  (the code ignores its error; a missing directory shows as a failed write).
\<close>

section \<open>State and operations\<close>



record fragment_repo =
  fg_fragments :: "string \<rightharpoonup> (string \<rightharpoonup> fragment)"
  fg_base :: string
  fg_files :: "string \<rightharpoonup> bytes"

datatype write_result = WriteOk | WriteFailed string "bytes option"

definition new_fragment_repository :: "string \<Rightarrow> (string \<rightharpoonup> bytes) \<Rightarrow> fragment_repo" where
  "new_fragment_repository base files =
     \<lparr>fg_fragments = Map.empty, fg_base = (if base = [] then ''recordings'' else base),
      fg_files = files\<rparr>"

definition clean_name :: "string \<Rightarrow> string" where
  "clean_name s = path_base (path_clean s)"

definition file_path_of :: "string \<Rightarrow> string \<Rightarrow> string \<Rightarrow> string" where
  "file_path_of base sid fid = path_join [path_join [base, sid], fid @ ''.mp4'']"

definition name_fragment :: "gotime \<Rightarrow> fragment \<Rightarrow> fragment" where
  "name_fragment now f =
     (let f1 = (if fr_id f = []
                then f\<lparr>fr_id := ''frag_'' @ fr_stream_id f @ ''_'' @ int_str (unix_nano now)\<rparr> else f)
      in f1\<lparr>fr_id := clean_name (fr_id f1)\<rparr>)"

definition frag_insert :: "string \<Rightarrow> (string \<rightharpoonup> fragment) \<Rightarrow> fragment \<Rightarrow> fragment_repo \<Rightarrow> fragment_repo" where
  "frag_insert raw m f r = r\<lparr>fg_fragments := (fg_fragments r)(raw \<mapsto> m(fr_id f \<mapsto> f))\<rparr>"

text \<open>
  \<^verbatim>\<open>Save\<close>: the error, the caller's fragment as it was left, and the repository. The inner map is
  looked up (and created) under the stream id as given, before it is cleaned.
\<close>

definition frag_save ::
  "gotime \<Rightarrow> gotime \<Rightarrow> gotime \<Rightarrow> write_result \<Rightarrow> fragment \<Rightarrow> bytes \<Rightarrow> fragment_repo
   \<Rightarrow> go_error option \<times> fragment \<times> fragment_repo" where
  "frag_save now1 now2 now3 wr frag data r =
     (case validate_fragment now1 now2 frag of
        (Some e, f) \<Rightarrow> (Some e, f, r)
      | (None, f) \<Rightarrow>
          let raw = fr_stream_id f;
              m = (case fg_fragments r raw of None \<Rightarrow> Map.empty | Some m \<Rightarrow> m);
              r1 = r\<lparr>fg_fragments := (fg_fragments r)(raw \<mapsto> m)\<rparr>;
              sid = clean_name raw
          in if sid = ''.'' \<or> sid = ''/'' \<or> sid = [] then (Some ErrInvalidFragmentStreamID, f, r1)
             else
               let f1 = name_fragment now3 (f\<lparr>fr_stream_id := sid\<rparr>);
                   path = file_path_of (fg_base r) sid (fr_id f1)
               in if data \<noteq> [] then
                    (case wr of
                       WriteFailed msg left \<Rightarrow>
                         (Some (ErrNew (''failed to write fragment binary to disk: '' @ msg)), f1,
                          r1\<lparr>fg_files := (fg_files r1)(path := left)\<rparr>)
                     | WriteOk \<Rightarrow>
                         let f2 = f1\<lparr>fr_size := int (length data), fr_path := path\<rparr>
                         in (None, f2, frag_insert raw m f2 (r1\<lparr>fg_files := (fg_files r1)(path \<mapsto> data)\<rparr>)))
                  else
                    let f2 = (if fr_path f1 = [] then f1\<lparr>fr_path := path\<rparr> else f1)
                    in (None, f2, frag_insert raw m f2 r1))"

definition frag_find :: "string \<Rightarrow> string \<Rightarrow> fragment_repo \<Rightarrow> go_error + (fragment \<times> bytes)" where
  "frag_find sid fid r =
     (case fg_fragments r sid of
        None \<Rightarrow> Inl ErrFragmentNotFound
      | Some m \<Rightarrow>
          (case m fid of
             None \<Rightarrow> Inl ErrFragmentNotFound
           | Some f \<Rightarrow>
               Inr (f, if fr_path f = [] then []
                       else case fg_files r (fr_path f) of None \<Rightarrow> [] | Some d \<Rightarrow> d)))"

definition in_window :: "gotime \<Rightarrow> gotime \<Rightarrow> fragment \<Rightarrow> bool" where
  "in_window start stop f \<longleftrightarrow>
     \<not> (start \<noteq> 0 \<and> fr_end f < start) \<and> \<not> (stop \<noteq> 0 \<and> fr_start f > stop)"

definition later_start :: "fragment \<Rightarrow> fragment \<Rightarrow> bool" where
  "later_start a b \<longleftrightarrow> fr_start a > fr_start b"

text \<open>\<^verbatim>\<open>ListByStream\<close>; \<open>ord\<close> is the order in which the inner map was iterated.\<close>

definition frag_list ::
  "string list \<Rightarrow> string \<Rightarrow> gotime \<Rightarrow> gotime \<Rightarrow> int \<Rightarrow> fragment_repo \<Rightarrow> fragment list" where
  "frag_list ord sid start stop limit r =
     (case fg_fragments r sid of
        None \<Rightarrow> []
      | Some m \<Rightarrow>
          let res = sort_slice later_start (filter (in_window start stop) (range_map ord m))
          in if limit > 0 \<and> int (length res) > limit then take (nat limit) res else res)"

text \<open>\<^verbatim>\<open>Delete\<close>; \<open>removed\<close> says whether the file system removed the file (its error is ignored).\<close>

definition frag_delete :: "bool \<Rightarrow> string \<Rightarrow> string \<Rightarrow> fragment_repo \<Rightarrow> go_error + fragment_repo" where
  "frag_delete removed sid fid r =
     (case fg_fragments r sid of
        None \<Rightarrow> Inl ErrFragmentNotFound
      | Some m \<Rightarrow>
          (case m fid of
             None \<Rightarrow> Inl ErrFragmentNotFound
           | Some f \<Rightarrow>
               let r1 = (if fr_path f \<noteq> [] \<and> removed
                         then r\<lparr>fg_files := (fg_files r)(fr_path f := None)\<rparr> else r)
               in Inr (r1\<lparr>fg_fragments := (fg_fragments r1)(sid \<mapsto> m(fid := None))\<rparr>)))"

section \<open>The metadata is a keyed table\<close>

definition frag_get :: "fragment_repo \<Rightarrow> string \<times> string \<Rightarrow> fragment option" where
  "frag_get r k = (case fg_fragments r (fst k) of None \<Rightarrow> None | Some m \<Rightarrow> m (snd k))"

definition frag_put :: "string \<times> string \<Rightarrow> fragment \<Rightarrow> fragment_repo \<Rightarrow> fragment_repo" where
  "frag_put k f r =
     (let m = (case fg_fragments r (fst k) of None \<Rightarrow> Map.empty | Some m \<Rightarrow> m)
      in r\<lparr>fg_fragments := (fg_fragments r)(fst k \<mapsto> m(snd k \<mapsto> f))\<rparr>)"

definition frag_drop :: "string \<times> string \<Rightarrow> fragment_repo \<Rightarrow> fragment_repo" where
  "frag_drop k r =
     (case fg_fragments r (fst k) of
        None \<Rightarrow> r
      | Some m \<Rightarrow> r\<lparr>fg_fragments := (fg_fragments r)(fst k \<mapsto> m(snd k := None))\<rparr>)"

interpretation fragments: keyed_table frag_get frag_put frag_drop
  by unfold_locales
    (auto simp: frag_get_def frag_put_def frag_drop_def Let_def split: option.splits)

lemma frag_get_files [simp]: "frag_get (r\<lparr>fg_files := fs\<rparr>) = frag_get r"
  by (simp add: frag_get_def fun_eq_iff)

lemma frag_get_touch:
  "frag_get (r\<lparr>fg_fragments := (fg_fragments r)(s \<mapsto>
     (case fg_fragments r s of None \<Rightarrow> Map.empty | Some m \<Rightarrow> m))\<rparr>) = frag_get r"
  by (auto simp: frag_get_def fun_eq_iff split: option.splits)

lemma frag_find_eq:
  "frag_find sid fid r =
     (case frag_get r (sid, fid) of None \<Rightarrow> Inl ErrFragmentNotFound
      | Some f \<Rightarrow> Inr (f, if fr_path f = [] then []
                          else case fg_files r (fr_path f) of None \<Rightarrow> [] | Some d \<Rightarrow> d))"
  by (simp add: frag_find_def frag_get_def split: option.split)

lemma frag_delete_get:
  "frag_delete removed sid fid r = Inr r' \<Longrightarrow> frag_get r' = frag_get (frag_drop (sid, fid) r)"
  by (intro ext, cases "fg_fragments r sid")
    (auto simp: frag_delete_def frag_drop_def frag_get_def Let_def split: option.split_asm if_splits)

section \<open>What Save stores\<close>

lemma name_fragment_frame [simp]:
  "fr_stream_id (name_fragment now f) = fr_stream_id f"
  "fr_tenant_id (name_fragment now f) = fr_tenant_id f"
  "fr_recording_mode (name_fragment now f) = fr_recording_mode f"
  "fr_start (name_fragment now f) = fr_start f"
  "fr_end (name_fragment now f) = fr_end f"
  "fr_duration (name_fragment now f) = fr_duration f"
  "fr_path (name_fragment now f) = fr_path f"
  "fr_size (name_fragment now f) = fr_size f"
  "fr_content_type (name_fragment now f) = fr_content_type f"
  "fr_codec (name_fragment now f) = fr_codec f"
  "fr_created (name_fragment now f) = fr_created f"
  by (simp_all add: name_fragment_def Let_def)

lemma frag_save_cases:
  assumes "frag_save now1 now2 now3 wr frag data r = (None, f', r')"
  obtains g path where
    "validate_fragment now1 now2 frag = (None, g)"
    "clean_name (fr_stream_id g) \<notin> {''.'', ''/'', []}"
    "path = file_path_of (fg_base r) (clean_name (fr_stream_id g)) (fr_id f')"
    "f' = (name_fragment now3 (g\<lparr>fr_stream_id := clean_name (fr_stream_id g)\<rparr>))
       \<lparr>fr_size := (if data \<noteq> [] then int (length data) else fr_size g),
        fr_path := (if data \<noteq> [] \<or> fr_path g = [] then path else fr_path g)\<rparr>"
    "frag_get r' = frag_get (frag_put (fr_stream_id g, fr_id f') f' r)"
    "fg_files r' = (if data \<noteq> [] then (fg_files r)(path \<mapsto> data) else fg_files r)"
proof -
  obtain e g where v: "validate_fragment now1 now2 frag = (e, g)" by fastforce
  then have e: "e = None" using assms by (auto simp: frag_save_def split: option.splits)
  let ?n = "name_fragment now3 (g\<lparr>fr_stream_id := clean_name (fr_stream_id g)\<rparr>)"
  have s: "clean_name (fr_stream_id g) \<notin> {''.'', ''/'', []}"
    using assms by (auto simp: frag_save_def v e Let_def)
  show ?thesis
  proof (cases "data = []")
    case True
    then show ?thesis
      using assms s v e
      by (intro that [of g "file_path_of (fg_base r) (clean_name (fr_stream_id g)) (fr_id f')"])
        (auto simp: frag_save_def Let_def frag_insert_def frag_put_def frag_get_def fun_eq_iff)
  next
    case False
    then show ?thesis
      using assms s v e
      by (intro that [of g "file_path_of (fg_base r) (clean_name (fr_stream_id g)) (fr_id f')"])
        (auto simp: frag_save_def Let_def frag_insert_def frag_put_def frag_get_def fun_eq_iff
          split: write_result.splits)
  qed
qed

lemma frag_save_error:
  assumes "frag_save now1 now2 now3 wr frag data r = (Some e, f', r')"
  shows "frag_get r' = frag_get r"
proof -
  obtain e' g where v: "validate_fragment now1 now2 frag = (e', g)" by fastforce
  show ?thesis
    using assms frag_get_touch [of r "fr_stream_id g"]
    by (auto simp: frag_save_def v Let_def split: option.splits if_splits write_result.splits)
qed

text \<open>Every stored fragment satisfies what \<^verbatim>\<open>Validate\<close> promises.\<close>

definition frag_repo_ok :: "fragment_repo \<Rightarrow> bool" where
  "frag_repo_ok r \<longleftrightarrow> fragments.entries_ok (\<lambda>k f.
     snd k = fr_id f \<and> fr_start f \<le> fr_end f \<and> \<not> fle (fr_duration f) (Fin 0) \<and>
     fr_tenant_id f \<noteq> [] \<and> fr_created f \<noteq> 0 \<and> fr_path f \<noteq> []) r"

lemma path_clean_nonempty: "path_clean p \<noteq> []"
  by (simp add: path_clean_def Let_def)

lemma file_path_of_nonempty: "file_path_of base sid fid \<noteq> []"
  unfolding file_path_of_def path_join_def [of "[path_join [base, sid], fid @ ''.mp4'']"] Let_def
  by (simp add: path_clean_nonempty)

lemma frag_repo_ok_new [hs_inv]: "frag_repo_ok (new_fragment_repository base files)"
  by (simp add: frag_repo_ok_def fragments.entries_ok_def new_fragment_repository_def frag_get_def)

lemma entries_ok_cong:
  "frag_get r = frag_get r' \<Longrightarrow> fragments.entries_ok P r = fragments.entries_ok P r'"
  by (simp add: fragments.entries_ok_def)

lemma frag_repo_ok_save [hs_inv]:
  assumes "frag_repo_ok r" and "now2 \<noteq> 0" and "frag_save now1 now2 now3 wr frag data r = (e, f', r')"
  shows "frag_repo_ok r'"
proof (cases e)
  case (Some e')
  then have "frag_get r' = frag_get r" using assms(3) by (auto dest: frag_save_error)
  then show ?thesis using assms(1) unfolding frag_repo_ok_def by (simp add: fragments.entries_ok_def)
next
  case None
  obtain g path where g: "validate_fragment now1 now2 frag = (None, g)"
    and path: "path = file_path_of (fg_base r) (clean_name (fr_stream_id g)) (fr_id f')"
    and f': "f' = (name_fragment now3 (g\<lparr>fr_stream_id := clean_name (fr_stream_id g)\<rparr>))
       \<lparr>fr_size := (if data \<noteq> [] then int (length data) else fr_size g),
        fr_path := (if data \<noteq> [] \<or> fr_path g = [] then path else fr_path g)\<rparr>"
    and eq: "frag_get r' = frag_get (frag_put (fr_stream_id g, fr_id f') f' r)"
    by (rule frag_save_cases [OF assms(3) [unfolded None]]) blast
  have "path \<noteq> []" by (simp add: path file_path_of_nonempty)
  then have "fragments.entries_ok (\<lambda>k f.
     snd k = fr_id f \<and> fr_start f \<le> fr_end f \<and> \<not> fle (fr_duration f) (Fin 0) \<and>
     fr_tenant_id f \<noteq> [] \<and> fr_created f \<noteq> 0 \<and> fr_path f \<noteq> [])
     (frag_put (fr_stream_id g, fr_id f') f' r)"
    using assms(1) validate_fragment_ok [OF g assms(2)] validate_fragment_duration [OF g]
    unfolding frag_repo_ok_def by (intro fragments.entries_ok_put) (auto simp: f' fragment_ok_def)
  then show ?thesis
    unfolding frag_repo_ok_def using entries_ok_cong [OF eq] by simp
qed

lemma frag_repo_ok_delete [hs_inv]:
  "frag_repo_ok r \<Longrightarrow> frag_delete removed sid fid r = Inr r' \<Longrightarrow> frag_repo_ok r'"
  unfolding frag_repo_ok_def by (simp only: entries_ok_cong [OF frag_delete_get] fragments.entries_ok_del)

lemma frag_saved:
  assumes "frag_save now1 now2 now3 wr frag data r = (None, f, r')"
    and "clean_name (fr_stream_id frag) = fr_stream_id frag"
  shows "fr_stream_id f = fr_stream_id frag" and "fr_path f \<noteq> []" and "fr_content_type f \<noteq> []"
    and "fr_tenant_id f = (if fr_tenant_id frag = [] then default_tenant else fr_tenant_id frag)"
    and "frag_get r' = frag_get (frag_put (fr_stream_id f, fr_id f) f r)"
    and "frag_find (fr_stream_id f) (fr_id f) r' =
      Inr (f, case fg_files r' (fr_path f) of None \<Rightarrow> [] | Some d \<Rightarrow> d)"
    and "data \<noteq> [] \<Longrightarrow> fg_files r' (fr_path f) = Some data \<and> fr_size f = int (length data)"
    and "data = [] \<Longrightarrow> fr_path frag \<noteq> [] \<Longrightarrow> fr_path f = fr_path frag \<and> fg_files r' = fg_files r"
proof -
  obtain g path where g: "validate_fragment now1 now2 frag = (None, g)"
    and path: "path = file_path_of (fg_base r) (clean_name (fr_stream_id g)) (fr_id f)"
    and f: "f = (name_fragment now3 (g\<lparr>fr_stream_id := clean_name (fr_stream_id g)\<rparr>))
       \<lparr>fr_size := (if data \<noteq> [] then int (length data) else fr_size g),
        fr_path := (if data \<noteq> [] \<or> fr_path g = [] then path else fr_path g)\<rparr>"
    and eq: "frag_get r' = frag_get (frag_put (fr_stream_id g, fr_id f) f r)"
    and files: "fg_files r' = (if data \<noteq> [] then (fg_files r)(path \<mapsto> data) else fg_files r)"
    by (rule frag_save_cases [OF assms(1)]) blast
  note same = validate_fragment_frame [OF g]
  have sid: "fr_stream_id f = fr_stream_id g" "fr_stream_id g = fr_stream_id frag"
    using assms(2) same by (simp_all add: f)
  have p: "path \<noteq> []" by (simp add: path file_path_of_nonempty)
  show "fr_stream_id f = fr_stream_id frag" by (simp add: sid)
  show ne: "fr_path f \<noteq> []" using p by (simp add: f)
  show "fr_content_type f \<noteq> []" "fr_tenant_id f = (if fr_tenant_id frag = [] then default_tenant else fr_tenant_id frag)"
    using g by (auto simp: f validate_fragment_def Let_def dest!: check_duration_frame
        split: if_splits prod.splits option.splits)
  show get: "frag_get r' = frag_get (frag_put (fr_stream_id f, fr_id f) f r)" by (simp add: eq sid)
  show "frag_find (fr_stream_id f) (fr_id f) r' =
      Inr (f, case fg_files r' (fr_path f) of None \<Rightarrow> [] | Some d \<Rightarrow> d)"
    using ne by (simp add: frag_find_eq get fragments.get_put)
  show "fg_files r' (fr_path f) = Some data \<and> fr_size f = int (length data)" if "data \<noteq> []"
    using that by (simp add: files f)
  show "fr_path f = fr_path frag \<and> fg_files r' = fg_files r" if "data = []" "fr_path frag \<noteq> []"
    using that same by (simp add: files f)
qed

section \<open>Listing\<close>

lemma weak_order_later: "weak_order_on A later_start"
  by (auto simp: weak_order_on_def later_start_def)

lemma frag_list_eq:
  assumes "fg_fragments r sid = Some m"
    and "res = sort_slice later_start (filter (in_window start stop) (range_map ord m))"
  shows "frag_list ord sid start stop limit r = (if limit > 0 then take (nat limit) res else res)"
  using assms by (simp add: frag_list_def Let_def)

section \<open>Properties\<close>

text \<open>
  C18: A fragment that Validate accepts has a stream id that is not blank, a tenant, a recording
  mode, a content type, a codec, a creation time, a start that is not after its end and a
  duration that is not zero or negative; and it keeps the id, size and storage path it came with.
\<close>

theorem validate_fragment_sound:
  assumes "validate_fragment now1 now2 f = (None, g)" and "now2 \<noteq> 0"
  shows "fragment_ok g \<and> \<not> fle (fr_duration g) (Fin 0) \<and>
    fr_id g = fr_id f \<and> fr_stream_id g = fr_stream_id f \<and> fr_size g = fr_size f \<and> fr_path g = fr_path f"
  using validate_fragment_ok [OF assms] validate_fragment_duration [OF assms(1)]
    validate_fragment_frame [OF assms(1)] by simp

definition sample_fragment :: fragment where
  "sample_fragment =
     zero_fragment\<lparr>fr_id := ''f1'', fr_stream_id := ''cam'', fr_start := 10, fr_end := 2000000010\<rparr>"

definition sample_validated :: fragment where
  "sample_validated =
     sample_fragment\<lparr>fr_tenant_id := default_tenant, fr_recording_mode := ''motion'',
       fr_duration := dur_seconds 2000000000, fr_content_type := ''video/mp4'',
       fr_codec := ''h264'', fr_created := 8\<rparr>"

lemma trim_cam: "trim_space ''cam'' = ''cam''" by code_simp

lemma sample_validate: "validate_fragment 7 8 sample_fragment = (None, sample_validated)"
  by (simp add: validate_fragment_def sample_fragment_def sample_validated_def zero_fragment_def
      trim_cam check_duration_def fle_def Let_def settle_times_def fill_media_def time_sub_def
      default_tenant_def)

theorem validate_fragment_sound_witness:
  "fragment_ok sample_validated \<and> \<not> fle (fr_duration sample_validated) (Fin 0)"
  using validate_fragment_sound [OF sample_validate] by simp

text \<open>
  Save followed by FindByID returns what was saved: when the stream id is a plain name (equal to
  its cleaned base name), a successful Save with data makes FindByID under the fragment's final id
  return that fragment with exactly the bytes given, its size is their number, and every other
  fragment stays as it was.
\<close>

theorem frag_save_find:
  assumes "frag_save now1 now2 now3 WriteOk frag data r = (None, f, r')" and "data \<noteq> []"
    and "clean_name (fr_stream_id frag) = fr_stream_id frag"
  shows "frag_find (fr_stream_id f) (fr_id f) r' = Inr (f, data) \<and> fr_size f = int (length data) \<and>
    (\<forall>sid fid. (sid, fid) \<noteq> (fr_stream_id f, fr_id f) \<longrightarrow> frag_get r' (sid, fid) = frag_get r (sid, fid))"
  using frag_saved [OF assms(1,3)] assms(2) by (simp add: fragments.get_put)

lemma clean_cam: "clean_name ''cam'' = ''cam''" "clean_name ''f1'' = ''f1''" by code_simp+

lemma sample_paths:
  "file_path_of ''recordings'' ''cam'' ''f1'' = ''recordings/cam/f1.mp4''" by code_simp

definition sample_saved :: "bytes \<Rightarrow> fragment" where
  "sample_saved d = sample_validated\<lparr>fr_size := int (length d), fr_path := ''recordings/cam/f1.mp4''\<rparr>"

lemma sample_validated_simps [simp]:
  "fr_stream_id sample_validated = ''cam''" "fr_id sample_validated = ''f1''"
  "fr_path sample_validated = []"
  by (simp_all add: sample_validated_def sample_fragment_def zero_fragment_def)

lemma name_sample [simp]:
  "name_fragment 9 (sample_validated\<lparr>fr_stream_id := ''cam''\<rparr>) = sample_validated"
  by (simp add: name_fragment_def sample_validated_def sample_fragment_def zero_fragment_def clean_cam)

lemma sample_save:
  "frag_save 7 8 9 WriteOk sample_fragment [1, 2] (new_fragment_repository [] Map.empty) =
     (None, sample_saved [1, 2],
      (new_fragment_repository [] Map.empty)
        \<lparr>fg_fragments := [''cam'' \<mapsto> [''f1'' \<mapsto> sample_saved [1, 2]]],
         fg_files := [''recordings/cam/f1.mp4'' \<mapsto> [1, 2]]\<rparr>)"
  by (simp add: frag_save_def sample_validate Let_def clean_cam sample_paths
      frag_insert_def new_fragment_repository_def sample_saved_def)

theorem frag_save_find_witness:
  "fr_size (sample_saved [1, 2]) = 2"
  using frag_save_find [OF sample_save]
  by (simp add: sample_fragment_def zero_fragment_def clean_cam)

text \<open>
  Save looks the stream's map up before it cleans the stream id: a fragment saved under an id
  that is not a plain name (such as \<open>a/b\<close>) is reported as saved under the cleaned name, and
  FindByID under that name does not find it unless one was there before.
\<close>

theorem frag_save_unclean_lost:
  assumes "frag_save now1 now2 now3 wr frag data r = (None, f, r')"
    and "clean_name (fr_stream_id frag) \<noteq> fr_stream_id frag"
    and "frag_get r (clean_name (fr_stream_id frag), fr_id f) = None"
  shows "fr_stream_id f = clean_name (fr_stream_id frag) \<and>
    frag_find (fr_stream_id f) (fr_id f) r' = Inl ErrFragmentNotFound"
proof -
  obtain g path where g: "validate_fragment now1 now2 frag = (None, g)"
    and f: "f = (name_fragment now3 (g\<lparr>fr_stream_id := clean_name (fr_stream_id g)\<rparr>))
       \<lparr>fr_size := (if data \<noteq> [] then int (length data) else fr_size g),
        fr_path := (if data \<noteq> [] \<or> fr_path g = [] then path else fr_path g)\<rparr>"
    and eq: "frag_get r' = frag_get (frag_put (fr_stream_id g, fr_id f) f r)"
    by (rule frag_save_cases [OF assms(1)]) blast
  have "fr_stream_id f = clean_name (fr_stream_id frag)"
    using validate_fragment_frame [OF g] by (simp add: f)
  then show ?thesis
    using assms(2,3) validate_fragment_frame [OF g] by (simp add: frag_find_eq eq fragments.get_put)
qed

lemma clean_ab: "clean_name ''a/cam'' = ''cam''" "trim_space ''a/cam'' = ''a/cam''" by code_simp+

theorem frag_save_unclean_lost_witness:
  "\<exists>r'. frag_save 7 8 9 WriteOk (sample_fragment\<lparr>fr_stream_id := ''a/cam''\<rparr>) [1, 2]
     (new_fragment_repository [] Map.empty) = (None, sample_saved [1, 2], r') \<and>
   frag_find ''cam'' ''f1'' r' = Inl ErrFragmentNotFound"
proof -
  have v: "validate_fragment 7 8 (sample_fragment\<lparr>fr_stream_id := ''a/cam''\<rparr>) =
      (None, sample_validated\<lparr>fr_stream_id := ''a/cam''\<rparr>)"
    by (simp add: validate_fragment_def sample_fragment_def sample_validated_def zero_fragment_def
        clean_ab check_duration_def fle_def Let_def settle_times_def fill_media_def time_sub_def
        default_tenant_def)
  obtain r' where s: "frag_save 7 8 9 WriteOk (sample_fragment\<lparr>fr_stream_id := ''a/cam''\<rparr>) [1, 2]
     (new_fragment_repository [] Map.empty) = (None, sample_saved [1, 2], r')"
    by (simp add: frag_save_def v Let_def clean_ab clean_cam sample_paths
      new_fragment_repository_def sample_saved_def)
  then show ?thesis
    using frag_save_unclean_lost [OF s]
    by (simp add: sample_fragment_def clean_ab frag_get_def new_fragment_repository_def sample_saved_def)
qed

text \<open>
  Without data, Save keeps the storage path the caller's fragment names, and FindByID then
  returns the content of that file, whichever file it is.
\<close>

theorem frag_client_path_read:
  assumes "frag_save now1 now2 now3 wr frag [] r = (None, f, r')" and "fr_path frag \<noteq> []"
    and "clean_name (fr_stream_id frag) = fr_stream_id frag"
  shows "frag_find (fr_stream_id f) (fr_id f) r' =
    Inr (f, case fg_files r (fr_path frag) of None \<Rightarrow> [] | Some d \<Rightarrow> d)"
  using frag_saved(6,8) [OF assms(1,3)] assms(2) by simp

definition passwd_repo :: fragment_repo where
  "passwd_repo = new_fragment_repository [] [''/etc/passwd'' \<mapsto> [114, 111, 111, 116]]"

theorem frag_client_path_read_witness:
  "\<exists>f r'. frag_save 7 8 9 WriteOk (sample_fragment\<lparr>fr_path := ''/etc/passwd''\<rparr>) [] passwd_repo =
       (None, f, r') \<and>
     frag_find (fr_stream_id f) (fr_id f) r' = Inr (f, [114, 111, 111, 116])"
proof -
  have v: "validate_fragment 7 8 (sample_fragment\<lparr>fr_path := ''/etc/passwd''\<rparr>) =
      (None, sample_validated\<lparr>fr_path := ''/etc/passwd''\<rparr>)"
    by (simp add: validate_fragment_def sample_fragment_def sample_validated_def zero_fragment_def
        trim_cam check_duration_def fle_def Let_def settle_times_def fill_media_def time_sub_def
        default_tenant_def)
  obtain f r' where s: "frag_save 7 8 9 WriteOk (sample_fragment\<lparr>fr_path := ''/etc/passwd''\<rparr>) []
      passwd_repo = (None, f, r')"
    by (simp add: frag_save_def v Let_def clean_cam)
  then show ?thesis
    using frag_client_path_read [OF s]
    by (simp add: sample_fragment_def zero_fragment_def clean_cam passwd_repo_def
        new_fragment_repository_def)
qed

text \<open>
  ListByStream returns stored fragments of the stream that overlap the requested window, newest
  start first, at most limit of them when a limit is set, and all of them when none is set.
\<close>

theorem frag_list_sorted_window:
  assumes "fg_fragments r sid = Some m" and "map_order ord m"
  shows "sorted_wrt (\<lambda>a b. fr_start b \<le> fr_start a) (frag_list ord sid start stop limit r) \<and>
    (limit > 0 \<longrightarrow> int (length (frag_list ord sid start stop limit r)) \<le> limit) \<and>
    set (frag_list ord sid start stop limit r) \<subseteq> {f \<in> ran m. in_window start stop f} \<and>
    (limit \<le> 0 \<longrightarrow> set (frag_list ord sid start stop limit r) = {f \<in> ran m. in_window start stop f})"
proof -
  define res where "res = sort_slice later_start (filter (in_window start stop) (range_map ord m))"
  have list: "frag_list ord sid start stop limit r = (if limit > 0 then take (nat limit) res else res)"
    by (rule frag_list_eq [OF assms(1) res_def])
  have set: "set res = {f \<in> ran m. in_window start stop f}"
    using set_range_map_order [OF assms(2)] by (auto simp: res_def)
  have "sorted_wrt (\<lambda>a b. \<not> later_start b a) res"
    unfolding res_def by (rule sorted_sort_slice [OF weak_order_later])
  then have sorted: "sorted_wrt (\<lambda>a b. fr_start b \<le> fr_start a) res"
    by (simp add: later_start_def not_less)
  show ?thesis
    using sorted set set_take_subset [of "nat limit" res] sorted_wrt_take [OF sorted, of "nat limit"]
    by (auto simp: list)
qed

theorem frag_list_sorted_window_witness:
  "set (frag_list [''f1''] ''cam'' 0 0 0
     (snd (snd (frag_save 7 8 9 WriteOk sample_fragment [1, 2] (new_fragment_repository [] Map.empty)))))
   = {sample_saved [1, 2]}"
  using frag_list_sorted_window [of
      "snd (snd (frag_save 7 8 9 WriteOk sample_fragment [1, 2] (new_fragment_repository [] Map.empty)))"
      "''cam''" "[''f1'' \<mapsto> sample_saved [1, 2]]" "[''f1'']" 0 0 0]
  by (auto simp: sample_save map_order_def in_window_def)

end
