(* ===== verification/RtspText.thy ===== *)
theory RtspText
  imports GoText Prelude
begin

text \<open>
  The text functions of \<^verbatim>\<open>internal/adapters/secondary/ingest/rtsp_client.go\<close>: headers and
  parameters of RTSP messages, the track URL of an SDP body, the \<^verbatim>\<open>Authorization\<close> header and the
  text of a request. MD5 is a parameter (\<^verbatim>\<open>crypto/md5\<close>): any function from strings to strings.
\<close>

definition crlf :: string where
  "crlf = [char_of (13 :: nat), char_of (10 :: nat)]"

definition newline :: char where
  "newline = char_of (10 :: nat)"

definition quote :: string where
  "quote = [char_of (34 :: nat)]"

section \<open>Headers\<close>

definition cut_semicolon :: "string \<Rightarrow> string" where
  "cut_semicolon v = (case str_index v '';'' of None \<Rightarrow> v | Some i \<Rightarrow> take i v)"

fun header_in_lines :: "string list \<Rightarrow> string \<Rightarrow> string" where
  "header_in_lines [] prefix = []"
| "header_in_lines (l # ls) prefix =
     (if has_prefix (to_lower l) prefix
      then cut_semicolon (trim_space (drop (length prefix) l))
      else header_in_lines ls prefix)"

definition extract_header :: "string \<Rightarrow> string \<Rightarrow> string" where
  "extract_header resp name = header_in_lines (split_str resp crlf) (to_lower name @ '':'')"

fun param_in_parts :: "string list \<Rightarrow> string \<Rightarrow> string" where
  "param_in_parts [] key = []"
| "param_in_parts (p # ps) key =
     (let part = trim_space p; low = to_lower part; pat = to_lower key @ ''='' in
      if has_prefix low pat then trim_cut (drop (length key + 1) part) quote
      else if str_contains low pat then
        (let sub = drop (the (str_index low pat) + length key + 1) part;
             sub1 = (case str_index sub '','' of None \<Rightarrow> sub | Some i \<Rightarrow> take i sub)
         in trim_cut (trim_space sub1) quote)
      else param_in_parts ps key)"

definition extract_param :: "string \<Rightarrow> string \<Rightarrow> string" where
  "extract_param header key = param_in_parts (split_char CHR '','' header) key"

section \<open>The video track\<close>

definition track_default :: "string \<Rightarrow> string" where
  "track_default raw = trim_suffix raw ''/'' @ ''/track1''"

fun video_track :: "string \<Rightarrow> bool \<Rightarrow> string list \<Rightarrow> string" where
  "video_track raw in_video [] = track_default raw"
| "video_track raw in_video (l # ls) =
     (let line = trim_space l in
      if has_prefix line ''m=video'' then video_track raw True ls
      else if in_video \<and> has_prefix line ''m='' then track_default raw
      else if in_video \<and> has_prefix line ''a=control:'' then
        (let track = trim_space (trim_prefix line ''a=control:'') in
         if has_prefix track ''rtsp://'' then track
         else if track = ''*'' \<or> track = [] then raw
         else trim_suffix raw ''/'' @ ''/'' @ trim_prefix track ''/'')
      else video_track raw in_video ls)"

definition extract_video_track_url :: "string \<Rightarrow> string \<Rightarrow> string" where
  "extract_video_track_url raw sdp =
     (if sdp = [] then track_default raw else video_track raw False (split_char newline sdp))"

section \<open>Authorization\<close>

definition b64_alphabet :: string where
  "b64_alphabet = ''ABCDEFGHIJKLMNOPQRSTUVWXYZabcdefghijklmnopqrstuvwxyz0123456789+/''"

definition b64_char :: "nat \<Rightarrow> char" where
  "b64_char n = b64_alphabet ! n"

text \<open>\<^verbatim>\<open>base64.StdEncoding.EncodeToString\<close>\<close>

fun b64_encode :: "string \<Rightarrow> string" where
  "b64_encode [] = []"
| "b64_encode [a] =
     (let n = of_char a * 65536 in [b64_char (n div 262144), b64_char (n div 4096 mod 64), CHR ''='', CHR ''=''])"
| "b64_encode [a, b] =
     (let n = of_char a * 65536 + of_char b * 256
      in [b64_char (n div 262144), b64_char (n div 4096 mod 64), b64_char (n div 64 mod 64), CHR ''=''])"
| "b64_encode (a # b # c # cs) =
     (let n = of_char a * 65536 + of_char b * 256 + of_char c
      in [b64_char (n div 262144), b64_char (n div 4096 mod 64), b64_char (n div 64 mod 64),
          b64_char (n mod 64)] @ b64_encode cs)"

definition digest_response ::
  "(string \<Rightarrow> string) \<Rightarrow> string \<Rightarrow> string \<Rightarrow> string \<Rightarrow> string \<Rightarrow> string \<Rightarrow> string \<Rightarrow> string" where
  "digest_response md5_hex meth uri user pass realm nonce =
     (let ha1 = md5_hex (user @ '':'' @ realm @ '':'' @ pass);
          ha2 = md5_hex (meth @ '':'' @ uri)
      in md5_hex (ha1 @ '':'' @ nonce @ '':'' @ ha2))"

definition build_auth_header ::
  "(string \<Rightarrow> string) \<Rightarrow> string \<Rightarrow> string \<Rightarrow> string \<Rightarrow> string \<Rightarrow> string \<Rightarrow> string" where
  "build_auth_header md5_hex challenge meth uri user pass =
     (if user = [] \<or> challenge = [] then []
      else
        let realm = extract_param challenge ''realm'';
            nonce = extract_param challenge ''nonce''
        in if str_contains (to_lower challenge) ''digest'' \<and> realm \<noteq> [] \<and> nonce \<noteq> [] then
             ''Authorization: Digest username='' @ quote @ user @ quote @ '', realm='' @ quote @ realm @
             quote @ '', nonce='' @ quote @ nonce @ quote @ '', uri='' @ quote @ uri @ quote @
             '', response='' @ quote @ digest_response md5_hex meth uri user pass realm nonce @ quote
           else if str_contains (to_lower challenge) ''basic'' then
             ''Authorization: Basic '' @ b64_encode (user @ '':'' @ pass)
           else [])"

section \<open>Requests\<close>

record rtsp_request =
  rq_method :: string
  rq_uri :: string
  rq_cseq :: nat
  rq_extra :: string

text \<open>The bytes \<^verbatim>\<open>sendRTSPRequest\<close> writes.\<close>

definition request_text :: "rtsp_request \<Rightarrow> string" where
  "request_text q =
     (let clean = trim_right (rq_extra q) crlf;
          headers = (if clean \<noteq> [] then clean @ crlf else clean)
      in rq_method q @ '' '' @ rq_uri q @ '' RTSP/1.0'' @ crlf @ ''CSeq: '' @ nat_str (rq_cseq q) @ crlf @
         ''User-Agent: HydraStream/1.0'' @ crlf @ headers @ crlf)"

section \<open>Facts used by the client\<close>

lemma build_auth_header_none [simp]:
  "build_auth_header md5_hex [] meth uri user pass = []"
  "build_auth_header md5_hex challenge meth uri [] pass = []"
  by (simp_all add: build_auth_header_def)

lemma has_prefix_append [simp]: "has_prefix (p @ s) p"
  by (simp add: has_prefix_def)

lemma cut_semicolon_no_semicolon:
  assumes "cut_semicolon v = w"
  shows "CHR '';'' \<notin> set w"
proof -
  have "\<exists>i. str_index v '';'' = Some i" if "CHR '';'' \<in> set v"
    using that
  proof (induction v)
    case (Cons c v)
    show ?case
    proof (cases "c = CHR '';''")
      case True
      then show ?thesis by (simp add: has_prefix_def)
    next
      case False
      then have "\<exists>i. str_index v '';'' = Some i" using Cons by simp
      then show ?thesis using False by (auto simp: has_prefix_def)
    qed
  qed simp
  moreover have "CHR '';'' \<notin> set (take i v)" if "str_index v '';'' = Some i" for i
    using that
    by (induction v arbitrary: i) (auto simp: has_prefix_def split: if_splits)
  ultimately show ?thesis
    using assms by (cases "str_index v '';''") (auto simp: cut_semicolon_def)
qed

end
