(* ===== verification/RtspClient.thy ===== *)
theory RtspClient
  imports RtspText DomainStream
begin

text \<open>
  The protocol part of \<^verbatim>\<open>internal/adapters/secondary/ingest/rtsp_client.go\<close>: reading RTSP messages, the
  OPTIONS-DESCRIBE-SETUP-PLAY handshake with its retries after a 401, and the demultiplexing of
  interleaved packets.

  A connection is what the peer will send (a finite string, after which reads fail), how many
  writes will still succeed, and the requests written so far; the text of the I/O error is part of
  the connection. A step of the client is a function of the connection with three outcomes: a
  value, an error, or a panic. \<^verbatim>\<open>url.Parse\<close> is applied to the source URL before the handshake; its
  result (host, path, user information) is an argument.
\<close>

section \<open>Connections\<close>

record conn =
  cn_in :: string
  cn_writes :: nat
  cn_sent :: "rtsp_request list"
  cn_err :: string

type_synonym 'a rtsp = "conn \<Rightarrow> (go_error + 'a) outcome \<times> conn"

definition rt_return :: "'a \<Rightarrow> 'a rtsp" where
  "rt_return x c = (Returns (Inr x), c)"

definition rt_fail :: "string \<Rightarrow> 'a rtsp" where
  "rt_fail msg c = (Returns (Inl (ErrNew msg)), c)"

definition rt_bind :: "'a rtsp \<Rightarrow> ('a \<Rightarrow> 'b rtsp) \<Rightarrow> 'b rtsp" where
  "rt_bind m f c =
     (case m c of
        (Returns (Inr x), c') \<Rightarrow> f x c'
      | (Returns (Inl e), c') \<Rightarrow> (Returns (Inl e), c')
      | (Panics, c') \<Rightarrow> (Panics, c'))"

section \<open>Messages\<close>

text \<open>\<^verbatim>\<open>ReadString('\n')\<close>: up to and including the newline; \<open>None\<close> at the end of the input.\<close>

definition read_line :: "string \<Rightarrow> (string \<times> string) option" where
  "read_line s =
     (case dropWhile (\<lambda>c. c \<noteq> newline) s of
        [] \<Rightarrow> None
      | n # rest \<Rightarrow> Some (takeWhile (\<lambda>c. c \<noteq> newline) s @ [n], rest))"

lemma read_line_split:
  assumes "read_line s = Some (l, rest)"
  shows "s = l @ rest \<and> l \<noteq> []"
proof -
  obtain n where d: "dropWhile (\<lambda>c. c \<noteq> newline) s = n # rest"
      and l: "l = takeWhile (\<lambda>c. c \<noteq> newline) s @ [n]"
    using assms by (auto simp: read_line_def split: list.splits)
  have "takeWhile (\<lambda>c. c \<noteq> newline) s @ dropWhile (\<lambda>c. c \<noteq> newline) s = s"
    by (rule takeWhile_dropWhile_id)
  then show ?thesis unfolding d by (simp add: l)
qed

function read_headers :: "string \<Rightarrow> string \<Rightarrow> (string \<times> string) option" where
  "read_headers acc s =
     (case read_line s of
        None \<Rightarrow> None
      | Some (line, rest) \<Rightarrow>
          if line = crlf \<or> line = [newline] then Some (acc @ line, rest)
          else read_headers (acc @ line) rest)"
  by pat_completeness auto
termination
  by (relation "measure (\<lambda>(acc, s). length s)") (auto dest!: read_line_split)

declare read_headers.simps [simp del]

text \<open>
  \<^verbatim>\<open>readRTSPMessage\<close>. The largest slice the runtime can make is \<open>max_alloc\<close> bytes (2^48 on amd64);
  \<^verbatim>\<open>make\<close> panics beyond it.
\<close>

definition max_alloc :: int where
  "max_alloc = 2 ^ 48"

definition read_message :: "(string \<times> string) rtsp" where
  "read_message c =
     (case read_headers [] (cn_in c) of
        None \<Rightarrow> (Returns (Inl (ErrNew (cn_err c))), c\<lparr>cn_in := []\<rparr>)
      | Some (headers, rest) \<Rightarrow>
          let clen_str = extract_header headers ''Content-Length'';
              c1 = c\<lparr>cn_in := rest\<rparr>
          in case (if clen_str \<noteq> [] then atoi clen_str else None) of
               None \<Rightarrow> (Returns (Inr (headers, [])), c1)
             | Some clen \<Rightarrow>
                 if clen \<le> 0 then (Returns (Inr (headers, [])), c1)
                 else if clen > max_alloc then (Panics, c1)
                 else if int (length rest) < clen
                 then (Returns (Inl (ErrNew (cn_err c))), c\<lparr>cn_in := []\<rparr>)
                 else (Returns (Inr (headers, take (nat clen) rest)),
                       c\<lparr>cn_in := drop (nat clen) rest\<rparr>))"

definition send_request :: "string \<Rightarrow> string \<Rightarrow> nat \<Rightarrow> string \<Rightarrow> unit rtsp" where
  "send_request meth uri cseq extra c =
     (if cn_writes c = 0 then (Returns (Inl (ErrNew (cn_err c))), c)
      else (Returns (Inr ()),
            c\<lparr>cn_writes := cn_writes c - 1,
              cn_sent := cn_sent c @
                [\<lparr>rq_method = meth, rq_uri = uri, rq_cseq = cseq, rq_extra = extra\<rparr>]\<rparr>))"

definition exchange :: "string \<Rightarrow> string \<Rightarrow> nat \<Rightarrow> string \<Rightarrow> (string \<times> string) rtsp" where
  "exchange meth uri cseq extra = rt_bind (send_request meth uri cseq extra) (\<lambda>_. read_message)"

section \<open>The handshake\<close>

definition unauthorized :: "string \<Rightarrow> bool" where
  "unauthorized headers \<longleftrightarrow> str_contains headers ''401 Unauthorized''"

definition with_auth :: "string \<Rightarrow> string \<Rightarrow> string" where
  "with_auth extra auth = (if auth \<noteq> [] then extra @ auth @ crlf else extra)"

record rtsp_login =
  lg_md5 :: "string \<Rightarrow> string"
  lg_uri :: string
  lg_user :: string
  lg_pass :: string

definition login_auth :: "rtsp_login \<Rightarrow> string \<Rightarrow> string \<Rightarrow> string \<Rightarrow> string" where
  "login_auth l challenge meth uri =
     build_auth_header (lg_md5 l) challenge meth uri (lg_user l) (lg_pass l)"

definition accept_sdp :: string where
  "accept_sdp = ''Accept: application/sdp'' @ crlf"

definition transport_tcp :: string where
  "transport_tcp = ''Transport: RTP/AVP/TCP;unicast;interleaved=0-1'' @ crlf"

definition play_extra :: "string \<Rightarrow> string" where
  "play_extra sess = (if sess \<noteq> [] then ''Session: '' @ sess @ crlf else [])"

text \<open>Lines 58-68: the challenge that OPTIONS brought, if any.\<close>

definition options_phase :: "rtsp_login \<Rightarrow> nat \<Rightarrow> string rtsp" where
  "options_phase l cseq =
     rt_bind (exchange ''OPTIONS'' (lg_uri l) cseq [])
       (\<lambda>(h, _). rt_return (if unauthorized h then extract_header h ''WWW-Authenticate'' else []))"

text \<open>Lines 70-105: the challenge in use, the sequence number reached and the SDP body.\<close>

definition describe_phase :: "rtsp_login \<Rightarrow> string \<Rightarrow> nat \<Rightarrow> (string \<times> nat \<times> string) rtsp" where
  "describe_phase l ch cseq =
     rt_bind (exchange ''DESCRIBE'' (lg_uri l) cseq
                (with_auth accept_sdp (login_auth l ch ''DESCRIBE'' (lg_uri l))))
       (\<lambda>(h, body).
          if unauthorized h then
            (if lg_user l = [] then rt_fail ''camera requires authentication (401 Unauthorized)''
             else
               let ch1 = extract_header h ''WWW-Authenticate'' in
               rt_bind (exchange ''DESCRIBE'' (lg_uri l) (cseq + 1)
                          (with_auth accept_sdp (login_auth l ch1 ''DESCRIBE'' (lg_uri l))))
                 (\<lambda>(h2, body2).
                    if unauthorized h2
                    then rt_fail ''RTSP authentication failed (invalid user/password)''
                    else rt_return (ch1, cseq + 1, body2)))
          else rt_return (ch, cseq, body))"

text \<open>Lines 108-137: the challenge, the sequence number and the headers of the last SETUP reply.\<close>

definition setup_phase ::
  "rtsp_login \<Rightarrow> string \<Rightarrow> nat \<Rightarrow> string \<Rightarrow> (string \<times> nat \<times> string) rtsp" where
  "setup_phase l ch cseq url =
     rt_bind (exchange ''SETUP'' url cseq (with_auth transport_tcp (login_auth l ch ''SETUP'' url)))
       (\<lambda>(h, _).
          if unauthorized h then
            let ch1 = extract_header h ''WWW-Authenticate'' in
            rt_bind (exchange ''SETUP'' url (cseq + 1)
                       (with_auth transport_tcp (login_auth l ch1 ''SETUP'' url)))
              (\<lambda>(h2, _). rt_return (ch1, cseq + 1, h2))
          else rt_return (ch, cseq, h))"

definition play_phase :: "rtsp_login \<Rightarrow> string \<Rightarrow> nat \<Rightarrow> string \<Rightarrow> unit rtsp" where
  "play_phase l ch cseq sess =
     rt_bind (exchange ''PLAY'' (lg_uri l) cseq
                (with_auth (play_extra sess) (login_auth l ch ''PLAY'' (lg_uri l))))
       (\<lambda>(h, _).
          if unauthorized h then
            let ch1 = extract_header h ''WWW-Authenticate'' in
            rt_bind (exchange ''PLAY'' (lg_uri l) (cseq + 1)
                       (with_auth (play_extra sess) (login_auth l ch1 ''PLAY'' (lg_uri l))))
              (\<lambda>_. rt_return ())
          else rt_return ())"

definition rtsp_handshake :: "rtsp_login \<Rightarrow> unit rtsp" where
  "rtsp_handshake l =
     rt_bind (options_phase l 1) (\<lambda>ch0.
     rt_bind (describe_phase l ch0 2) (\<lambda>(ch1, n1, body).
     rt_bind (setup_phase l ch1 (n1 + 1) (extract_video_track_url (lg_uri l) body)) (\<lambda>(ch2, n2, h).
     play_phase l ch2 (n2 + 1) (extract_header h ''Session''))))"

record parsed_url =
  pu_host :: string
  pu_path :: string
  pu_user :: string
  pu_pass :: string

definition dial_host :: "parsed_url \<Rightarrow> string" where
  "dial_host u = (if str_contains (pu_host u) '':'' then pu_host u else pu_host u @ '':554'')"

definition raw_uri :: "string \<Rightarrow> parsed_url \<Rightarrow> string" where
  "raw_uri source u =
     (let raw = ''rtsp://'' @ pu_host u @ pu_path u
      in if raw = [] \<or> raw = ''rtsp://'' then source else raw)"

section \<open>Sessions and interleaved packets\<close>

record ingest_session =
  ig_stream_id :: string
  ig_source_url :: string
  ig_status :: string
  ig_frames :: "64 word"
  ig_bytes :: "64 word"
  ig_last_frame :: gotime
  ig_connected :: bool
  ig_err :: "string option"

definition count_frame :: "gotime \<Rightarrow> nat \<Rightarrow> ingest_session \<Rightarrow> ingest_session" where
  "count_frame now n s =
     s\<lparr>ig_frames := ig_frames s + 1, ig_bytes := ig_bytes s + of_nat n, ig_last_frame := now\<rparr>"

text \<open>
  The read loop: \<open>k\<close> is the number of rounds before the context is seen to be done (any number
  above the length of the input is never reached), \<open>clock\<close> gives the time of each frame. The
  result is the error, none if the context was done.
\<close>

fun demux ::
  "nat \<Rightarrow> (nat \<Rightarrow> gotime) \<Rightarrow> string \<Rightarrow> string \<Rightarrow> ingest_session
   \<Rightarrow> go_error option \<times> ingest_session" where
  "demux 0 clock io_err inp s = (None, s)"
| "demux (Suc k) clock io_err inp s =
     (case inp of
        [] \<Rightarrow> (Some (ErrNew io_err), s)
      | b # rest \<Rightarrow>
          if b = CHR ''$'' then
            (case rest of
               _ # hi # lo # body \<Rightarrow>
                 let n = of_char hi * 256 + of_char lo
                 in if length body < n then (Some (ErrNew io_err), s)
                    else demux k clock io_err (drop n body) (count_frame (clock k) n s)
             | _ \<Rightarrow> (Some (ErrNew io_err), s))
          else demux k clock io_err rest s)"

section \<open>A logic for client steps\<close>

text \<open>
  \<open>rt_spec P m Q E\<close>: started where \<open>P\<close> holds, \<open>m\<close> ends in \<open>Q\<close> if it returns a value and in \<open>E\<close> if it
  returns an error or panics.
\<close>

fun rt_post ::
  "('a \<Rightarrow> conn \<Rightarrow> bool) \<Rightarrow> (conn \<Rightarrow> bool) \<Rightarrow> (go_error + 'a) outcome \<Rightarrow> conn \<Rightarrow> bool" where
  "rt_post Q E (Returns (Inr x)) c = Q x c"
| "rt_post Q E (Returns (Inl e)) c = E c"
| "rt_post Q E Panics c = E c"

definition rt_spec ::
  "(conn \<Rightarrow> bool) \<Rightarrow> 'a rtsp \<Rightarrow> ('a \<Rightarrow> conn \<Rightarrow> bool) \<Rightarrow> (conn \<Rightarrow> bool) \<Rightarrow> bool" where
  "rt_spec P m Q E \<longleftrightarrow> (\<forall>c. P c \<longrightarrow> rt_post Q E (fst (m c)) (snd (m c)))"

lemma rt_post_mono:
  "rt_post Q E r c \<Longrightarrow> (\<And>x. Q x c \<Longrightarrow> Q' x c) \<Longrightarrow> (E c \<Longrightarrow> E' c) \<Longrightarrow> rt_post Q' E' r c"
  by (cases "(Q, E, r, c)" rule: rt_post.cases) auto

lemma rt_postI:
  "(\<And>x. r = Returns (Inr x) \<Longrightarrow> Q x c) \<Longrightarrow> (\<And>e. r = Returns (Inl e) \<Longrightarrow> E c) \<Longrightarrow> (r = Panics \<Longrightarrow> E c) \<Longrightarrow>
   rt_post Q E r c"
  by (cases "(Q, E, r, c)" rule: rt_post.cases) auto

lemma rt_post_same: "(\<And>x. Q x c) \<Longrightarrow> E c \<Longrightarrow> rt_post Q E r c"
  by (cases "(Q, E, r, c)" rule: rt_post.cases) auto

lemma rt_spec_bind:
  assumes "rt_spec P m R E" and "\<And>x. rt_spec (R x) (f x) Q E"
  shows "rt_spec P (rt_bind m f) Q E"
  unfolding rt_spec_def
proof (intro allI impI)
  fix c assume "P c"
  then have first: "rt_post R E (fst (m c)) (snd (m c))" using assms(1) by (simp add: rt_spec_def)
  show "rt_post Q E (fst (rt_bind m f c)) (snd (rt_bind m f c))"
    using first assms(2)
    by (cases "(R, E, fst (m c), snd (m c))" rule: rt_post.cases)
      (auto simp: rt_bind_def rt_spec_def split_beta)
qed

lemma rt_spec_return: "(\<And>c. P c \<Longrightarrow> Q x c) \<Longrightarrow> rt_spec P (rt_return x) Q E"
  by (simp add: rt_spec_def rt_return_def)

lemma rt_spec_fail: "(\<And>c. P c \<Longrightarrow> E c) \<Longrightarrow> rt_spec P (rt_fail msg) Q E"
  by (simp add: rt_spec_def rt_fail_def)

lemma rt_specD: "rt_spec P m Q E \<Longrightarrow> P c \<Longrightarrow> m c = (r, c') \<Longrightarrow> rt_post Q E r c'"
  unfolding rt_spec_def by force

lemma rt_spec_if:
  "(b \<Longrightarrow> rt_spec P m Q E) \<Longrightarrow> (\<not> b \<Longrightarrow> rt_spec P n Q E) \<Longrightarrow> rt_spec P (if b then m else n) Q E"
  by simp

section \<open>Reading consumes exactly the message\<close>

lemma read_headers_split:
  "read_headers acc s = Some (h, rest) \<Longrightarrow> acc @ s = h @ rest"
proof (induction acc s rule: read_headers.induct)
  case (1 acc s)
  show ?case
    using 1 read_line_split [of s]
    by (subst (asm) (2) read_headers.simps) (auto split: option.splits prod.splits if_splits)
qed

lemma read_message_frame:
  "read_message c = (r, c') \<Longrightarrow> cn_sent c' = cn_sent c \<and> cn_writes c' = cn_writes c \<and> cn_err c' = cn_err c"
  by (auto simp: read_message_def Let_def split: option.splits prod.splits if_splits)

lemma read_message_input:
  assumes "read_message c = (r, c')"
  shows "\<exists>used. cn_in c = used @ cn_in c' \<and>
    (case r of Returns (Inr (h, body)) \<Rightarrow> used = h @ body | _ \<Rightarrow> True)"
proof (cases "read_headers [] (cn_in c)")
  case None
  then show ?thesis using assms by (auto simp: read_message_def)
next
  case (Some p)
  obtain h rest where p: "p = (h, rest)" by fastforce
  have "cn_in c = h @ rest" using read_headers_split [of "[]" "cn_in c"] Some p by simp
  then show ?thesis
    using assms Some unfolding p read_message_def
    by (auto simp: Let_def append_take_drop_id split: option.splits if_splits)
qed

section \<open>The handshake's requests\<close>

text \<open>The methods sent so far, numbered from 1.\<close>

definition sent_methods :: "string list \<Rightarrow> conn \<Rightarrow> bool" where
  "sent_methods ms c \<longleftrightarrow>
     map rq_method (cn_sent c) = ms \<and> map rq_cseq (cn_sent c) = [1..<Suc (length ms)]"

lemma exchange_methods:
  assumes "n = Suc (length ms)" and "\<And>c. sent_methods ms c \<Longrightarrow> E c"
    and "\<And>c. sent_methods (ms @ [meth]) c \<Longrightarrow> E c"
  shows "rt_spec (sent_methods ms) (exchange meth uri n extra) (\<lambda>_. sent_methods (ms @ [meth])) E"
proof -
  have send: "rt_spec (sent_methods ms) (send_request meth uri n extra)
      (\<lambda>_. sent_methods (ms @ [meth])) E"
    using assms(1,2) by (auto simp: rt_spec_def send_request_def sent_methods_def)
  have read: "rt_spec (sent_methods ms') read_message (\<lambda>_. sent_methods ms') (sent_methods ms')" for ms'
    using read_message_frame [OF prod.collapse [symmetric]]
    by (auto simp: rt_spec_def sent_methods_def intro!: rt_post_same)
  have "rt_spec (sent_methods (ms @ [meth])) read_message (\<lambda>_. sent_methods (ms @ [meth])) E"
    using read [of "ms @ [meth]"] assms(3) unfolding rt_spec_def by (blast intro: rt_post_mono)
  then show ?thesis unfolding exchange_def by (rule rt_spec_bind [OF send])
qed

definition shape :: "nat \<Rightarrow> nat \<Rightarrow> nat \<Rightarrow> string list" where
  "shape d s p = [''OPTIONS''] @ replicate d ''DESCRIBE'' @ replicate s ''SETUP'' @ replicate p ''PLAY''"

definition shape_ok :: "conn \<Rightarrow> bool" where
  "shape_ok c \<longleftrightarrow> sent_methods [] c \<or>
     (\<exists>d s p. d \<le> 2 \<and> s \<le> 2 \<and> p \<le> 2 \<and> (0 < s \<longrightarrow> 0 < d) \<and> (0 < p \<longrightarrow> 0 < s) \<and>
        sent_methods (shape d s p) c)"

lemma shape_okI:
  "sent_methods (shape d s p) c \<Longrightarrow> d \<le> 2 \<Longrightarrow> s \<le> 2 \<Longrightarrow> p \<le> 2 \<Longrightarrow> (0 < s \<longrightarrow> 0 < d) \<Longrightarrow>
   (0 < p \<longrightarrow> 0 < s) \<Longrightarrow> shape_ok c"
  unfolding shape_ok_def by blast

lemma shape_steps:
  "shape d 0 0 @ [''DESCRIBE''] = shape (Suc d) 0 0"
  "shape d s 0 @ [''SETUP''] = shape d (Suc s) 0"
  "shape d s p @ [''PLAY''] = shape d s (Suc p)"
  "length (shape d s p) = Suc (d + s + p)"
  by (simp_all add: shape_def replicate_append_same)

lemma exchange_describe:
  "n = d + 2 \<Longrightarrow> d < 2 \<Longrightarrow> rt_spec (sent_methods (shape d 0 0)) (exchange ''DESCRIBE'' uri n extra)
     (\<lambda>_. sent_methods (shape (Suc d) 0 0)) shape_ok"
  using exchange_methods [of n "shape d 0 0" shape_ok "''DESCRIBE''" uri extra]
    shape_okI [of d 0 0] shape_okI [of "Suc d" 0 0]
  by (simp add: shape_steps)

lemma exchange_setup:
  "n = d + s + 2 \<Longrightarrow> 0 < d \<Longrightarrow> d \<le> 2 \<Longrightarrow> s < 2 \<Longrightarrow>
   rt_spec (sent_methods (shape d s 0)) (exchange ''SETUP'' uri n extra)
     (\<lambda>_. sent_methods (shape d (Suc s) 0)) shape_ok"
  using exchange_methods [of n "shape d s 0" shape_ok "''SETUP''" uri extra]
    shape_okI [of d s 0] shape_okI [of d "Suc s" 0]
  by (simp add: shape_steps)

lemma exchange_play:
  "n = d + s + p + 2 \<Longrightarrow> 0 < d \<Longrightarrow> d \<le> 2 \<Longrightarrow> 0 < s \<Longrightarrow> s \<le> 2 \<Longrightarrow> p < 2 \<Longrightarrow>
   rt_spec (sent_methods (shape d s p)) (exchange ''PLAY'' uri n extra)
     (\<lambda>_. sent_methods (shape d s (Suc p))) shape_ok"
  using exchange_methods [of n "shape d s p" shape_ok "''PLAY''" uri extra]
    shape_okI [of d s p] shape_okI [of d s "Suc p"]
  by (simp add: shape_steps)

lemma options_phase_methods:
  "rt_spec (sent_methods []) (options_phase l 1) (\<lambda>_. sent_methods (shape 0 0 0)) shape_ok"
proof -
  have "rt_spec (sent_methods []) (exchange ''OPTIONS'' (lg_uri l) 1 [])
      (\<lambda>_. sent_methods (shape 0 0 0)) shape_ok"
    using exchange_methods [of 1 "[]" shape_ok "''OPTIONS''" "lg_uri l" "[]"]
      shape_okI [of 0 0 0] by (simp add: shape_def shape_ok_def)
  then show ?thesis
    unfolding options_phase_def
    by (rule rt_spec_bind) (auto intro: rt_spec_return split: prod.splits)
qed

definition after_describe :: "string \<times> nat \<times> string \<Rightarrow> conn \<Rightarrow> bool" where
  "after_describe x c \<longleftrightarrow> (case x of (ch, n, body) \<Rightarrow>
     \<exists>d. 0 < d \<and> d \<le> 2 \<and> n = d + 1 \<and> sent_methods (shape d 0 0) c)"

definition after_setup :: "string \<times> nat \<times> string \<Rightarrow> conn \<Rightarrow> bool" where
  "after_setup x c \<longleftrightarrow> (case x of (ch, n, h) \<Rightarrow>
     \<exists>d s. 0 < d \<and> d \<le> 2 \<and> 0 < s \<and> s \<le> 2 \<and> n = d + s + 1 \<and> sent_methods (shape d s 0) c)"

definition after_play :: "conn \<Rightarrow> bool" where
  "after_play c \<longleftrightarrow> (\<exists>d s p. 0 < d \<and> d \<le> 2 \<and> 0 < s \<and> s \<le> 2 \<and> 0 < p \<and> p \<le> 2 \<and>
     sent_methods (shape d s p) c)"

lemma after_describeI:
  "sent_methods (shape d 0 0) c \<Longrightarrow> 0 < d \<Longrightarrow> d \<le> 2 \<Longrightarrow> n = d + 1 \<Longrightarrow> after_describe (ch, n, b) c"
  by (auto simp: after_describe_def)

lemma after_setupI:
  "sent_methods (shape d s 0) c \<Longrightarrow> 0 < d \<Longrightarrow> d \<le> 2 \<Longrightarrow> 0 < s \<Longrightarrow> s \<le> 2 \<Longrightarrow> n = d + s + 1 \<Longrightarrow>
   after_setup (ch, n, h) c"
  by (auto simp: after_setup_def)

lemma after_playI:
  "sent_methods (shape d s p) c \<Longrightarrow> 0 < d \<Longrightarrow> d \<le> 2 \<Longrightarrow> 0 < s \<Longrightarrow> s \<le> 2 \<Longrightarrow> 0 < p \<Longrightarrow> p \<le> 2 \<Longrightarrow>
   after_play c"
  by (auto simp: after_play_def)

lemma describe_phase_methods:
  "rt_spec (sent_methods (shape 0 0 0)) (describe_phase l ch 2) after_describe shape_ok"
  unfolding describe_phase_def
proof (rule rt_spec_bind [OF exchange_describe])
  fix x :: "string \<times> string"
  obtain h body where x: "x = (h, body)" by fastforce
  show "rt_spec (sent_methods (shape (Suc 0) 0 0)) (case x of (h, body) \<Rightarrow>
      if unauthorized h then
        if lg_user l = [] then rt_fail ''camera requires authentication (401 Unauthorized)''
        else let ch1 = extract_header h ''WWW-Authenticate''
             in rt_bind (exchange ''DESCRIBE'' (lg_uri l) (2 + 1)
                  (with_auth accept_sdp (login_auth l ch1 ''DESCRIBE'' (lg_uri l))))
                (\<lambda>(h2, body2). if unauthorized h2
                   then rt_fail ''RTSP authentication failed (invalid user/password)''
                   else rt_return (ch1, 2 + 1, body2))
      else rt_return (ch, 2, body)) after_describe shape_ok"
    unfolding x Let_def prod.case
  proof (intro rt_spec_if)
    show "rt_spec (sent_methods (shape (Suc 0) 0 0)) (rt_fail msg) after_describe shape_ok" for msg
      by (rule rt_spec_fail) (erule shape_okI, simp_all)
    show "rt_spec (sent_methods (shape (Suc 0) 0 0)) (rt_return (ch, 2, body)) after_describe shape_ok"
      by (rule rt_spec_return) (rule after_describeI, simp_all)
    show "rt_spec (sent_methods (shape (Suc 0) 0 0))
      (rt_bind (exchange ''DESCRIBE'' (lg_uri l) (2 + 1) extra)
        (\<lambda>(h2, body2). if unauthorized h2
           then rt_fail ''RTSP authentication failed (invalid user/password)''
           else rt_return (ch1, 2 + 1, body2))) after_describe shape_ok" for extra ch1
    proof (rule rt_spec_bind)
      show "rt_spec (sent_methods (shape (Suc 0) 0 0)) (exchange ''DESCRIBE'' (lg_uri l) (2 + 1) extra)
          (\<lambda>_. sent_methods (shape (Suc (Suc 0)) 0 0)) shape_ok"
        by (rule exchange_describe) simp_all
    qed (auto split: prod.split intro!: rt_spec_fail rt_spec_return after_describeI shape_okI)
  qed
qed simp_all

lemma setup_phase_methods:
  assumes "0 < d" "d \<le> 2"
  shows "rt_spec (sent_methods (shape d 0 0)) (setup_phase l ch (d + 2) url) after_setup shape_ok"
  unfolding setup_phase_def
proof (rule rt_spec_bind [OF exchange_setup])
  fix x :: "string \<times> string"
  obtain h body where x: "x = (h, body)" by fastforce
  have second: "rt_spec (sent_methods (shape d (Suc 0) 0)) (exchange ''SETUP'' url (d + 2 + 1) extra)
      (\<lambda>_. sent_methods (shape d (Suc (Suc 0)) 0)) shape_ok" for extra
    by (rule exchange_setup) (use assms in simp_all)
  show "rt_spec (sent_methods (shape d (Suc 0) 0)) (case x of (h, _) \<Rightarrow>
      if unauthorized h then
        let ch1 = extract_header h ''WWW-Authenticate''
        in rt_bind (exchange ''SETUP'' url (d + 2 + 1)
             (with_auth transport_tcp (login_auth l ch1 ''SETUP'' url)))
           (\<lambda>(h2, _). rt_return (ch1, d + 2 + 1, h2))
      else rt_return (ch, d + 2, h)) after_setup shape_ok"
    unfolding x Let_def prod.case
  proof (intro rt_spec_if)
    show "rt_spec (sent_methods (shape d (Suc 0) 0)) (rt_return (ch, d + 2, h)) after_setup shape_ok"
      by (rule rt_spec_return, erule after_setupI) (use assms in simp_all)
    show "rt_spec (sent_methods (shape d (Suc 0) 0))
      (rt_bind (exchange ''SETUP'' url (d + 2 + 1) extra) (\<lambda>(h2, _). rt_return (ch1, d + 2 + 1, h2)))
      after_setup shape_ok" for extra ch1
      by (rule rt_spec_bind [OF second], clarify, rule rt_spec_return, erule after_setupI)
        (use assms in simp_all)
  qed
qed (use assms in simp_all)

lemma play_phase_methods:
  assumes "0 < d" "d \<le> 2" "0 < s" "s \<le> 2"
  shows "rt_spec (sent_methods (shape d s 0)) (play_phase l ch (d + s + 2) sess) (\<lambda>_. after_play) shape_ok"
  unfolding play_phase_def
proof (rule rt_spec_bind [OF exchange_play])
  fix x :: "string \<times> string"
  obtain h body where x: "x = (h, body)" by fastforce
  have second: "rt_spec (sent_methods (shape d s (Suc 0))) (exchange ''PLAY'' (lg_uri l) (d + s + 2 + 1) extra)
      (\<lambda>_. sent_methods (shape d s (Suc (Suc 0)))) shape_ok" for extra
    by (rule exchange_play) (use assms in simp_all)
  show "rt_spec (sent_methods (shape d s (Suc 0))) (case x of (h, _) \<Rightarrow>
      if unauthorized h then
        let ch1 = extract_header h ''WWW-Authenticate''
        in rt_bind (exchange ''PLAY'' (lg_uri l) (d + s + 2 + 1)
             (with_auth (play_extra sess) (login_auth l ch1 ''PLAY'' (lg_uri l))))
           (\<lambda>_. rt_return ())
      else rt_return ()) (\<lambda>_. after_play) shape_ok"
    unfolding x Let_def prod.case
  proof (intro rt_spec_if)
    show "rt_spec (sent_methods (shape d s (Suc 0))) (rt_return ()) (\<lambda>_. after_play) shape_ok"
      by (rule rt_spec_return, erule after_playI) (use assms in simp_all)
    show "rt_spec (sent_methods (shape d s (Suc 0)))
      (rt_bind (exchange ''PLAY'' (lg_uri l) (d + s + 2 + 1) extra) (\<lambda>_. rt_return ()))
      (\<lambda>_. after_play) shape_ok" for extra
      by (rule rt_spec_bind [OF second], rule rt_spec_return, erule after_playI)
        (use assms in simp_all)
  qed
qed (use assms in simp_all)

lemma rt_spec_ex: "(\<And>d. rt_spec (P d) m Q E) \<Longrightarrow> rt_spec (\<lambda>c. \<exists>d. P d c) m Q E"
  unfolding rt_spec_def by blast

lemma rt_spec_pre: "rt_spec P m Q E \<Longrightarrow> (\<And>c. P' c \<Longrightarrow> P c) \<Longrightarrow> rt_spec P' m Q E"
  unfolding rt_spec_def by blast

lemma handshake_methods:
  "rt_spec (sent_methods []) (rtsp_handshake l) (\<lambda>_. after_play) shape_ok"
  unfolding rtsp_handshake_def
proof (rule rt_spec_bind [OF options_phase_methods], rule rt_spec_bind [OF describe_phase_methods])
  fix ch0 :: string and x :: "string \<times> nat \<times> string"
  obtain ch1 n1 body where x: "x = (ch1, n1, body)" by (cases x) auto
  let ?url = "extract_video_track_url (lg_uri l) body"
  have play: "rt_spec (after_setup (ch2, n2, h)) (play_phase l ch2 (n2 + 1) sess) (\<lambda>_. after_play) shape_ok"
    for ch2 n2 h sess
    unfolding rt_spec_def after_setup_def
  proof (intro allI impI)
    fix c assume "case (ch2, n2, h) of (ch, n, h) \<Rightarrow> \<exists>d s. 0 < d \<and> d \<le> 2 \<and> 0 < s \<and> s \<le> 2 \<and>
        n = d + s + 1 \<and> sent_methods (shape d s 0) c"
    then obtain d s where "0 < d" "d \<le> 2" "0 < s" "s \<le> 2" "n2 + 1 = d + s + 2"
        "sent_methods (shape d s 0) c" by auto
    then show "rt_post (\<lambda>_. after_play) shape_ok (fst (play_phase l ch2 (n2 + 1) sess c))
        (snd (play_phase l ch2 (n2 + 1) sess c))"
      using play_phase_methods [of d s l ch2 sess] unfolding rt_spec_def by simp
  qed
  have set: "rt_spec (after_describe x) (setup_phase l ch1 (n1 + 1) ?url) after_setup shape_ok"
    unfolding rt_spec_def after_describe_def
  proof (intro allI impI)
    fix c assume "case x of (ch, n, body) \<Rightarrow> \<exists>d. 0 < d \<and> d \<le> 2 \<and> n = d + 1 \<and> sent_methods (shape d 0 0) c"
    then obtain d where "0 < d" "d \<le> 2" "n1 + 1 = d + 2" "sent_methods (shape d 0 0) c"
      by (auto simp: x)
    then show "rt_post after_setup shape_ok (fst (setup_phase l ch1 (n1 + 1) ?url c))
        (snd (setup_phase l ch1 (n1 + 1) ?url c))"
      using setup_phase_methods [of d l ch1 ?url] unfolding rt_spec_def by simp
  qed
  show "rt_spec (after_describe x) (case x of (ch1, n1, body) \<Rightarrow>
      rt_bind (setup_phase l ch1 (n1 + 1) (extract_video_track_url (lg_uri l) body))
        (\<lambda>(ch2, n2, h). play_phase l ch2 (n2 + 1) (extract_header h ''Session'')))
      (\<lambda>_. after_play) shape_ok"
    unfolding x prod.case using set unfolding x
    by (rule rt_spec_bind) (simp only: split_paired_all prod.case, rule play)
qed

section \<open>What the requests carry\<close>

text \<open>The extra headers of a request that carries no credentials.\<close>

definition bare_extra :: "string \<Rightarrow> bool" where
  "bare_extra e \<longleftrightarrow> e = [] \<or> e = accept_sdp \<or> e = transport_tcp \<or> (\<exists>s. e = play_extra s)"

text \<open>
  The peer never asks for a login, or there is no user name to send: then only bare requests go out.
\<close>

definition no_login :: "rtsp_login \<Rightarrow> conn \<Rightarrow> bool" where
  "no_login l c \<longleftrightarrow>
     (lg_user l = [] \<or> \<not> str_contains (cn_in c) ''401 Unauthorized'') \<and>
     (\<forall>q \<in> set (cn_sent c). bare_extra (rq_extra q))"

text \<open>A challenge that can be in use under \<open>no_login\<close>: none, unless there is no user.\<close>

definition no_challenge :: "rtsp_login \<Rightarrow> string \<Rightarrow> bool" where
  "no_challenge l ch \<longleftrightarrow> lg_user l = [] \<or> ch = []"

lemma login_auth_none: "no_challenge l ch \<Longrightarrow> login_auth l ch meth uri = []"
  by (auto simp: no_challenge_def login_auth_def)

definition quiet_reply :: "rtsp_login \<Rightarrow> string \<times> string \<Rightarrow> bool" where
  "quiet_reply l x \<longleftrightarrow> lg_user l = [] \<or> \<not> unauthorized (fst x)"

lemma exchange_no_login:
  assumes "bare_extra extra"
  shows "rt_spec (no_login l) (exchange meth uri n extra)
    (\<lambda>x c. quiet_reply l x \<and> no_login l c) (no_login l)"
  unfolding exchange_def
proof (rule rt_spec_bind)
  show "rt_spec (no_login l) (send_request meth uri n extra) (\<lambda>_. no_login l) (no_login l)"
    using assms by (auto simp: rt_spec_def send_request_def no_login_def)
  show "rt_spec (no_login l) read_message (\<lambda>x c. quiet_reply l x \<and> no_login l c) (no_login l)"
    unfolding rt_spec_def
  proof (intro allI impI)
    fix c assume ok: "no_login l c"
    obtain r c' where m: "read_message c = (r, c')" by fastforce
    obtain used where used: "cn_in c = used @ cn_in c'"
        "case r of Returns (Inr (h, body)) \<Rightarrow> used = h @ body | _ \<Rightarrow> True"
      using read_message_input [OF m] by auto
    have sub: "\<not> str_contains (cn_in c') ''401 Unauthorized'' \<and> \<not> str_contains used ''401 Unauthorized''"
      if "\<not> str_contains (cn_in c) ''401 Unauthorized''"
      using that str_contains_within [of "cn_in c'" _ used "[]"] str_contains_within [of used _ "[]" "cn_in c'"]
      by (auto simp: used(1))
    have no: "no_login l c'" using ok sub read_message_frame [OF m] by (auto simp: no_login_def)
    have "quiet_reply l (h, body)" if "r = Returns (Inr (h, body))" for h body
      using ok sub used(2) that str_contains_within [of h _ "[]" body]
      by (auto simp: quiet_reply_def no_login_def unauthorized_def)
    then show "rt_post (\<lambda>x c. quiet_reply l x \<and> no_login l c) (no_login l)
        (fst (read_message c)) (snd (read_message c))"
      using no unfolding m by (intro rt_postI) auto
  qed
qed

lemma rt_spec_conj_pre: "(b \<Longrightarrow> rt_spec P m Q E) \<Longrightarrow> rt_spec (\<lambda>c. b \<and> P c) m Q E"
  unfolding rt_spec_def by blast

lemma bare_extras [simp]:
  "bare_extra []" "bare_extra accept_sdp" "bare_extra transport_tcp" "bare_extra (play_extra s)"
  by (auto simp: bare_extra_def)

lemma with_auth_none [simp]: "with_auth extra [] = extra"
  by (simp add: with_auth_def)

definition calm :: "rtsp_login \<Rightarrow> string \<Rightarrow> conn \<Rightarrow> bool" where
  "calm l ch c \<longleftrightarrow> no_challenge l ch \<and> no_login l c"

lemma options_phase_calm: "rt_spec (no_login l) (options_phase l n) (calm l) (no_login l)"
  unfolding options_phase_def
  by (rule rt_spec_bind [OF exchange_no_login], simp, simp only: split_paired_all prod.case,
      rule rt_spec_conj_pre, rule rt_spec_return)
    (auto simp: calm_def no_challenge_def quiet_reply_def)

lemma describe_phase_calm:
  assumes "no_challenge l ch"
  shows "rt_spec (no_login l) (describe_phase l ch n) (\<lambda>(ch1, _, _). calm l ch1) (no_login l)"
  unfolding describe_phase_def login_auth_none [OF assms] with_auth_none
  by (rule rt_spec_bind [OF exchange_no_login], simp, simp only: split_paired_all prod.case,
      rule rt_spec_conj_pre)
    (auto simp: quiet_reply_def calm_def assms intro!: rt_spec_fail rt_spec_return)

lemma setup_phase_calm:
  assumes "no_challenge l ch"
  shows "rt_spec (no_login l) (setup_phase l ch n url) (\<lambda>(ch1, _, _). calm l ch1) (no_login l)"
proof -
  have retry: "rt_spec (no_login l)
      (rt_bind (exchange ''SETUP'' url k (with_auth transport_tcp (login_auth l ch1 ''SETUP'' url)))
        (\<lambda>(h2, _). rt_return (ch1, k, h2))) (\<lambda>(ch1, _, _). calm l ch1) (no_login l)"
    if "no_challenge l ch1" for ch1 k
    unfolding login_auth_none [OF that] with_auth_none
    by (rule rt_spec_bind [OF exchange_no_login], simp, simp only: split_paired_all prod.case,
        rule rt_spec_conj_pre, rule rt_spec_return) (simp add: calm_def that)
  have nc: "lg_user l = [] \<Longrightarrow> no_challenge l ch1" for ch1 by (simp add: no_challenge_def)
  show ?thesis
    unfolding setup_phase_def login_auth_none [OF assms] with_auth_none Let_def
    by (rule rt_spec_bind [OF exchange_no_login], simp, simp only: split_paired_all prod.case,
        rule rt_spec_conj_pre, rule rt_spec_if, rule retry)
      (auto simp: quiet_reply_def calm_def assms nc intro!: rt_spec_return)
qed

lemma play_phase_calm:
  assumes "no_challenge l ch"
  shows "rt_spec (no_login l) (play_phase l ch n sess) (\<lambda>_. no_login l) (no_login l)"
proof -
  have retry: "rt_spec (no_login l)
      (rt_bind (exchange ''PLAY'' (lg_uri l) k
          (with_auth (play_extra sess) (login_auth l ch1 ''PLAY'' (lg_uri l)))) (\<lambda>_. rt_return ()))
      (\<lambda>_. no_login l) (no_login l)"
    if "no_challenge l ch1" for ch1 k
    unfolding login_auth_none [OF that] with_auth_none
    by (rule rt_spec_bind [OF exchange_no_login], simp, rule rt_spec_return) simp
  have nc: "lg_user l = [] \<Longrightarrow> no_challenge l ch1" for ch1 by (simp add: no_challenge_def)
  show ?thesis
    unfolding play_phase_def login_auth_none [OF assms] with_auth_none Let_def
    by (rule rt_spec_bind [OF exchange_no_login], simp, simp only: split_paired_all prod.case,
        rule rt_spec_conj_pre, rule rt_spec_if, rule retry)
      (auto simp: quiet_reply_def nc intro!: rt_spec_return)
qed

lemma handshake_no_login:
  "rt_spec (no_login l) (rtsp_handshake l) (\<lambda>_. no_login l) (no_login l)"
proof -
  have play: "rt_spec (calm l ch2) (play_phase l ch2 n sess) (\<lambda>_. no_login l) (no_login l)" for ch2 n sess
    unfolding calm_def by (rule rt_spec_conj_pre) (rule play_phase_calm)
  have set: "rt_spec (calm l ch1)
      (rt_bind (setup_phase l ch1 n url)
        (\<lambda>(ch2, n2, h). play_phase l ch2 (n2 + 1) (extract_header h ''Session'')))
      (\<lambda>_. no_login l) (no_login l)" for ch1 n url
    unfolding calm_def
    by (rule rt_spec_conj_pre, rule rt_spec_bind [OF setup_phase_calm], assumption,
        simp only: split_paired_all prod.case) (rule play)
  have desc: "rt_spec (calm l ch0)
      (rt_bind (describe_phase l ch0 2) (\<lambda>(ch1, n1, body).
        rt_bind (setup_phase l ch1 (n1 + 1) (extract_video_track_url (lg_uri l) body))
          (\<lambda>(ch2, n2, h). play_phase l ch2 (n2 + 1) (extract_header h ''Session''))))
      (\<lambda>_. no_login l) (no_login l)" for ch0
    unfolding calm_def
    by (rule rt_spec_conj_pre, rule rt_spec_bind [OF describe_phase_calm], assumption,
        simp only: split_paired_all prod.case) (rule set)
  show ?thesis
    unfolding rtsp_handshake_def by (rule rt_spec_bind [OF options_phase_calm]) (rule desc)
qed

section \<open>Interleaved packets\<close>

text \<open>Junk without a dollar sign, then one packet: \<^verbatim>\<open>$\<close>, the channel, the length, the payload.\<close>

definition interleave :: "string \<times> char \<times> string \<Rightarrow> string" where
  "interleave p =
     (case p of (junk, ch, payload) \<Rightarrow>
        junk @ CHR ''$'' # ch # char_of (length payload div 256) # char_of (length payload mod 256) #
        payload)"

definition packet_ok :: "string \<times> char \<times> string \<Rightarrow> bool" where
  "packet_ok p \<longleftrightarrow> (case p of (junk, ch, payload) \<Rightarrow> CHR ''$'' \<notin> set junk \<and> length payload < 65536)"

definition payload_bytes :: "(string \<times> char \<times> string) list \<Rightarrow> nat" where
  "payload_bytes ps = sum_list (map (\<lambda>p. length (snd (snd p))) ps)"

lemma demux_junk:
  "CHR ''$'' \<notin> set junk \<Longrightarrow>
   demux (length junk + k) clock e (junk @ rest) s = demux k clock e rest s"
  by (induction junk) auto

lemma demux_packet:
  assumes "packet_ok (junk, ch, payload)"
  shows "demux (Suc (length junk + k)) clock e (interleave (junk, ch, payload) @ rest) s =
    demux k clock e rest (count_frame (clock k) (length payload) s)"
proof -
  have len: "length payload div 256 < 256"
    using assms less_mult_imp_div_less [of "length payload" 256 256] by (simp add: packet_ok_def)
  have n: "(of_char (char_of (length payload div 256)) :: nat) * 256 +
      of_char (char_of (length payload mod 256)) = length payload"
    by (simp only: of_char_char_of [OF len] of_char_char_of mod_less_divisor) simp
  have "demux (length junk + Suc k) clock e (interleave (junk, ch, payload) @ rest) s =
      demux (Suc k) clock e (CHR ''$'' # ch # char_of (length payload div 256) #
        char_of (length payload mod 256) # payload @ rest) s"
    using demux_junk [of junk "Suc k" clock e _ s] assms by (simp add: interleave_def packet_ok_def)
  then show ?thesis using n by (simp add: Let_def)
qed

lemma demux_packets:
  assumes "\<And>p. p \<in> set ps \<Longrightarrow> packet_ok p" and "length (concat (map interleave ps)) < k"
  shows "\<exists>s'. demux k clock e (concat (map interleave ps)) s = (Some (ErrNew e), s') \<and>
    ig_frames s' = ig_frames s + of_nat (length ps) \<and>
    ig_bytes s' = ig_bytes s + of_nat (payload_bytes ps) \<and> ig_status s' = ig_status s"
  using assms
proof (induction ps arbitrary: k s)
  case Nil
  then show ?case by (cases k) (simp_all add: payload_bytes_def)
next
  case (Cons p ps)
  obtain junk ch payload where p: "p = (junk, ch, payload)" by (cases p) auto
  define j where "j = k - Suc (length junk)"
  have "Suc (length junk) \<le> length (interleave p)" by (simp add: p interleave_def)
  then have k: "k = Suc (length junk + j)" "length (concat (map interleave ps)) < j"
    using Cons.prems(2) by (simp_all add: j_def)
  have "packet_ok (junk, ch, payload)" using Cons.prems(1) p by simp
  then have step: "demux k clock e (interleave p @ concat (map interleave ps)) s =
      demux j clock e (concat (map interleave ps)) (count_frame (clock j) (length payload) s)"
    using demux_packet [of junk ch payload j clock e "concat (map interleave ps)" s]
    by (simp only: k(1) p)
  obtain s' where "demux j clock e (concat (map interleave ps)) (count_frame (clock j) (length payload) s)
      = (Some (ErrNew e), s')"
    "ig_frames s' = ig_frames (count_frame (clock j) (length payload) s) + of_nat (length ps)"
    "ig_bytes s' = ig_bytes (count_frame (clock j) (length payload) s) + of_nat (payload_bytes ps)"
    "ig_status s' = ig_status (count_frame (clock j) (length payload) s)"
    using Cons.IH [OF Cons.prems(1) k(2)] by auto
  then show ?case by (simp add: step [unfolded p] p count_frame_def payload_bytes_def add.assoc)
qed

section \<open>Properties\<close>

text \<open>
  C12: Whatever the peer answers and wherever the connection breaks, the requests of a handshake carry
  the sequence numbers 1, 2, 3, ... without a gap, at most seven of them, and their methods are
  OPTIONS once, then DESCRIBE, SETUP and PLAY at most twice each, in this order; a handshake that
  succeeds has sent all four.
\<close>

theorem handshake_cseq:
  assumes "rtsp_handshake l c = (r, c')" and "cn_sent c = []"
  shows "map rq_cseq (cn_sent c') = [1..<Suc (length (cn_sent c'))] \<and> length (cn_sent c') \<le> 7 \<and>
    (\<exists>d s p. d \<le> 2 \<and> s \<le> 2 \<and> p \<le> 2 \<and>
       map rq_method (cn_sent c') = take (length (cn_sent c')) (shape d s p) \<and>
       (r = Returns (Inr ()) \<longrightarrow> 0 < d \<and> 0 < s \<and> 0 < p \<and> map rq_method (cn_sent c') = shape d s p))"
proof -
  have start: "sent_methods [] c" using assms(2) by (simp add: sent_methods_def)
  have post: "rt_post (\<lambda>_. after_play) shape_ok r c'"
    by (rule rt_specD [OF handshake_methods start assms(1)])
  have len: "length (cn_sent c') = length ms" if "sent_methods ms c'" for ms
    using that unfolding sent_methods_def by (metis length_map)
  show ?thesis
  proof (cases "r = Returns (Inr ())")
    case True
    then obtain d s p where b: "0 < d" "d \<le> 2" "0 < s" "s \<le> 2" "0 < p" "p \<le> 2"
        and m: "sent_methods (shape d s p) c'"
      using post by (auto simp: after_play_def)
    have "length (shape d s p) \<le> 7" using b by (simp add: shape_steps)
    then show ?thesis
      using b m len [OF m] unfolding sent_methods_def by (intro conjI exI [of _ d] exI [of _ s] exI [of _ p]) auto
  next
    case False
    then have "shape_ok c'" using post by (cases "(\<lambda>_::unit. after_play, shape_ok, r, c')" rule: rt_post.cases) auto
    then consider "sent_methods [] c'"
      | d s p where "d \<le> 2" "s \<le> 2" "p \<le> 2" "sent_methods (shape d s p) c'"
      by (auto simp: shape_ok_def)
    then show ?thesis
    proof cases
      case 1
      then show ?thesis using False by (auto simp: sent_methods_def)
    next
      case 2
      have "length (shape d s p) \<le> 7" using 2 by (simp add: shape_steps)
      then show ?thesis
        using 2 False len [OF 2(4)] unfolding sent_methods_def
        by (intro conjI exI [of _ d] exI [of _ s] exI [of _ p]) auto
    qed
  qed
qed

definition sample_login :: rtsp_login where
  "sample_login = \<lparr>lg_md5 = (\<lambda>s. s), lg_uri = ''rtsp://cam/live'', lg_user = ''bob'', lg_pass = ''pw''\<rparr>"

definition sample_conn :: "string \<Rightarrow> conn" where
  "sample_conn inp = \<lparr>cn_in = inp, cn_writes = 9, cn_sent = [], cn_err = ''EOF''\<rparr>"

theorem handshake_cseq_witness:
  "length (cn_sent (snd (rtsp_handshake sample_login (sample_conn ''RTSP/1.0 200 OK'')))) \<le> 7"
  using handshake_cseq [OF prod.collapse [symmetric], where l = sample_login
      and c = "sample_conn ''RTSP/1.0 200 OK''"]
  by (simp add: sample_conn_def)





text \<open>
  C15: The read loop counts interleaved packets exactly: for any packets of less than 65536 bytes, each
  after any bytes without a dollar sign, it reads to the end of the input, having added the
  number of packets to the frame counter and the total payload length to the byte counter (both
  modulo 2^64).
\<close>

theorem demux_counts_packets:
  assumes "\<And>p. p \<in> set ps \<Longrightarrow> packet_ok p" and "length (concat (map interleave ps)) < k"
  shows "\<exists>s'. demux k clock e (concat (map interleave ps)) s = (Some (ErrNew e), s') \<and>
    ig_frames s' = ig_frames s + of_nat (length ps) \<and>
    ig_bytes s' = ig_bytes s + of_nat (payload_bytes ps) \<and> ig_status s' = ig_status s"
  by (rule demux_packets [OF assms])

definition sample_session :: ingest_session where
  "sample_session =
     \<lparr>ig_stream_id = ''cam'', ig_source_url = ''rtsp://cam/live'', ig_status = ''streaming'',
      ig_frames = 0, ig_bytes = 0, ig_last_frame = 0, ig_connected = True, ig_err = None\<rparr>"

theorem demux_counts_packets_witness:
  "\<exists>s'. demux 20 (\<lambda>_. 1) ''EOF'' (concat (map interleave [(''xy'', CHR ''0'', ''abc'')])) sample_session =
     (Some (ErrNew ''EOF''), s') \<and> ig_frames s' = 1 \<and> ig_bytes s' = 3"
proof -
  have ok: "p \<in> set [(''xy'', CHR ''0'', ''abc'')] \<Longrightarrow> packet_ok p" for p by (auto simp: packet_ok_def)
  have len: "length (concat (map interleave [(''xy'', CHR ''0'', ''abc'')])) < 20"
    by (simp add: interleave_def)
  show ?thesis
    using demux_counts_packets [OF ok len, of "\<lambda>_. 1" "''EOF''" sample_session]
    by (auto simp: payload_bytes_def sample_session_def)
qed

text \<open>
  A camera can crash the program: a Content-Length that is a valid 64-bit number above the
  largest allocation makes readRTSPMessage panic in make, and the panic is in a goroutine that
  nothing recovers.
\<close>

theorem content_length_panics:
  "fst (rtsp_handshake l (sample_conn
     (''RTSP/1.0 200 OK'' @ crlf @ ''Content-Length: 4000000000000000'' @ crlf @ crlf))) = Panics"
proof -
  define m where "m = ''RTSP/1.0 200 OK'' @ crlf @ ''Content-Length: 4000000000000000'' @ crlf @ crlf"
  have h: "read_headers [] m = Some (m, [])" unfolding m_def by code_simp
  have e: "extract_header m ''Content-Length'' = ''4000000000000000''" unfolding m_def by code_simp
  have v: "atoi (extract_header m ''Content-Length'') = Some 4000000000000000"
    unfolding e by (simp add: parse_signed_def is_digit_def digit_val_def digits_val_def)
  have n: "extract_header m ''Content-Length'' \<noteq> []" unfolding e by simp
  have read: "\<exists>c'. read_message c = (Panics, c')" if "cn_in c = m" for c
  proof -
    have big: "\<not> (4000000000000000 :: int) \<le> 0" "max_alloc < 4000000000000000"
      by (simp_all add: max_alloc_def)
    show ?thesis
      unfolding read_message_def Let_def that h option.case prod.case if_P [OF n] v if_not_P [OF big(1)]
        if_P [OF big(2)] by (rule exI, rule refl)
  qed
  have "\<exists>c'. exchange ''OPTIONS'' (lg_uri l) 1 [] (sample_conn m) = (Panics, c')"
    using read [of "(sample_conn m)\<lparr>cn_writes := 8, cn_sent :=
        [\<lparr>rq_method = ''OPTIONS'', rq_uri = lg_uri l, rq_cseq = 1, rq_extra = []\<rparr>]\<rparr>"]
    by (auto simp: exchange_def rt_bind_def send_request_def sample_conn_def)
  then have "fst (rtsp_handshake l (sample_conn m)) = Panics"
    by (auto simp: rtsp_handshake_def options_phase_def rt_bind_def)
  then show ?thesis by (simp only: m_def)
qed

end
