(* ===== verification/NatsPublisher.thy ===== *)
theory NatsPublisher
  imports DomainTelemetry DomainFragment
begin

text \<open>
  \<^verbatim>\<open>internal/adapters/secondary/nats/publisher.go\<close>: the messages published for camera and recording
  events. A publication is a subject and a JSON payload; the connection to the NATS server (a
  library) decides whether it goes through. \<open>fmt_time\<close> is \<^verbatim>\<open>Time.Format\<close> with the layout named.
\<close>

type_synonym message = "string \<times> json"

definition publish_tenant :: "string \<Rightarrow> string" where
  "publish_tenant t = (if t = [] then default_tenant else t)"

definition camera_subject :: "string \<Rightarrow> string \<Rightarrow> string" where
  "camera_subject tenant sid = ''hydra.v1.'' @ tenant @ ''.cameras.'' @ sid @ ''.events''"

definition camera_event ::
  "(gotime \<Rightarrow> string) \<Rightarrow> string \<Rightarrow> string \<Rightarrow> string \<Rightarrow> string \<Rightarrow> string \<Rightarrow> string \<Rightarrow> string
   \<Rightarrow> gotime \<Rightarrow> gotime \<Rightarrow> gotime \<Rightarrow> json" where
  "camera_event fmt_time tenant sid prefix kind severity status reason now1 now2 now3 =
     JObj [(''specversion'', JStr ''1.0''),
           (''id'', JStr (prefix @ sid @ ''_'' @ int_str (unix_nano now1))),
           (''source'', JStr ''hydrastream/ingest-engine''),
           (''type'', JStr kind), (''subject'', JStr sid), (''time'', JStr (fmt_time now2)),
           (''tenant_id'', JStr tenant), (''category'', JStr ''SYSTEM_EVENT''),
           (''severity'', JStr severity),
           (''data'', JObj [(''camera_id'', JStr sid), (''camera_name'', JStr sid),
                            (''status'', JStr status), (''reason'', JStr reason),
                            (''timestamp'', JStr (fmt_time now3))])]"

definition publish_camera_offline ::
  "(gotime \<Rightarrow> string) \<Rightarrow> gotime \<Rightarrow> gotime \<Rightarrow> gotime \<Rightarrow> string \<Rightarrow> string \<Rightarrow> string \<Rightarrow> message list" where
  "publish_camera_offline fmt_time now1 now2 now3 tenant0 sid msg =
     (let tenant = publish_tenant tenant0;
          payload = camera_event fmt_time tenant sid ''evt_off_'' ''system.camera.offline'' ''critical''
                      ''offline'' msg now1 now2 now3
      in [(''hydra.v1.'' @ tenant @ ''.events.system.camera.offline'', payload),
          (camera_subject tenant sid, payload)])"

definition publish_camera_online ::
  "(gotime \<Rightarrow> string) \<Rightarrow> gotime \<Rightarrow> gotime \<Rightarrow> gotime \<Rightarrow> string \<Rightarrow> string \<Rightarrow> message list" where
  "publish_camera_online fmt_time now1 now2 now3 tenant0 sid =
     (let tenant = publish_tenant tenant0;
          payload = camera_event fmt_time tenant sid ''evt_on_'' ''system.camera.online'' ''low''
                      ''online'' ''RTSP stream connected'' now1 now2 now3
      in [(''hydra.v1.'' @ tenant @ ''.events.system.camera.online'', payload),
          (camera_subject tenant sid, payload)])"

text \<open>
  \<^verbatim>\<open>PublishTelemetry\<close>: \<^verbatim>\<open>json.Marshal\<close> refuses a float that is not finite, and then nothing is
  published and the error is returned.
\<close>

definition publish_telemetry ::
  "gotime \<Rightarrow> string \<Rightarrow> string \<Rightarrow> float64 \<Rightarrow> int \<Rightarrow> string \<Rightarrow> message list option" where
  "publish_telemetry now tenant sid fps kbps codec =
     (case fps of
        Fin a \<Rightarrow>
          Some [(''hydra.v1.'' @ tenant @ ''.cameras.'' @ sid @ ''.telemetry'',
                 JObj [(''stream_id'', JStr sid), (''tenant_id'', JStr tenant), (''fps'', JNum fps),
                       (''bitrate_kbps'', JNum (f_of_int kbps)), (''codec'', JStr codec),
                       (''timestamp'', JNum (f_of_int (unix_milli now))), (''status'', JStr ''online'')])]
      | _ \<Rightarrow> None)"

definition publish_recording_segment ::
  "(gotime \<Rightarrow> string) \<Rightarrow> string \<Rightarrow> string \<Rightarrow> string \<Rightarrow> string \<Rightarrow> gotime \<Rightarrow> gotime \<Rightarrow> int \<Rightarrow> int
   \<Rightarrow> message list" where
  "publish_recording_segment fmt_time tenant0 cam mode0 key start stop dur sz =
     (let tenant = publish_tenant tenant0;
          mode = (if mode0 = [] then ''motion'' else mode0);
          payload = JObj [(''tenant_id'', JStr tenant), (''camera_id'', JStr cam),
                          (''recording_mode'', JStr mode), (''s3_key'', JStr key),
                          (''start_time'', JStr (fmt_time start)), (''end_time'', JStr (fmt_time stop)),
                          (''duration_seconds'', JNum (f_of_int dur)),
                          (''file_size_bytes'', JNum (f_of_int sz))]
      in [(''hydra.recordings.segment'', payload),
          (''hydra.v1.'' @ tenant @ ''.cameras.'' @ cam @ ''.recordings.segment'', payload)])"

section \<open>The connection\<close>

text \<open>
  What \<^verbatim>\<open>nats.Connect\<close> is given, with durations in nanoseconds; \<open>dial\<close> is the library's answer, a
  connection or the text of its error. \<^verbatim>\<open>Close\<close> hands the connection back to the library, if there is one.
\<close>

record nats_options =
  no_url :: string
  no_name :: string
  no_max_reconnects :: int
  no_reconnect_wait :: int
  no_ping_interval :: int
  no_max_pings :: int

definition publisher_options :: "string \<Rightarrow> nats_options" where
  "publisher_options url =
     \<lparr>no_url = url, no_name = ''HydraStream-IngestEngine'', no_max_reconnects = - 1,
      no_reconnect_wait = 2 * second, no_ping_interval = 20 * second, no_max_pings = 3\<rparr>"

definition new_stream_nats_publisher ::
  "(nats_options \<Rightarrow> string + 'conn) \<Rightarrow> string \<Rightarrow> go_error + 'conn option" where
  "new_stream_nats_publisher dial url =
     (case dial (publisher_options url) of
        Inl e \<Rightarrow> Inl (ErrNew (''failed to connect to NATS from HydraStream: '' @ e))
      | Inr nc \<Rightarrow> Inr (Some nc))"

definition close_publisher :: "'conn option \<Rightarrow> 'conn list" where
  "close_publisher nc = (case nc of None \<Rightarrow> [] | Some c \<Rightarrow> [c])"

section \<open>Which subjects a tenant's events use\<close>

lemma camera_subject_inject:
  "length t = length t' \<Longrightarrow> camera_subject t sid = camera_subject t' sid' \<Longrightarrow> t = t' \<and> sid = sid'"
  by (simp add: camera_subject_def)

end
