(* ===== verification/Ingestor.thy ===== *)
theory Ingestor
  imports RtspClient NatsPublisher
begin

text \<open>
  \<^verbatim>\<open>internal/adapters/secondary/ingest/rtsp_ingestor.go\<close> and \<^verbatim>\<open>rtsp_worker.go\<close>: the table of ingest
  sessions, and the worker goroutine each session runs. The table's operations are functions under
  its mutex; the worker is a step relation, since its connection, the ticker, the context and
  \<^verbatim>\<open>StopIngest\<close> act on the session in any order.
\<close>

section \<open>The session table\<close>

record ingestor =
  in_sessions :: "string \<rightharpoonup> ingest_session"
  in_publisher :: bool

definition new_rtsp_ingestor :: ingestor where
  "new_rtsp_ingestor = \<lparr>in_sessions = Map.empty, in_publisher = False\<rparr>"

definition set_publisher :: "bool \<Rightarrow> ingestor \<Rightarrow> ingestor" where
  "set_publisher p r = r\<lparr>in_publisher := p\<rparr>"

definition new_session :: "gotime \<Rightarrow> stream \<Rightarrow> ingest_session" where
  "new_session now st =
     \<lparr>ig_stream_id = st_stream_id st, ig_source_url = st_source_url st, ig_status = ''connecting'',
      ig_frames = 0, ig_bytes = 0, ig_last_frame = now, ig_connected = False, ig_err = None\<rparr>"

text \<open>\<^verbatim>\<open>StartIngest\<close>; the flag says whether a worker was started.\<close>

definition start_ingest :: "gotime \<Rightarrow> stream \<Rightarrow> ingestor \<Rightarrow> bool \<times> ingestor" where
  "start_ingest now st r =
     (case in_sessions r (st_stream_id st) of
        Some _ \<Rightarrow> (False, r)
      | None \<Rightarrow> (True, r\<lparr>in_sessions := (in_sessions r)(st_stream_id st \<mapsto> new_session now st)\<rparr>))"

definition stop_ingest :: "string \<Rightarrow> ingestor \<Rightarrow> go_error + (ingest_session \<times> ingestor)" where
  "stop_ingest sid r =
     (case in_sessions r sid of
        None \<Rightarrow> Inl ErrStreamNotFound
      | Some s \<Rightarrow> Inr (s\<lparr>ig_status := ''stopped'', ig_connected := False\<rparr>,
                      r\<lparr>in_sessions := (in_sessions r)(sid := None)\<rparr>))"

definition session_stats :: "gotime \<Rightarrow> ingest_session \<Rightarrow> ingest_stats" where
  "session_stats now s =
     (let elapsed = dur_seconds (time_sub now (ig_last_frame s));
          fps = (if flt (rnd 3) elapsed \<and> ig_status s \<noteq> ''streaming'' then Fin 0 else rnd 30);
          kbps = fdiv (fdiv (fmul (f_of_int (uint (ig_bytes s))) (rnd 8)) (rnd 1024))
                   (fmax (rnd 1) elapsed)
      in \<lparr>is_stream_id = ig_stream_id s, is_status = ig_status s, is_ingest_fps = fps,
          is_bitrate_kbps = fmax (rnd 1200) kbps, is_frames_total = ig_frames s,
          is_bytes_total = ig_bytes s, is_last_frame_time = ig_last_frame s,
          is_error_msg = (case ig_err s of None \<Rightarrow> [] | Some e \<Rightarrow> e)\<rparr>)"

definition get_ingest_stats :: "gotime \<Rightarrow> string \<Rightarrow> ingestor \<Rightarrow> go_error + ingest_stats" where
  "get_ingest_stats now sid r =
     (case in_sessions r sid of None \<Rightarrow> Inl ErrStreamNotFound | Some s \<Rightarrow> Inr (session_stats now s))"

definition list_active_ingests :: "gotime \<Rightarrow> string list \<Rightarrow> ingestor \<Rightarrow> ingest_stats list" where
  "list_active_ingests now ord r = map (session_stats now) (range_map ord (in_sessions r))"

definition sess_get :: "ingestor \<Rightarrow> string \<Rightarrow> ingest_session option" where
  "sess_get r sid = in_sessions r sid"

definition sess_put :: "string \<Rightarrow> ingest_session \<Rightarrow> ingestor \<Rightarrow> ingestor" where
  "sess_put sid s r = r\<lparr>in_sessions := (in_sessions r)(sid \<mapsto> s)\<rparr>"

definition sess_drop :: "string \<Rightarrow> ingestor \<Rightarrow> ingestor" where
  "sess_drop sid r = r\<lparr>in_sessions := (in_sessions r)(sid := None)\<rparr>"

interpretation sessions: keyed_table sess_get sess_put sess_drop
  by unfold_locales (simp_all add: sess_get_def sess_put_def sess_drop_def)

lemma start_ingest_eq:
  "start_ingest now st r =
     (case sess_get r (st_stream_id st) of Some _ \<Rightarrow> (False, r)
      | None \<Rightarrow> (True, sess_put (st_stream_id st) (new_session now st) r))"
  by (simp add: start_ingest_def sess_get_def sess_put_def split: option.split)

lemma stop_ingest_eq:
  "stop_ingest sid r =
     (case sess_get r sid of None \<Rightarrow> Inl ErrStreamNotFound
      | Some s \<Rightarrow> Inr (s\<lparr>ig_status := ''stopped'', ig_connected := False\<rparr>, sess_drop sid r))"
  by (simp add: stop_ingest_def sess_get_def sess_drop_def split: option.split)

lemma get_ingest_stats_eq:
  "get_ingest_stats now sid r =
     (case sess_get r sid of None \<Rightarrow> Inl ErrStreamNotFound | Some s \<Rightarrow> Inr (session_stats now s))"
  by (simp add: get_ingest_stats_def sess_get_def)

section \<open>The synthetic pump\<close>

definition pump_interval :: "float64 \<Rightarrow> duration" where
  "pump_interval fps = f_to_i64 (fdiv (rnd 1000000000) (if fle fps (Fin 0) then rnd 30 else fps))"

text \<open>\<^verbatim>\<open>time.NewTicker\<close> panics if the interval is not positive.\<close>

definition start_pump :: "float64 \<Rightarrow> ingest_session \<Rightarrow> ingest_session outcome" where
  "start_pump fps s =
     (if pump_interval fps \<le> 0 then Panics else Returns (s\<lparr>ig_status := ''streaming''\<rparr>))"

definition pump_tick :: "gotime \<Rightarrow> ingest_session \<Rightarrow> ingest_session" where
  "pump_tick now s = count_frame now 45000 s"

section \<open>The worker\<close>

datatype camera_status_event =
    CameraOffline string string string
  | CameraOnline string string

datatype worker_phase =
    Deciding | Connecting | Streaming | Failed | Pumping | PumpingForever | Finished | Crashed

record worker =
  wk_session :: ingest_session
  wk_phase :: worker_phase
  wk_logged :: bool
  wk_cancelled :: bool
  wk_events :: "camera_status_event list"

definition uses_rtsp :: "stream \<Rightarrow> bool" where
  "uses_rtsp st \<longleftrightarrow> has_prefix (to_lower (st_source_url st)) ''rtsp://'' \<and>
     st_decoding_engine st \<noteq> ''mjpeg_and_wsp''"

definition begin_worker :: "gotime \<Rightarrow> stream \<Rightarrow> worker" where
  "begin_worker now st =
     (let s = new_session now st;
          w = \<lparr>wk_session = s, wk_phase = Deciding, wk_logged = False, wk_cancelled = False,
               wk_events = []\<rparr>
      in if uses_rtsp st then w
         else case start_pump (st_ingest_fps st) s of
           Panics \<Rightarrow> w\<lparr>wk_phase := Crashed\<rparr>
         | Returns s' \<Rightarrow> w\<lparr>wk_session := s', wk_phase := PumpingForever\<rparr>)"

text \<open>The handshake succeeded: lines 175-186 of \<^verbatim>\<open>rtsp_client.go\<close>; the tenant published is empty.\<close>

definition worker_online :: "bool \<Rightarrow> worker \<Rightarrow> worker" where
  "worker_online pub w =
     w\<lparr>wk_session := (wk_session w)\<lparr>ig_status := ''streaming'', ig_err := None\<rparr>,
       wk_phase := Streaming,
       wk_events := wk_events w @
         (if pub then [CameraOnline [] (ig_stream_id (wk_session w))] else [])\<rparr>"

text \<open>The connection attempt or the stream ended with an error (lines 29-44 of \<^verbatim>\<open>rtsp_worker.go\<close>).\<close>

definition worker_failed :: "bool \<Rightarrow> stream \<Rightarrow> string \<Rightarrow> worker \<Rightarrow> worker" where
  "worker_failed pub st msg w =
     (let w1 = w\<lparr>wk_session := (wk_session w)\<lparr>ig_status := ''reconnecting'', ig_err := Some msg\<rparr>,
                 wk_phase := Failed\<rparr>
      in if \<not> wk_logged w1 then
           w1\<lparr>wk_logged := True,
              wk_events := wk_events w1 @
                (if pub then [CameraOffline (st_tenant_id st) (ig_stream_id (wk_session w1)) msg] else [])\<rparr>
         else w1)"

definition worker_pump :: "stream \<Rightarrow> worker \<Rightarrow> worker" where
  "worker_pump st w =
     (case start_pump (st_ingest_fps st) (wk_session w) of
        Panics \<Rightarrow> w\<lparr>wk_phase := Crashed\<rparr>
      | Returns s' \<Rightarrow> w\<lparr>wk_session := s', wk_phase := Pumping\<rparr>)"

text \<open>
  One step of a session. \<open>pub\<close>: a publisher is set. A read or write error may end any connection
  phase; the pump ends when its ten seconds or the session's context are over; \<^verbatim>\<open>StopIngest\<close>
  cancels the context and marks the session at any moment.
\<close>

inductive worker_step :: "bool \<Rightarrow> stream \<Rightarrow> worker \<Rightarrow> worker \<Rightarrow> bool" for pub st where
  ws_finish: "wk_phase w = Deciding \<Longrightarrow> wk_cancelled w \<Longrightarrow> worker_step pub st w (w\<lparr>wk_phase := Finished\<rparr>)"
| ws_connect: "wk_phase w = Deciding \<Longrightarrow> \<not> wk_cancelled w \<Longrightarrow>
    worker_step pub st w (w\<lparr>wk_phase := Connecting\<rparr>)"
| ws_dial: "wk_phase w = Connecting \<Longrightarrow>
    worker_step pub st w (w\<lparr>wk_session := (wk_session w)\<lparr>ig_connected := True\<rparr>\<rparr>)"
| ws_online: "wk_phase w = Connecting \<Longrightarrow> worker_step pub st w (worker_online pub w)"
| ws_frame: "wk_phase w = Streaming \<Longrightarrow>
    worker_step pub st w (w\<lparr>wk_session := count_frame now n (wk_session w)\<rparr>)"
| ws_return: "wk_phase w = Streaming \<Longrightarrow> wk_cancelled w \<Longrightarrow>
    worker_step pub st w (w\<lparr>wk_phase := Deciding, wk_logged := False\<rparr>)"
| ws_fail: "wk_phase w = Connecting \<or> wk_phase w = Streaming \<Longrightarrow>
    worker_step pub st w (worker_failed pub st msg w)"
| ws_pump: "wk_phase w = Failed \<Longrightarrow> worker_step pub st w (worker_pump st w)"
| ws_tick: "wk_phase w = Pumping \<or> wk_phase w = PumpingForever \<Longrightarrow>
    worker_step pub st w (w\<lparr>wk_session := pump_tick now (wk_session w)\<rparr>)"
| ws_pump_end: "wk_phase w = Pumping \<Longrightarrow> worker_step pub st w (w\<lparr>wk_phase := Deciding\<rparr>)"
| ws_pump_stop: "wk_phase w = PumpingForever \<Longrightarrow> wk_cancelled w \<Longrightarrow>
    worker_step pub st w (w\<lparr>wk_phase := Finished\<rparr>)"
| ws_stop: "worker_step pub st w (w\<lparr>wk_cancelled := True,
    wk_session := (wk_session w)\<lparr>ig_status := ''stopped'', ig_connected := False\<rparr>\<rparr>)"

inductive worker_reach :: "bool \<Rightarrow> stream \<Rightarrow> worker \<Rightarrow> bool" for pub st where
  wr_begin: "worker_reach pub st (begin_worker now st)"
| wr_step: "worker_reach pub st w \<Longrightarrow> worker_step pub st w w' \<Longrightarrow> worker_reach pub st w'"

inductive_cases worker_stepE: "worker_step pub st w w'"

definition is_offline :: "camera_status_event \<Rightarrow> bool" where
  "is_offline e = (case e of CameraOffline _ _ _ \<Rightarrow> True | CameraOnline _ _ \<Rightarrow> False)"

lemma is_offline_simps [simp]: "is_offline (CameraOffline t i m)" "\<not> is_offline (CameraOnline t i)"
  by (simp_all add: is_offline_def)

definition offline_count :: "worker \<Rightarrow> nat" where
  "offline_count w = length (filter is_offline (wk_events w))"

text \<open>
  What holds in every state of a worker: an offline event was published only if a failure was
  logged, or the worker is about to finish; failures leave their text in the session; and the pump
  that stands in for a camera marks the session as streaming.
\<close>

definition worker_inv :: "worker \<Rightarrow> bool" where
  "worker_inv w \<longleftrightarrow>
     offline_count w \<le> 1 \<and>
     (0 < offline_count w \<longrightarrow> wk_logged w \<or> (wk_cancelled w \<and> wk_phase w \<in> {Deciding, Finished})) \<and>
     (wk_phase w = Failed \<or> wk_phase w = Pumping \<longrightarrow> ig_err (wk_session w) \<noteq> None) \<and>
     (wk_phase w = Pumping \<and> \<not> wk_cancelled w \<longrightarrow> ig_status (wk_session w) = ''streaming'')"

lemma worker_inv_begin: "worker_inv (begin_worker now st)"
  by (auto simp: worker_inv_def begin_worker_def offline_count_def Let_def start_pump_def)

lemma count_frame_frame [simp]:
  "ig_err (count_frame now n s) = ig_err s" "ig_status (count_frame now n s) = ig_status s"
  "ig_stream_id (count_frame now n s) = ig_stream_id s"
  by (simp_all add: count_frame_def)

lemma worker_inv_step: "worker_step pub st w w' \<Longrightarrow> worker_inv w \<Longrightarrow> worker_inv w'"
  by (erule worker_stepE)
    (auto simp: worker_inv_def offline_count_def worker_online_def worker_failed_def worker_pump_def
      start_pump_def pump_tick_def Let_def)

lemma worker_inv_reach: "worker_reach pub st w \<Longrightarrow> worker_inv w"
  by (induction rule: worker_reach.induct) (auto intro: worker_inv_begin worker_inv_step)

section \<open>Properties\<close>

text \<open>
  C32: A session is announced offline at most once in its life, however often the camera fails and
  comes back: the flag that silences repeated reports is only cleared when the context is done,
  never when the camera has been online in between.
\<close>

theorem offline_announced_once:
  assumes "worker_reach pub st w"
  shows "length (filter is_offline (wk_events w)) \<le> 1"
  using worker_inv_reach [OF assms] by (simp add: worker_inv_def offline_count_def)

definition rtsp_stream :: stream where
  "rtsp_stream =
     zero_stream\<lparr>st_tenant_id := ''acme'', st_stream_id := ''cam'', st_source_url := ''rtsp://10.0.0.9/live'',
       st_ingest_fps := Fin 25\<rparr>"

lemma rtsp_stream_begin:
  "begin_worker 5 rtsp_stream =
     \<lparr>wk_session = new_session 5 rtsp_stream, wk_phase = Deciding, wk_logged = False,
      wk_cancelled = False, wk_events = []\<rparr>"
proof -
  have "has_prefix (to_lower ''rtsp://10.0.0.9/live'') ''rtsp://''" by code_simp
  then have "uses_rtsp rtsp_stream" by (simp add: uses_rtsp_def rtsp_stream_def zero_stream_def)
  then show ?thesis by (simp add: begin_worker_def)
qed

text \<open>A camera that comes up, fails, comes up again and fails again.\<close>

definition flaky :: "nat \<Rightarrow> worker" where
  "flaky n =
     (let w0 = begin_worker 5 rtsp_stream;
          up = (\<lambda>w. worker_online True (w\<lparr>wk_phase := Connecting\<rparr>));
          down = (\<lambda>w. worker_failed True rtsp_stream ''EOF'' w);
          again = (\<lambda>w. (worker_pump rtsp_stream w)\<lparr>wk_phase := Deciding\<rparr>)
      in if n = 0 then down (up w0) else down (up (again (down (up w0)))))"

lemma pump_25: "start_pump (st_ingest_fps rtsp_stream) s = Returns (s\<lparr>ig_status := ''streaming''\<rparr>)"
  by (simp add: start_pump_def pump_interval_def rtsp_stream_def fle_def)

lemma flaky_reach:
  assumes "worker_reach True rtsp_stream w" and "wk_phase w = Deciding" and "\<not> wk_cancelled w"
  shows "worker_reach True rtsp_stream
    (worker_failed True rtsp_stream ''EOF'' (worker_online True (w\<lparr>wk_phase := Connecting\<rparr>)))"
proof -
  have "worker_reach True rtsp_stream (w\<lparr>wk_phase := Connecting\<rparr>)"
    using assms by (blast intro: wr_step ws_connect)
  then have "worker_reach True rtsp_stream (worker_online True (w\<lparr>wk_phase := Connecting\<rparr>))"
    by (rule wr_step) (simp add: ws_online)
  then show ?thesis by (rule wr_step) (simp add: ws_fail worker_online_def)
qed

lemma flaky_again:
  assumes "worker_reach True rtsp_stream w" and "wk_phase w = Failed"
  shows "worker_reach True rtsp_stream ((worker_pump rtsp_stream w)\<lparr>wk_phase := Deciding\<rparr>)"
proof -
  have "worker_reach True rtsp_stream (worker_pump rtsp_stream w)"
    using assms by (blast intro: wr_step ws_pump)
  then show ?thesis by (rule wr_step, intro ws_pump_end) (simp add: worker_pump_def pump_25)
qed

lemma failed_simps [simp]:
  "wk_phase (worker_failed pub st msg w) = Failed"
  "wk_cancelled (worker_failed pub st msg w) = wk_cancelled w"
  "wk_cancelled (worker_online pub w) = wk_cancelled w"
  by (simp_all add: worker_failed_def worker_online_def Let_def)

lemma flaky_1_reach: "worker_reach True rtsp_stream (flaky 1)"
proof -
  have b: "worker_reach True rtsp_stream (begin_worker 5 rtsp_stream)" by (rule wr_begin)
  have d: "worker_reach True rtsp_stream
      (worker_failed True rtsp_stream ''EOF'' (worker_online True ((begin_worker 5 rtsp_stream)\<lparr>wk_phase := Connecting\<rparr>)))"
    by (rule flaky_reach [OF b]) (simp_all add: rtsp_stream_begin)
  show ?thesis
    unfolding flaky_def Let_def using flaky_reach [OF flaky_again [OF d]]
    by (simp add: worker_pump_def pump_25 rtsp_stream_begin)
qed

theorem offline_announced_once_witness:
  "length (filter is_offline (wk_events (flaky 1))) \<le> 1 \<and>
   wk_events (flaky 1) = [CameraOnline [] ''cam'', CameraOffline ''acme'' ''cam'' ''EOF'', CameraOnline [] ''cam'']"
proof
  show "length (filter is_offline (wk_events (flaky 1))) \<le> 1"
    by (rule offline_announced_once [OF flaky_1_reach])
  show "wk_events (flaky 1) = [CameraOnline [] ''cam'', CameraOffline ''acme'' ''cam'' ''EOF'', CameraOnline [] ''cam'']"
    by (simp add: flaky_def Let_def rtsp_stream_begin worker_online_def worker_failed_def
        worker_pump_def pump_25 new_session_def)
      (simp add: rtsp_stream_def zero_stream_def)
qed

text \<open>
  While the camera is down and the synthetic pump stands in for it, the session still holds the
  connection error, yet its statistics say \<open>streaming\<close> at 30 frames per second: GetIngestStats
  does not show the outage.
\<close>

theorem outage_reported_streaming:
  assumes "worker_reach pub st w" and "wk_phase w = Pumping" and "\<not> wk_cancelled w"
  shows "ig_err (wk_session w) \<noteq> None \<and>
    is_status (session_stats now (wk_session w)) = ''streaming'' \<and>
    is_ingest_fps (session_stats now (wk_session w)) = Fin 30"
  using worker_inv_reach [OF assms(1)] assms(2,3)
  by (simp add: worker_inv_def session_stats_def Let_def)

definition first_outage :: worker where
  "first_outage = worker_pump rtsp_stream (worker_failed True rtsp_stream ''dial TCP failed''
     ((begin_worker 5 rtsp_stream)\<lparr>wk_phase := Connecting\<rparr>))"

theorem outage_reported_streaming_witness:
  "ig_err (wk_session first_outage) \<noteq> None \<and>
   is_status (session_stats 6 (wk_session first_outage)) = ''streaming''"
proof -
  have "worker_reach True rtsp_stream ((begin_worker 5 rtsp_stream)\<lparr>wk_phase := Connecting\<rparr>)"
    by (rule wr_step [OF wr_begin ws_connect]) (simp_all add: rtsp_stream_begin)
  then have "worker_reach True rtsp_stream (worker_failed True rtsp_stream ''dial TCP failed''
     ((begin_worker 5 rtsp_stream)\<lparr>wk_phase := Connecting\<rparr>))"
    by (rule wr_step) (simp add: ws_fail)
  then have r: "worker_reach True rtsp_stream first_outage"
    unfolding first_outage_def by (rule wr_step) (simp add: ws_pump)
  show ?thesis
    using outage_reported_streaming [OF r, of 6]
    by (simp add: first_outage_def worker_pump_def pump_25 rtsp_stream_begin)
qed

text \<open>
  The pump's frame rate is not bounded: a stream whose ingest_fps is a finite number of at least
  2 * 10^9 (the field comes from the client) makes the ticker interval zero, and NewTicker panics
  in the worker goroutine; for rates between 1 and 10^9 it starts.
\<close>

theorem pump_rate_bounds:
  "(2000000000 \<le> a \<longrightarrow> start_pump (Fin a) s = Panics) \<and>
   (1 \<le> a \<and> a \<le> 1000000000 \<longrightarrow> start_pump (Fin a) s = Returns (s\<lparr>ig_status := ''streaming''\<rparr>))"
proof (intro conjI impI)
  assume a: "2000000000 \<le> a"
  have "0 \<le> 1000000000 / a" "1000000000 / a \<le> 1 / 2" using a by (simp_all add: field_simps)
  then obtain v where v: "rnd (1000000000 / a) = Fin v" "0 \<le> v" "v \<le> 1 / 2"
    using rnd_between [of 0 "1000000000 / a" "1 / 2"] rnd_dyadic [of 1 1] by auto
  have "\<lfloor>v\<rfloor> = 0" using v by (simp add: floor_eq_iff)
  then show "start_pump (Fin a) s = Panics"
    using a v by (simp add: start_pump_def pump_interval_def fle_def)
next
  assume a: "1 \<le> a \<and> a \<le> 1000000000"
  have "1 \<le> 1000000000 / a" "1000000000 / a \<le> 1000000000" using a by (simp_all add: field_simps)
  then obtain v where v: "rnd (1000000000 / a) = Fin v" "1 \<le> v" "v \<le> 1000000000"
    using rnd_between [of 1 "1000000000 / a" 1000000000] by auto
  have "1 \<le> \<lfloor>v\<rfloor>" "\<lfloor>v\<rfloor> \<le> 1000000000" using v by (simp_all add: le_floor_iff floor_le_iff)
  then show "start_pump (Fin a) s = Returns (s\<lparr>ig_status := ''streaming''\<rparr>)"
    using a v by (simp add: start_pump_def pump_interval_def fle_def Let_def)
qed

theorem pump_rate_bounds_witness:
  "start_pump (Fin 3000000000) sample_session = Panics"
  using pump_rate_bounds [of 3000000000 sample_session] by simp

text \<open>
  The session table: the first StartIngest of a stream creates a connecting session with its
  source URL and starts a worker; another StartIngest with the same id, whatever its source URL,
  changes nothing and starts nothing; StopIngest removes exactly that session, after which its
  statistics and a second StopIngest are ErrStreamNotFound.
\<close>

theorem ingest_table_lifecycle:
  assumes "sess_get r (st_stream_id st) = None" and "st_stream_id st' = st_stream_id st"
    and "start_ingest now st r = (b, r1)"
  shows "b \<and> sess_get r1 (st_stream_id st) = Some (new_session now st) \<and>
    start_ingest now' st' r1 = (False, r1) \<and>
    (\<exists>s r2. stop_ingest (st_stream_id st) r1 = Inr (s, r2) \<and> sess_get r2 = sess_get r \<and>
       get_ingest_stats now' (st_stream_id st) r2 = Inl ErrStreamNotFound \<and>
       stop_ingest (st_stream_id st) r2 = Inl ErrStreamNotFound)"
proof -
  have r1: "b" "r1 = sess_put (st_stream_id st) (new_session now st) r"
    using assms(1,3) by (auto simp: start_ingest_eq)
  have g: "sess_get r1 (st_stream_id st) = Some (new_session now st)"
    by (simp add: r1 sessions.get_put)
  have same: "sess_get (sess_drop (st_stream_id st) r1) = sess_get r"
    using assms(1) by (auto simp: r1 sessions.get_del sessions.get_put fun_eq_iff)
  show ?thesis
    using r1(1) g assms(1,2) same
    by (simp add: start_ingest_eq stop_ingest_eq get_ingest_stats_eq)
qed

theorem ingest_table_lifecycle_witness:
  "fst (start_ingest 6 (rtsp_stream\<lparr>st_source_url := ''rtsp://other''\<rparr>)
     (snd (start_ingest 5 rtsp_stream new_rtsp_ingestor))) = False"
proof -
  have free: "sess_get new_rtsp_ingestor (st_stream_id rtsp_stream) = None"
    by (simp add: sess_get_def new_rtsp_ingestor_def)
  have same: "st_stream_id (rtsp_stream\<lparr>st_source_url := ''rtsp://other''\<rparr>) = st_stream_id rtsp_stream"
    by simp
  show ?thesis
    using ingest_table_lifecycle [OF free same prod.collapse [symmetric], of 5 6] by simp
qed

text \<open>
  The online event is published without a tenant, so for a stream of any tenant whose id is not
  empty and not the default one, the offline event and the online event of the same camera go to
  different subjects: the tenant is told about the failure and never about the recovery.
\<close>

theorem online_event_other_tenant:
  assumes "st_tenant_id st \<noteq> []" and "st_tenant_id st \<noteq> default_tenant"
    and "length (st_tenant_id st) = length default_tenant" and "\<not> wk_logged w"
  shows "\<exists>msgs_off msgs_on sid.
    wk_events (worker_failed True st msg w) = wk_events w @ [CameraOffline (st_tenant_id st) sid msg] \<and>
    wk_events (worker_online True w) = wk_events w @ [CameraOnline [] sid] \<and>
    msgs_off = map fst (publish_camera_offline f t1 t2 t3 (st_tenant_id st) sid msg) \<and>
    msgs_on = map fst (publish_camera_online f t1 t2 t3 [] sid) \<and>
    camera_subject (st_tenant_id st) sid \<in> set msgs_off \<and>
    camera_subject (st_tenant_id st) sid \<notin> set msgs_on"
proof -
  let ?i = "ig_stream_id (wk_session w)"
  have "camera_subject default_tenant ?i \<noteq> camera_subject (st_tenant_id st) ?i"
    using camera_subject_inject [of default_tenant "st_tenant_id st" ?i ?i] assms(2,3) by auto
  moreover have "''hydra.v1.'' @ default_tenant @ ''.events.system.camera.online''
      \<noteq> camera_subject (st_tenant_id st) ?i"
    using assms(3) by (simp add: camera_subject_def)
  ultimately show ?thesis
    using assms(1,4)
    by (simp add: worker_failed_def worker_online_def Let_def publish_camera_offline_def
        publish_camera_online_def publish_tenant_def)
qed

definition uuid_stream :: stream where
  "uuid_stream = rtsp_stream\<lparr>st_tenant_id := ''00000000-0000-0000-0000-000000000002''\<rparr>"

theorem online_event_other_tenant_witness:
  "\<exists>sid. camera_subject (st_tenant_id uuid_stream) sid \<notin>
     set (map fst (publish_camera_online (\<lambda>_. []) 1 2 3 [] sid))"
  using online_event_other_tenant [of uuid_stream "begin_worker 5 rtsp_stream" "''EOF''" "\<lambda>_. []" 1 2 3]
  by (auto simp: uuid_stream_def default_tenant_def rtsp_stream_begin)

end
