(* ===== verification/StreamService.thy ===== *)
theory StreamService
  imports StreamRepo RingLogger FragmentRepo Ingestor
begin

text \<open>
  \<^verbatim>\<open>internal/application/stream_service.go\<close>, \<^verbatim>\<open>stream_service_fragments.go\<close> and
  \<^verbatim>\<open>stream_service_chaos.go\<close>: the application service over the stream repository, the fragment
  repository, the ingestor and the log collector. Its state is the state of these components, the
  WHEP sessions (theory Whep), the two histories of the dashboard (theory Telemetry), and the names
  of the files in the \<^verbatim>\<open>samples\<close> directory, which \<^verbatim>\<open>DeleteStream\<close> removes from. \<open>clock i\<close> is the
  \<open>i\<close>-th reading of the clock in an operation. The calls to the media engine
  (\<^verbatim>\<open>syncEngineStream\<close>, \<^verbatim>\<open>deleteEngineStream\<close>) are empty functions in the source.
\<close>

section \<open>State\<close>

record whep_session =
  wh_session_id :: string
  wh_stream_id :: string
  wh_sdp_offer :: string
  wh_sdp_answer :: string
  wh_candidates :: "string list"
  wh_upstream :: string
  wh_created :: gotime
  wh_expires :: gotime

record service =
  sv_repo :: stream_repo
  sv_frags :: "fragment_repo option"
  sv_ingestor :: "ingestor option"
  sv_log :: ring_logger
  sv_rec_publisher :: bool
  sv_published :: "message list"
  sv_history :: "float64 list"
  sv_lat_history :: "float64 list"
  sv_last_tick :: gotime
  sv_start_time :: gotime
  sv_whep :: "string \<rightharpoonup> whep_session"
  sv_whep_base :: string
  sv_samples :: "string set"

definition initial_history :: "float64 list" where
  "initial_history =
     map rnd [382 / 10, 445 / 10, 521 / 10, 48, 624 / 10, 589 / 10, 612 / 10]"

definition initial_lat_history :: "float64 list" where
  "initial_lat_history =
     map rnd [12 / 10, 14 / 10, 135 / 100, 142 / 100, 148 / 100, 139 / 100, 142 / 100]"

definition start_all :: "gotime \<Rightarrow> stream list \<Rightarrow> ingestor \<Rightarrow> ingestor" where
  "start_all now sts r = fold (\<lambda>st r. snd (start_ingest now st r)) sts r"

text \<open>
  \<^verbatim>\<open>NewStreamService\<close>: with an ingestor, every stream of the repository starts ingesting. \<open>base_env\<close>
  is \<^verbatim>\<open>MEDIAMTX_WHEP_URL\<close>; a panic of \<^verbatim>\<open>ListAll\<close> would be one of the constructor.
\<close>

definition new_stream_service ::
  "(nat \<Rightarrow> gotime) \<Rightarrow> string list \<Rightarrow> string \<Rightarrow> (string \<rightharpoonup> bytes) \<Rightarrow> string set
   \<Rightarrow> stream_repo \<Rightarrow> ingestor option \<Rightarrow> ring_logger option \<Rightarrow> service outcome" where
  "new_stream_service clock ord base_env files samples repo ing lg =
     (let url = (if base_env = [] then ''http://localhost:8889'' else base_env);
          s = \<lparr>sv_repo = repo, sv_frags = Some (new_fragment_repository ''recordings'' files),
               sv_ingestor = ing,
               sv_log = (case lg of Some l \<Rightarrow> l | None \<Rightarrow> new_ring_logger [1000]),
               sv_rec_publisher = False, sv_published = [], sv_history = initial_history,
               sv_lat_history = initial_lat_history, sv_last_tick = clock 1, sv_start_time = clock 0,
               sv_whep = Map.empty, sv_whep_base = trim_suffix url ''/'', sv_samples = samples\<rparr>
      in case ing of
           None \<Rightarrow> Returns s
         | Some r \<Rightarrow>
             (case repo_list_all ord repo of
                (Panics, _) \<Rightarrow> Panics
              | (Returns sts, repo') \<Rightarrow>
                  Returns (s\<lparr>sv_repo := repo', sv_ingestor := Some (start_all (clock 2) sts r)\<rparr>)))"

definition svc_log :: "gotime \<Rightarrow> log_level \<Rightarrow> string \<Rightarrow> string \<Rightarrow> service \<Rightarrow> service" where
  "svc_log now level compo msg s = s\<lparr>sv_log := record_log now level compo msg [] (sv_log s)\<rparr>"

section \<open>Streams\<close>

definition registered_msg :: "stream \<Rightarrow> string" where
  "registered_msg st =
     ''Stream '' @ [CHR 0x27] @ st_stream_id st @ [CHR 0x27] @ '' registered successfully (Codec: '' @
     st_codec st @ '', Ingest FPS: '' @ fmt_fixed 1 (st_ingest_fps st) @ '')''"

text \<open>\<^verbatim>\<open>RegisterStream\<close>: the error, the caller's stream as it was left, and the service.\<close>

definition register_stream ::
  "(nat \<Rightarrow> gotime) \<Rightarrow> stream \<Rightarrow> service \<Rightarrow> go_error option \<times> stream \<times> service" where
  "register_stream clock st s =
     (case validate_stream st of
        Some e \<Rightarrow>
          (Some e, st,
           svc_log (clock 0) LogLevelWarn ''validation'' (''Stream validation failed: '' @ error_text e) s)
      | None \<Rightarrow>
          (case repo_save (clock 0) st (sv_repo s) of
             Inl e \<Rightarrow>
               (Some e, st, svc_log (clock 1) LogLevelError ''storage''
                  (''Failed to save stream '' @ [CHR 0x27] @ st_stream_id st @ [CHR 0x27] @ '': '' @ error_text e) s)
           | Inr (st', repo') \<Rightarrow>
               let s1 = s\<lparr>sv_repo := repo'\<rparr>;
                   s2 = (case sv_ingestor s1 of
                           None \<Rightarrow> s1
                         | Some r \<Rightarrow> s1\<lparr>sv_ingestor := Some (snd (start_ingest (clock 1) st' r))\<rparr>)
               in (None, st', svc_log (clock 2) LogLevelInfo ''stream'' (registered_msg st') s2)))"

definition get_stream :: "string \<Rightarrow> service \<Rightarrow> go_error + stream" where
  "get_stream sid s = (if sid = [] then Inl ErrInvalidStream else repo_find sid (sv_repo s))"

definition list_streams ::
  "string list \<Rightarrow> string \<Rightarrow> string \<Rightarrow> string \<Rightarrow> int \<Rightarrow> int \<Rightarrow> service
   \<Rightarrow> (stream list \<times> int) outcome \<times> service" where
  "list_streams ord query tenant sort_by page limit s =
     (let (res, repo') = list_filtered ord query tenant sort_by page limit (sv_repo s)
      in (res, s\<lparr>sv_repo := repo'\<rparr>))"

text \<open>
  \<^verbatim>\<open>filepath.Glob\<close> on the names of one directory, for patterns of \<^verbatim>\<open>*\<close>, \<^verbatim>\<open>?\<close> and plain characters.
  The ids the handlers accept contain none of the pattern characters \<^verbatim>\<open>*?[\<close> and no backslash.
\<close>

fun glob_match :: "string \<Rightarrow> string \<Rightarrow> bool" where
  "glob_match [] name = (name = [])"
| "glob_match (p # ps) [] = (p = CHR ''*'' \<and> glob_match ps [])"
| "glob_match (p # ps) (c # cs) =
     (if p = CHR ''*'' then glob_match ps (c # cs) \<or> (c \<noteq> CHR ''/'' \<and> glob_match (p # ps) cs)
      else if p = CHR ''?'' then c \<noteq> CHR ''/'' \<and> glob_match ps cs
      else p = c \<and> glob_match ps cs)"

definition remove_samples :: "string \<Rightarrow> string set \<Rightarrow> string set" where
  "remove_samples base samples =
     {f \<in> samples. f \<noteq> base @ ''.jpg'' \<and> \<not> glob_match (''*'' @ base @ ''*.jpg'') f}"

definition delete_stream ::
  "(nat \<Rightarrow> gotime) \<Rightarrow> string \<Rightarrow> service \<Rightarrow> go_error option \<times> service" where
  "delete_stream clock sid s =
     (if sid = [] then (Some ErrInvalidStream, s)
      else
        let s1 = (case sv_ingestor s of
                    None \<Rightarrow> s
                  | Some r \<Rightarrow> (case stop_ingest sid r of
                                Inl _ \<Rightarrow> s
                              | Inr (_, r') \<Rightarrow> s\<lparr>sv_ingestor := Some r'\<rparr>));
            s2 = s1\<lparr>sv_samples := remove_samples (path_base sid) (sv_samples s1)\<rparr>;
            s3 = svc_log (clock 0) LogLevelInfo ''stream''
                   (''Stream '' @ [CHR 0x27] @ sid @ [CHR 0x27] @ '' unregistered and ingest stopped'') s2
        in case repo_delete sid (sv_repo s3) of
             Inl e \<Rightarrow> (Some e, s3)
           | Inr repo' \<Rightarrow> (None, s3\<lparr>sv_repo := repo'\<rparr>))"

definition svc_ingest_stats :: "gotime \<Rightarrow> string \<Rightarrow> service \<Rightarrow> go_error + ingest_stats" where
  "svc_ingest_stats now sid s =
     (case sv_ingestor s of None \<Rightarrow> Inl ErrStreamNotFound | Some r \<Rightarrow> get_ingest_stats now sid r)"

definition svc_update_consumer ::
  "(nat \<Rightarrow> gotime) \<Rightarrow> string \<Rightarrow> string \<Rightarrow> float64 \<Rightarrow> string \<Rightarrow> service
   \<Rightarrow> go_error option \<times> service" where
  "svc_update_consumer clock sid atype fps fmt s =
     (if sid = [] \<or> atype = [] then (Some ErrInvalidStream, s)
      else
        let s1 = svc_log (clock 0) LogLevelInfo ''consumer''
                   (''Updated consumer '' @ [CHR 0x27] @ atype @ [CHR 0x27] @ '' on stream '' @ [CHR 0x27] @ sid @ [CHR 0x27] @
                    '' (Target FPS: '' @ fmt_fixed 1 fps @ '', Format: '' @ fmt @ '')'') s
        in case update_consumer_fps (clock 1) sid atype fps fmt (sv_repo s1) of
             Inl e \<Rightarrow> (Some e, s1)
           | Inr repo' \<Rightarrow> (None, s1\<lparr>sv_repo := repo'\<rparr>))"

section \<open>Recording fragments\<close>

definition saved_fragment_msg :: "fragment \<Rightarrow> string" where
  "saved_fragment_msg f =
     ''Saved recording fragment '' @ [CHR 0x27] @ fr_id f @ [CHR 0x27] @ '' for stream '' @ [CHR 0x27] @
     fr_stream_id f @ [CHR 0x27] @ '' ('' @ fmt_fixed 1 (fr_duration f) @ ''s, '' @ int_str (fr_size f) @ '' bytes)''"

definition save_recording_fragment ::
  "(nat \<Rightarrow> gotime) \<Rightarrow> (gotime \<Rightarrow> string) \<Rightarrow> write_result \<Rightarrow> (string \<rightharpoonup> bytes) \<Rightarrow> fragment \<Rightarrow> bytes
   \<Rightarrow> service \<Rightarrow> go_error option \<times> fragment \<times> service" where
  "save_recording_fragment clock fmt_time wr files frag data s0 =
     (let s = (if sv_frags s0 = None
               then s0\<lparr>sv_frags := Some (new_fragment_repository ''recordings'' files)\<rparr> else s0)
      in case validate_fragment (clock 0) (clock 1) frag of
           (Some e, f) \<Rightarrow>
             (Some e, f, svc_log (clock 2) LogLevelWarn ''recordings''
                (''Recording fragment validation failed: '' @ error_text e) s)
         | (None, f) \<Rightarrow>
             (case frag_save (clock 2) (clock 3) (clock 4) wr f data (the (sv_frags s)) of
                (Some e, f', fr) \<Rightarrow>
                  (Some e, f', svc_log (clock 5) LogLevelError ''recordings''
                     (''Failed to save fragment for stream '' @ [CHR 0x27] @ fr_stream_id f' @ [CHR 0x27] @ '': '' @
                      error_text e) (s\<lparr>sv_frags := Some fr\<rparr>))
              | (None, f', fr) \<Rightarrow>
                  let s1 = svc_log (clock 5) LogLevelInfo ''recordings'' (saved_fragment_msg f')
                             (s\<lparr>sv_frags := Some fr\<rparr>);
                      dur = f_to_i64 (fmax (rnd 1) (fround (fr_duration f')));
                      msgs = publish_recording_segment fmt_time (fr_tenant_id f') (fr_stream_id f')
                               (fr_recording_mode f') (fr_path f') (fr_start f') (fr_end f') dur
                               (fr_size f')
                  in (None, f', if sv_rec_publisher s1
                                then s1\<lparr>sv_published := sv_published s1 @ msgs\<rparr> else s1)))"

definition get_recording_fragment ::
  "string \<Rightarrow> string \<Rightarrow> service \<Rightarrow> go_error + (fragment \<times> bytes)" where
  "get_recording_fragment sid fid s =
     (case sv_frags s of None \<Rightarrow> Inl ErrFragmentNotFound | Some fr \<Rightarrow> frag_find sid fid fr)"

definition list_recording_fragments ::
  "string list \<Rightarrow> string \<Rightarrow> gotime \<Rightarrow> gotime \<Rightarrow> int \<Rightarrow> service \<Rightarrow> fragment list" where
  "list_recording_fragments ord sid start stop limit s =
     (case sv_frags s of None \<Rightarrow> [] | Some fr \<Rightarrow> frag_list ord sid start stop limit fr)"

section \<open>Chaos experiments\<close>

text \<open>
  \<^verbatim>\<open>uint64(f)\<close>: Go leaves the result open for a value that does not fit; \<open>oor\<close> is what the
  implementation answers there.
\<close>

fun f_to_u64 :: "(float64 \<Rightarrow> 64 word) \<Rightarrow> float64 \<Rightarrow> 64 word" where
  "f_to_u64 oor (Fin a) = (if - 1 < a \<and> a < 2 ^ 64 then (if a < 0 then 0 else of_int \<lfloor>a\<rfloor>) else oor (Fin a))"
| "f_to_u64 oor x = oor x"

definition delta_sign :: string where
  "delta_sign = map char_of [206, 148 :: nat]"

text \<open>\<^verbatim>\<open>InjectChaos\<close>; \<open>elapsed\<close> is the time the experiment slept, in microseconds.\<close>

definition inject_chaos ::
  "(float64 \<Rightarrow> 64 word) \<Rightarrow> gotime \<Rightarrow> int \<Rightarrow> chaos_injection option \<Rightarrow> go_error + chaos_result" where
  "inject_chaos oor now elapsed req =
     (case req of None \<Rightarrow> Inl ErrInvalidStream
      | Some ch \<Rightarrow>
          let sid = (if ci_stream_id ch = [] then ''cam_entrance_01'' else ci_stream_id ch);
              ms = (\<lambda>x. fadd (fdiv (f_of_int elapsed) (rnd 1000)) (rnd x));
              res = \<lparr>cr_experiment_type = ci_experiment_type ch, cr_status = ''recovered'',
                     cr_message = [], cr_recovery_ms = Fin 0, cr_frames_dropped = 0,
                     cr_jitter_delta_ms = Fin 0, cr_timestamp = now\<rparr>
          in Inr
            (if ci_experiment_type ch = ''packet_drop'' then
               let pct = (if fle (ci_intensity ch) (Fin 0) then rnd 25 else ci_intensity ch);
                   dropped = f_to_u64 oor (fmul pct (rnd (18 / 10)))
               in res\<lparr>cr_recovery_ms := ms (425 / 10), cr_frames_dropped := dropped,
                      cr_jitter_delta_ms := rnd (38 / 10),
                      cr_message := ''Injected '' @ fmt_fixed 0 pct @ ''% packet drop on RTSP stream '' @
                        [CHR 0x27] @ sid @ [CHR 0x27] @ ''. Dynamic jitter buffer engaged: 0 frame loss after '' @
                        nat_str (unat dropped) @ '' dropped raw packets.''\<rparr>
             else if ci_experiment_type ch = ''disconnect'' then
               res\<lparr>cr_recovery_ms := ms 88,
                   cr_message := ''Severed TCP session for stream '' @ [CHR 0x27] @ sid @ [CHR 0x27] @
                     ''. Auto-reconnect triggered: RFC 2326 Handshake re-established in '' @
                     fmt_fixed 1 (ms 88) @ ''ms.''\<rparr>
             else if ci_experiment_type ch = ''gpu_stall'' then
               res\<lparr>cr_recovery_ms := ms (142 / 10),
                   cr_message := ''Artificially throttled GPU NVDEC decode pipeline (+20ms '' @ delta_sign @
                     ''t). POSIX SHM failover stabilized queue back to 1.42ms.''\<rparr>
             else if ci_experiment_type ch = ''shm_overflow'' then
               res\<lparr>cr_recovery_ms := ms (48 / 10), cr_frames_dropped := 3,
                   cr_message := ''Saturated /dev/shm ring buffer to 95% capacity. Atomic lock-free eviction dropped oldest 3 unconsumed frames without consumer blocking.''\<rparr>
             else
               res\<lparr>cr_status := ''injected'',
                   cr_message := ''Executed generic chaos experiment '' @ [CHR 0x27] @ ci_experiment_type ch @
                     [CHR 0x27] @ '' on stream '' @ [CHR 0x27] @ sid @ [CHR 0x27] @ ''.''\<rparr>))"

definition reset_chaos :: "service \<Rightarrow> service" where
  "reset_chaos s = s\<lparr>sv_history := initial_history, sv_lat_history := initial_lat_history\<rparr>"

section \<open>Frame lemmas\<close>

lemma svc_log_simps [simp]:
  "sv_repo (svc_log now l c m s) = sv_repo s" "sv_frags (svc_log now l c m s) = sv_frags s"
  "sv_ingestor (svc_log now l c m s) = sv_ingestor s"
  "sv_rec_publisher (svc_log now l c m s) = sv_rec_publisher s"
  "sv_published (svc_log now l c m s) = sv_published s" "sv_whep (svc_log now l c m s) = sv_whep s"
  "sv_whep_base (svc_log now l c m s) = sv_whep_base s"
  "sv_samples (svc_log now l c m s) = sv_samples s"
  "sv_history (svc_log now l c m s) = sv_history s"
  "sv_lat_history (svc_log now l c m s) = sv_lat_history s"
  "sv_last_tick (svc_log now l c m s) = sv_last_tick s"
  "sv_start_time (svc_log now l c m s) = sv_start_time s"
  by (simp_all add: svc_log_def)

definition svc_stream :: "service \<Rightarrow> string \<Rightarrow> stream option" where
  "svc_stream s = repo_get (sv_repo s)"

definition svc_session :: "service \<Rightarrow> string \<Rightarrow> ingest_session option" where
  "svc_session s sid = (case sv_ingestor s of None \<Rightarrow> None | Some r \<Rightarrow> sess_get r sid)"

lemma validate_stream_None [simp]: "validate_stream st = None \<longleftrightarrow> st_stream_id st \<noteq> []"
  by (simp add: validate_stream_def)

lemma svc_log_stream [simp]:
  "svc_stream (svc_log now l c m s) = svc_stream s" "svc_session (svc_log now l c m s) = svc_session s"
  by (simp_all add: svc_stream_def svc_session_def fun_eq_iff)

lemma get_stream_eq:
  "get_stream sid s =
     (if sid = [] then Inl ErrInvalidStream
      else case svc_stream s sid of None \<Rightarrow> Inl ErrStreamNotFound | Some st \<Rightarrow> Inr st)"
  by (simp add: get_stream_def repo_find_eq svc_stream_def)

lemma register_invalid:
  "st_stream_id st = [] \<Longrightarrow> \<exists>s'. register_stream clock st s = (validate_stream st, st, s') \<and>
     svc_stream s' = svc_stream s \<and> svc_session s' = svc_session s"
  by (auto simp: register_stream_def validate_stream_def svc_stream_def svc_session_def)

lemma register_valid:
  assumes "st_stream_id st \<noteq> []" and "register_stream clock st s = (err, st', s')"
  shows "err = None" and "st' = set_defaults (clock 0) st"
    and "svc_stream s' i = (if i = st_stream_id st then Some st' else svc_stream s i)"
    and "svc_session s' i =
      (if i = st_stream_id st \<and> sv_ingestor s \<noteq> None \<and> svc_session s i = None
       then Some (new_session (clock 1) st') else svc_session s i)"
    and "sv_ingestor s' = None \<longleftrightarrow> sv_ingestor s = None" and "sv_samples s' = sv_samples s"
proof -
  have v: "validate_stream st = None" using assms(1) by simp
  show "err = None" "st' = set_defaults (clock 0) st"
    "svc_stream s' i = (if i = st_stream_id st then Some st' else svc_stream s i)"
    "svc_session s' i =
      (if i = st_stream_id st \<and> sv_ingestor s \<noteq> None \<and> svc_session s i = None
       then Some (new_session (clock 1) st') else svc_session s i)"
    "sv_ingestor s' = None \<longleftrightarrow> sv_ingestor s = None" "sv_samples s' = sv_samples s"
    using assms(2)
    by (auto simp: register_stream_def v repo_save_eq svc_stream_def svc_session_def streams.get_put
        start_ingest_eq sessions.get_put Let_def split: option.splits if_splits)
qed

lemma delete_stream_effect:
  assumes "sid \<noteq> []" and "delete_stream clock sid s = (err, s')"
  shows "err = (if svc_stream s sid = None then Some ErrStreamNotFound else None)"
    and "svc_stream s' i = (if i = sid then None else svc_stream s i)"
    and "svc_session s' i = (if i = sid then None else svc_session s i)"
    and "sv_samples s' = remove_samples (path_base sid) (sv_samples s)"
    and "sv_ingestor s' = None \<longleftrightarrow> sv_ingestor s = None"
  using assms
  by (auto simp: delete_stream_def repo_delete_eq svc_stream_def svc_session_def streams.get_del
      stop_ingest_eq sessions.get_del Let_def split: option.splits if_splits sum.splits)

lemma delete_stream_empty: "delete_stream clock [] s = (Some ErrInvalidStream, s)"
  by (simp add: delete_stream_def)

section \<open>What the glob of DeleteStream matches\<close>

lemma ex_split_Cons:
  "(\<exists>u v. c # cs = u @ v \<and> P u v) \<longleftrightarrow> P [] (c # cs) \<or> (\<exists>u v. cs = u @ v \<and> P (c # u) v)"
  by (metis Cons_eq_append_conv append_Cons append_Nil)

lemma glob_star: "glob_match (CHR ''*'' # p) f \<longleftrightarrow>
    (\<exists>u v. f = u @ v \<and> CHR ''/'' \<notin> set u \<and> glob_match p v)"
proof (induction f)
  case (Cons c cs)
  have "glob_match (CHR ''*'' # p) (c # cs) \<longleftrightarrow> glob_match p (c # cs) \<or>
      (\<exists>u v. cs = u @ v \<and> CHR ''/'' \<notin> set (c # u) \<and> glob_match p v)"
    using Cons.IH by auto
  then show ?case by (simp add: ex_split_Cons)
qed simp

lemma glob_literal:
  "CHR ''*'' \<notin> set p \<Longrightarrow> CHR ''?'' \<notin> set p \<Longrightarrow>
   glob_match (p @ q) f \<longleftrightarrow> (\<exists>v. f = p @ v \<and> glob_match q v)"
proof (induction p arbitrary: f)
  case (Cons c p)
  then show ?case by (cases f) auto
qed simp

definition plain_name :: "string \<Rightarrow> bool" where
  "plain_name f \<longleftrightarrow> CHR ''/'' \<notin> set f \<and> CHR ''*'' \<notin> set f \<and> CHR ''?'' \<notin> set f"

lemma remove_samples_iff:
  assumes "plain_name base" and "\<And>f. f \<in> samples \<Longrightarrow> CHR ''/'' \<notin> set f"
  shows "f \<in> remove_samples base samples \<longleftrightarrow>
    f \<in> samples \<and> \<not> (\<exists>u v. f = u @ base @ v @ ''.jpg'')"
proof -
  have lit: "glob_match ''.jpg'' v \<longleftrightarrow> v = ''.jpg''" for v
    using glob_literal [of "''.jpg''" "[]" v] by simp
  have tail: "glob_match (base @ ''*.jpg'') w \<longleftrightarrow>
      (\<exists>v. w = base @ v @ ''.jpg'' \<and> CHR ''/'' \<notin> set v)" for w
    using assms(1) glob_literal [of base "''*.jpg''" w] lit
    by (simp add: plain_name_def glob_star) blast
  have "glob_match (''*'' @ base @ ''*.jpg'') f \<longleftrightarrow> (\<exists>u v. f = u @ base @ v @ ''.jpg'')"
    if f: "f \<in> samples"
  proof -
    have "CHR ''/'' \<notin> set u \<and> CHR ''/'' \<notin> set v" if "f = u @ base @ v @ ''.jpg''" for u v
      using assms(2) [OF f] by (simp add: that)
    then show ?thesis by (simp only: append_Cons append_Nil glob_star tail) blast
  qed
  moreover have triv: "\<exists>u v. f = u @ base @ v @ ''.jpg''" if "f = base @ ''.jpg''"
    by (intro exI [of _ "[]"]) (simp add: that)
  ultimately show ?thesis
    using triv by (simp only: remove_samples_def mem_Collect_eq) blast
qed

lemma trim_right_plain: "CHR ''/'' \<notin> set p \<Longrightarrow> trim_right p ''/'' = p"
  by (cases p rule: rev_cases) (auto simp: trim_right_def trim_right_func_def)

lemma split_char_plain: "c \<notin> set p \<Longrightarrow> split_char c p = [p]"
  by (induction p) auto

lemma path_base_plain: "p \<noteq> [] \<Longrightarrow> CHR ''/'' \<notin> set p \<Longrightarrow> path_base p = p"
  by (simp add: path_base_def trim_right_plain split_char_plain)

section \<open>Streams and sessions of a reachable service\<close>

text \<open>
  One step is one operation that changes streams, consumers, sessions, fragments or histories. The
  service starts over the repository and the ingestor of \<^verbatim>\<open>cmd/hydrastream/engine.go\<close>.
\<close>

inductive svc_step :: "service \<Rightarrow> service \<Rightarrow> bool" where
  sv_register: "svc_step s (snd (snd (register_stream clock st s)))"
| sv_delete: "svc_step s (snd (delete_stream clock sid s))"
| sv_consumer: "svc_step s (snd (svc_update_consumer clock sid a fps fmt s))"
| sv_list: "svc_step s (snd (list_streams ord q t by page limit s))"
| sv_save: "svc_step s (snd (snd (save_recording_fragment clock ft wr files f data s)))"
| sv_reset: "svc_step s (reset_chaos s)"

inductive svc_reach :: "service \<Rightarrow> bool" where
  sv_new: "map_order ord (sr_streams (new_stream_repository clock0)) \<Longrightarrow>
    new_stream_service clock ord env files samples (new_stream_repository clock0)
      (Some new_rtsp_ingestor) lg = Returns s \<Longrightarrow> svc_reach s"
| sv_next: "svc_reach s \<Longrightarrow> svc_step s s' \<Longrightarrow> svc_reach s'"

inductive_cases svc_stepE: "svc_step s s'"

definition svc_ok :: "service \<Rightarrow> bool" where
  "svc_ok s \<longleftrightarrow> sv_ingestor s \<noteq> None \<and> (\<forall>i. (svc_session s i = None) = (svc_stream s i = None))"

lemma svc_okI:
  "sv_ingestor s \<noteq> None \<Longrightarrow> (\<And>i. (svc_session s i = None) = (svc_stream s i = None)) \<Longrightarrow> svc_ok s"
  by (simp add: svc_ok_def)

lemma svc_okD: "svc_ok s \<Longrightarrow> (svc_session s i = None) = (svc_stream s i = None)"
  by (simp add: svc_ok_def)

lemma svc_ok_register: "svc_ok s \<Longrightarrow> svc_ok (snd (snd (register_stream clock st s)))"
proof (cases "st_stream_id st = []")
  case True
  then show "svc_ok s \<Longrightarrow> ?thesis"
    by (simp add: register_stream_def validate_stream_def svc_ok_def)
next
  case False
  obtain err st' s' where r: "register_stream clock st s = (err, st', s')" by (metis surj_pair)
  assume "svc_ok s"
  then show ?thesis
    using register_valid [OF False r] svc_okD [of s]
    by (intro svc_okI) (auto simp: r svc_ok_def simp del: not_None_eq)
qed

lemma svc_ok_delete: "svc_ok s \<Longrightarrow> svc_ok (snd (delete_stream clock sid s))"
proof (cases "sid = []")
  case False
  obtain err s' where r: "delete_stream clock sid s = (err, s')" by (metis surj_pair)
  assume "svc_ok s"
  then show ?thesis
    using delete_stream_effect [OF False r] svc_okD [of s]
    by (intro svc_okI) (auto simp: r svc_ok_def)
qed (simp add: delete_stream_def)

lemma svc_ok_frame:
  "svc_ok s \<Longrightarrow> sv_ingestor s' = sv_ingestor s \<Longrightarrow> dom (svc_stream s') = dom (svc_stream s) \<Longrightarrow> svc_ok s'"
  by (simp add: svc_ok_def svc_session_def domIff [symmetric]) (metis domIff)

lemma svc_ok_consumer: "svc_ok s \<Longrightarrow> svc_ok (snd (svc_update_consumer clock sid a fps fmt s))"
  by (erule svc_ok_frame)
    (auto simp: svc_update_consumer_def svc_stream_def update_consumer_fps_eq Let_def
      streams.keys_put split: option.splits)

lemma svc_ok_list: "svc_ok s \<Longrightarrow> svc_ok (snd (list_streams ord q t by page limit s))"
  by (erule svc_ok_frame)
    (auto simp: list_streams_def list_filtered_def svc_stream_def Let_def repo_get_settle_all dom_def)

lemma svc_ok_save: "svc_ok s \<Longrightarrow> svc_ok (snd (snd (save_recording_fragment clock ft wr files f data s)))"
  by (erule svc_ok_frame)
    (auto simp: save_recording_fragment_def svc_stream_def Let_def split: option.splits prod.splits)

lemma svc_ok_step: "svc_step s s' \<Longrightarrow> svc_ok s \<Longrightarrow> svc_ok s'"
  by (elim svc_stepE)
    (auto intro: svc_ok_register svc_ok_delete svc_ok_consumer svc_ok_list svc_ok_save
      elim: svc_ok_frame simp: reset_chaos_def svc_stream_def)

lemma start_all_get:
  "sess_get (start_all now sts r) i =
     (case sess_get r i of Some x \<Rightarrow> Some x
      | None \<Rightarrow> map_option (new_session now) (find (\<lambda>st. st_stream_id st = i) sts))"
  unfolding start_all_def
  by (induction sts arbitrary: r) (auto simp: start_ingest_eq sessions.get_put split: option.splits)

lemma start_all_fresh:
  "sess_get (start_all now sts new_rtsp_ingestor) i = None \<longleftrightarrow> i \<notin> st_stream_id ` set sts"
proof -
  have "sess_get new_rtsp_ingestor i = None" by (simp add: sess_get_def new_rtsp_ingestor_def)
  then show ?thesis by (auto simp: start_all_get find_None_iff)
qed

lemma repo_list_all_set:
  assumes "map_order ord (sr_streams r)" and "length ord \<le> 1000"
  shows "\<exists>xs. repo_list_all ord r = (Returns xs, settle_all r) \<and>
    set xs = {s. \<exists>i st. repo_get r i = Some st \<and> s = settle_score st}"
proof -
  let ?xs = "sorted_matches ord [] [] ''resource_desc'' r"
  have "length ?xs \<le> length ord"
    using assms(1) length_range_map [of ord "sr_streams (settle_all r)"]
    by (simp add: sorted_matches_def map_order_def distinct_card [symmetric])
      (metis length_filter_le)
  then have "page_of ?xs 1 1000 = Returns ?xs"
    using assms(2) page_of_exact [of 1 1000 ?xs] by (simp add: norm_page_def norm_limit_def)
  moreover have "stream_matches (to_lower (trim_space [])) (to_lower (trim_space [])) s" for s
    by (simp add: stream_matches_def trim_space_def trim_right_func_def trim_left_func_def to_lower_def)
  ultimately show ?thesis
    using set_sorted_matches [OF assms(1), of "[]" "[]" "''resource_desc''"]
    by (simp add: repo_list_all_def list_filtered_def Let_def)
qed

lemma demo_stream_id [simp]: "st_stream_id (demo_stream clock) = ''cam_entrance_01''"
  by (simp add: demo_stream_def)

lemma new_repo_get:
  "repo_get (new_stream_repository clock) i =
     (if i = ''cam_entrance_01'' then Some (set_defaults (clock 4) (demo_stream clock)) else None)"
  by (simp add: repo_get_def new_stream_repository_def Let_def)

section \<open>Properties\<close>

text \<open>
  Registration is visible: a stream with an id is accepted, GetStream then answers it with its
  defaults filled in and answers every other id as before; if an ingestor is configured the
  stream has an ingest session, which is new only if there was none, and every other session is
  as before.
\<close>

theorem register_then_get:
  assumes "st_stream_id st \<noteq> []" and "register_stream clock st s = (err, st', s')"
  shows "err = None \<and> st' = set_defaults (clock 0) st \<and>
    get_stream i s' = (if i = st_stream_id st then Inr st' else get_stream i s) \<and>
    svc_session s' i =
      (if i = st_stream_id st \<and> sv_ingestor s \<noteq> None \<and> svc_session s i = None
       then Some (new_session (clock 1) st') else svc_session s i)"
  using register_valid [OF assms] assms(1) by (auto simp: get_stream_eq)

text \<open>
  DeleteStream of an id answers ErrStreamNotFound exactly if no such stream was registered, and
  in both cases leaves neither the stream nor an ingest session of that id, and every other stream
  and session as it was; a second deletion answers ErrStreamNotFound.
\<close>

theorem delete_then_gone:
  assumes "sid \<noteq> []" and "delete_stream clock sid s = (err, s')"
  shows "err = (if svc_stream s sid = None then Some ErrStreamNotFound else None) \<and>
    get_stream sid s' = Inl ErrStreamNotFound \<and> svc_session s' sid = None \<and>
    fst (delete_stream clock' sid s') = Some ErrStreamNotFound"
    (is "?err \<and> ?gone \<and> ?stopped \<and> ?again")
proof -
  note d = delete_stream_effect [OF assms]
  have "svc_stream s' sid = None" using d(2) [of sid] by simp
  then have ?again
    using delete_stream_effect(1) [OF assms(1) prod.collapse [symmetric], of clock' s'] by simp
  moreover have ?gone using d(2) [of sid] assms(1) by (simp add: get_stream_eq)
  moreover have ?stopped using d(3) [of sid] by simp
  ultimately show ?thesis using d(1) by blast
qed

text \<open>
  C4: Every registered stream is being ingested and nothing else is: in every state reachable from
  NewStreamService over the initial repository and ingestor, by any sequence of registrations,
  deletions, consumer updates, listings, saved fragments and chaos resets, an id has an ingest
  session exactly if GetStream finds it.
\<close>

theorem sessions_match_streams:
  assumes "svc_reach s" and "sid \<noteq> []"
  shows "(svc_session s sid = None) = (get_stream sid s = Inl ErrStreamNotFound)"
proof -
  have "svc_ok s"
    using assms(1)
  proof (induction rule: svc_reach.induct)
    case (sv_new ord clock0 clock env files samples lg s)
    let ?r = "new_stream_repository clock0"
    have "length ord \<le> 1000"
      using sv_new(1) distinct_card [of ord] by (simp add: map_order_def new_stream_repository_def Let_def)
    then obtain xs where xs: "repo_list_all ord ?r = (Returns xs, settle_all ?r)"
        "set xs = {s. \<exists>i st. repo_get ?r i = Some st \<and> s = settle_score st}"
      using repo_list_all_set [OF sv_new(1)] by blast
    have "set xs = {settle_score (set_defaults (clock0 4) (demo_stream clock0))}"
      by (auto simp: xs(2) new_repo_get split: if_splits)
    then have ids: "st_stream_id ` set xs = {''cam_entrance_01''}" by simp
    have "sess_get (start_all (clock 2) xs new_rtsp_ingestor) i = None \<longleftrightarrow>
        repo_get (settle_all ?r) i = None" for i
      by (simp add: start_all_fresh ids repo_get_settle_all new_repo_get)
    then show ?case
      using sv_new(2)
      by (auto simp: new_stream_service_def xs(1) Let_def svc_ok_def svc_session_def svc_stream_def
          simp del: not_None_eq)
  next
    case (sv_next s s')
    then show ?case by (blast intro: svc_ok_step)
  qed
  then show ?thesis
    using svc_okD [of s sid] assms(2) by (simp add: get_stream_eq split: option.split)
qed

text \<open>
  Deleting a stream also removes the snapshots of other streams: of the files in the samples
  directory, DeleteStream keeps exactly those whose name is not \<open>u @ sid @ v @ ''.jpg''\<close> for any
  \<open>u\<close> and \<open>v\<close>, whichever stream they belong to, and it does so even if it then reports that no
  such stream exists.
\<close>

theorem delete_removes_snapshots:
  assumes "sid \<noteq> []" and "plain_name sid"
    and "CHR ''/'' \<notin> \<Union> (set ` sv_samples s)"
    and "delete_stream clock sid s = (err, s')"
  shows "sv_samples s' = {f \<in> sv_samples s. \<not> (\<exists>u v. f = u @ sid @ v @ ''.jpg'')}"
proof -
  have base: "path_base sid = sid"
    using assms(1,2) by (simp add: path_base_plain plain_name_def)
  have plain: "CHR ''/'' \<notin> set f" if "f \<in> sv_samples s" for f
    using assms(3) that by simp
  have eff: "sv_samples s' = remove_samples sid (sv_samples s)"
    using delete_stream_effect(4) [OF assms(1,4)] by (simp add: base)
  show ?thesis
    unfolding eff by (rule set_eqI) (simp only: remove_samples_iff [OF assms(2) plain] mem_Collect_eq)
qed

section \<open>A concrete service\<close>

definition cam :: stream where
  "cam = zero_stream\<lparr>st_stream_id := ''cam1'', st_tenant_id := ''alpha'',
     st_source_url := ''rtsp://cam1''\<rparr>"

definition empty_service :: service where
  "empty_service =
     \<lparr>sv_repo = \<lparr>sr_streams = Map.empty, sr_start_time = 0\<rparr>, sv_frags = None,
      sv_ingestor = Some new_rtsp_ingestor, sv_log = new_ring_logger [10],
      sv_rec_publisher = False, sv_published = [], sv_history = [], sv_lat_history = [],
      sv_last_tick = 0, sv_start_time = 0, sv_whep = Map.empty, sv_whep_base = [],
      sv_samples = {''cam1.jpg'', ''cam10.jpg'', ''door.jpg''}\<rparr>"

lemma empty_service_simps [simp]:
  "svc_stream empty_service i = None" "svc_session empty_service i = None"
  "sv_ingestor empty_service \<noteq> None" "sv_whep empty_service = Map.empty"
  by (simp_all add: empty_service_def svc_stream_def repo_get_def svc_session_def sess_get_def
      new_rtsp_ingestor_def)

lemma cam_id [simp]: "st_stream_id cam = ''cam1''" "st_tenant_id cam = ''alpha''"
  by (simp_all add: cam_def)

definition cam_service :: service where
  "cam_service = snd (snd (register_stream (\<lambda>_. 7) cam empty_service))"

lemma cam_registered:
  "register_stream (\<lambda>_. 7) cam empty_service = (None, set_defaults 7 cam, cam_service)"
proof -
  obtain e st' s' where r: "register_stream (\<lambda>_. 7) cam empty_service = (e, st', s')"
    by (metis surj_pair)
  show ?thesis using register_valid [OF _ r] by (simp add: r cam_service_def)
qed

lemma cam_service_stream:
  "svc_stream cam_service i = (if i = ''cam1'' then Some (set_defaults 7 cam) else None)"
  using register_valid(3) [OF _ cam_registered] by simp

theorem register_then_get_witness:
  "get_stream ''cam1'' cam_service = Inr (set_defaults 7 cam) \<and>
   svc_session cam_service ''cam1'' = Some (new_session 7 (set_defaults 7 cam)) \<and>
   get_stream ''cam2'' cam_service = Inl ErrStreamNotFound"
  using register_then_get [OF _ cam_registered, of "''cam1''"]
    register_then_get [OF _ cam_registered, of "''cam2''"]
  by (simp add: get_stream_eq)

theorem delete_then_gone_witness:
  "fst (delete_stream (\<lambda>_. 8) ''cam1'' cam_service) = None \<and>
   get_stream ''cam1'' (snd (delete_stream (\<lambda>_. 8) ''cam1'' cam_service)) = Inl ErrStreamNotFound"
  using delete_then_gone [OF _ prod.collapse [symmetric], of "''cam1''" "\<lambda>_. 8" cam_service]
  by (simp add: cam_service_stream)

lemma pick_one: "A = {a, b, c} \<Longrightarrow> P a \<Longrightarrow> P b \<Longrightarrow> \<not> P c \<Longrightarrow> {f \<in> A. \<not> P f} = {c}"
  by auto

theorem delete_removes_snapshots_witness:
  "sv_samples (snd (delete_stream (\<lambda>_. 8) ''cam1'' empty_service)) = {''door.jpg''}"
proof -
  have s: "sv_samples empty_service = {''cam1.jpg'', ''cam10.jpg'', ''door.jpg''}"
    by (simp add: empty_service_def)
  have door: "\<not> (\<exists>u v. ''door.jpg'' = u @ ''cam1'' @ v @ ''.jpg'')"
  proof
    assume "\<exists>u v. ''door.jpg'' = u @ ''cam1'' @ v @ ''.jpg''"
    then have "CHR ''c'' \<in> set ''door.jpg''" by (metis in_set_conv_decomp append_Cons)
    then show False by simp
  qed
  have "''cam1.jpg'' = [] @ ''cam1'' @ [] @ ''.jpg''" "''cam10.jpg'' = [] @ ''cam1'' @ ''0'' @ ''.jpg''"
    by simp_all
  then have cams: "\<exists>u v. ''cam1.jpg'' = u @ ''cam1'' @ v @ ''.jpg''"
      "\<exists>u v. ''cam10.jpg'' = u @ ''cam1'' @ v @ ''.jpg''"
    by (metis, metis)
  have del: "delete_stream (\<lambda>_. 8) ''cam1'' empty_service =
      (fst (delete_stream (\<lambda>_. 8) ''cam1'' empty_service),
       snd (delete_stream (\<lambda>_. 8) ''cam1'' empty_service))"
    by simp
  have plain: "plain_name ''cam1''" "CHR ''/'' \<notin> \<Union> (set ` sv_samples empty_service)"
    by (simp_all add: plain_name_def s)
  have "sv_samples (snd (delete_stream (\<lambda>_. 8) ''cam1'' empty_service)) =
      {f \<in> sv_samples empty_service. \<not> (\<exists>u v. f = u @ ''cam1'' @ v @ ''.jpg'')}"
    using delete_removes_snapshots [OF _ plain del] by simp
  also note pick_one [where P = "\<lambda>f. \<exists>u v. f = u @ ''cam1'' @ v @ ''.jpg''", OF s cams door]
  finally show ?thesis .
qed

definition first_clock :: "nat \<Rightarrow> gotime" where
  "first_clock n = 5"

theorem sessions_match_streams_witness:
  "\<exists>s. svc_session s ''cam_entrance_01'' \<noteq> None \<and> svc_reach s"
proof -
  let ?r = "new_stream_repository first_clock"
  have ord: "map_order [''cam_entrance_01''] (sr_streams ?r)"
    by (simp add: map_order_def new_stream_repository_def Let_def demo_stream_def)
  obtain xs where "repo_list_all [''cam_entrance_01''] ?r = (Returns xs, settle_all ?r)"
    using repo_list_all_set [OF ord] by auto
  then obtain s where s: "new_stream_service first_clock [''cam_entrance_01''] [] Map.empty {} ?r
      (Some new_rtsp_ingestor) None = Returns s" "sv_repo s = settle_all ?r"
    by (simp add: new_stream_service_def Let_def)
  have reach: "svc_reach s" by (rule sv_new [OF ord s(1)])
  have "get_stream ''cam_entrance_01'' s \<noteq> Inl ErrStreamNotFound"
    using s(2) by (simp add: get_stream_eq svc_stream_def repo_get_settle_all)
      (simp add: repo_get_def new_stream_repository_def Let_def demo_stream_def)
  then show ?thesis
    using sessions_match_streams [OF reach, of "''cam_entrance_01''"] reach by auto
qed

end
