(* ===== verification/Gpu.thy ===== *)
theory Gpu
  imports DomainTelemetry RtspText
begin

text \<open>
  \<^verbatim>\<open>internal/adapters/secondary/gpu\<close>: what the program makes of the output of \<^verbatim>\<open>nvidia-smi\<close> (none if
  the command fails), of \<^verbatim>\<open>/proc/meminfo\<close> and of \<^verbatim>\<open>statfs\<close> on \<^verbatim>\<open>/dev/shm\<close>.
\<close>

section \<open>strconv.ParseFloat\<close>

text \<open>
  Decimal numbers with an optional sign, fraction and exponent, and the names of the infinities and
  NaN; a text that is not a number is an error. The program never looks at the error, so the
  value it uses is zero then.
\<close>

definition decimal_value :: "string \<Rightarrow> string \<Rightarrow> int \<Rightarrow> rat" where
  "decimal_value whole fracs e =
     of_nat (digits_val (whole @ fracs)) * 10 powi (e - int (length fracs))"

definition parse_exponent :: "string \<Rightarrow> int option" where
  "parse_exponent s =
     (case s of
        [] \<Rightarrow> Some 0
      | c # ds \<Rightarrow> if c = CHR ''e'' \<or> c = CHR ''E'' then atoi ds else None)"

definition parse_unsigned_float :: "string \<Rightarrow> float64 option" where
  "parse_unsigned_float s =
     (let whole = takeWhile is_digit s;
          rest = dropWhile is_digit s;
          dot = (rest \<noteq> [] \<and> hd rest = CHR ''.'');
          fracs = (if dot then takeWhile is_digit (tl rest) else []);
          tail = (if dot then dropWhile is_digit (tl rest) else rest)
      in if to_lower s = ''inf'' \<or> to_lower s = ''infinity'' then Some (Infty False)
         else if to_lower s = ''nan'' then Some NaN
         else if whole @ fracs = [] then None
         else map_option (\<lambda>e. rnd (decimal_value whole fracs e)) (parse_exponent tail))"

definition parse_float :: "string \<Rightarrow> float64 option" where
  "parse_float s =
     (if has_prefix s ''-'' then map_option fneg (parse_unsigned_float (tl s))
      else if has_prefix s ''+'' then parse_unsigned_float (tl s)
      else parse_unsigned_float s)"

definition float_or_zero :: "string \<Rightarrow> float64" where
  "float_or_zero s = (case parse_float s of None \<Rightarrow> Fin 0 | Some x \<Rightarrow> x)"

section \<open>DetectHardware\<close>

record hardware_info =
  hw_detected :: bool
  hw_model :: string
  hw_total_vram :: float64
  hw_used_vram :: float64
  hw_vram_pct :: float64
  hw_gpu_util :: float64
  hw_temp :: float64
  hw_engine :: string

definition cpu_host :: hardware_info where
  "cpu_host =
     \<lparr>hw_detected = False, hw_model = ''CPU Host (Hardware Acceleration Disabled)'',
      hw_total_vram = Fin 0, hw_used_vram = Fin 0, hw_vram_pct = Fin 0, hw_gpu_util = Fin 0,
      hw_temp = Fin 0, hw_engine = ''FFmpeg POSIX SHM (/dev/shm)''\<rparr>"

definition csv_field :: "string list \<Rightarrow> nat \<Rightarrow> string" where
  "csv_field cols i = trim_space (cols ! i)"

definition detect_hardware :: "string option \<Rightarrow> hardware_info" where
  "detect_hardware out =
     (case out of
        None \<Rightarrow> cpu_host
      | Some text \<Rightarrow>
          let cols = split_char CHR '','' (trim_space text);
              total_mb = float_or_zero (csv_field cols 1);
              used_mb = float_or_zero (csv_field cols 2)
          in if length cols \<ge> 5 then
               \<lparr>hw_detected = True,
                hw_model = csv_field cols 0 @ '' ('' @ fmt_fixed 0 (fdiv total_mb (rnd 1024)) @ ''GB VRAM)'',
                hw_total_vram = total_mb, hw_used_vram = used_mb,
                hw_vram_pct = (if flt (Fin 0) total_mb then fmul (fdiv used_mb total_mb) (rnd 100) else Fin 0),
                hw_gpu_util = float_or_zero (csv_field cols 3),
                hw_temp = float_or_zero (csv_field cols 4),
                hw_engine = ''NVDEC CUDA IPC (Zero-Copy VRAM)''\<rparr>
             else cpu_host)"

section \<open>The detailed query\<close>

record gpu_telemetry =
  gt_detected :: bool
  gt_model :: string
  gt_total :: float64
  gt_used :: float64
  gt_free :: float64
  gt_vram_pct :: float64
  gt_gpu_util :: float64
  gt_mem_util :: float64
  gt_temp :: float64
  gt_power :: float64
  gt_driver :: string
  gt_engine :: string
  gt_cuda_ipc :: bool

definition no_gpu :: gpu_telemetry where
  "no_gpu =
     \<lparr>gt_detected = False, gt_model = ''CPU Host (No GPU acceleration)'', gt_total = Fin 0,
      gt_used = Fin 0, gt_free = Fin 0, gt_vram_pct = Fin 0, gt_gpu_util = Fin 0,
      gt_mem_util = Fin 0, gt_temp = Fin 0, gt_power = Fin 0, gt_driver = [],
      gt_engine = ''POSIX SHM (/dev/shm)'', gt_cuda_ipc = False\<rparr>"

text \<open>A percentage with one decimal: \<^verbatim>\<open>math.Round(x*1000.0) / 10.0\<close>.\<close>

definition one_decimal_pct :: "float64 \<Rightarrow> float64" where
  "one_decimal_pct x = fdiv (fround (fmul x (rnd 1000))) (rnd 10)"

definition gpu_query :: "string option \<Rightarrow> gpu_telemetry" where
  "gpu_query out =
     (case out of
        None \<Rightarrow> no_gpu
      | Some text \<Rightarrow>
          let cols = split_char CHR '','' (trim_space text);
              num = (\<lambda>i. float_or_zero (csv_field cols i))
          in if length cols \<ge> 9 then
               \<lparr>gt_detected = True, gt_model = csv_field cols 0, gt_total = num 1, gt_used = num 2,
                gt_free = num 3,
                gt_vram_pct = (if flt (Fin 0) (num 1) then one_decimal_pct (fdiv (num 2) (num 1)) else Fin 0),
                gt_gpu_util = num 4, gt_mem_util = num 5, gt_temp = num 6, gt_power = num 7,
                gt_driver = csv_field cols 8, gt_engine = ''NVDEC CUDA IPC (Zero-Copy VRAM)'',
                gt_cuda_ipc = True\<rparr>
             else no_gpu)"

section \<open>Shared memory\<close>

record statfs =
  sf_blocks :: "64 word"
  sf_bfree :: "64 word"
  sf_bsize :: "64 word"

record shm_telemetry =
  sh_mount :: string
  sh_total :: "64 word"
  sh_used :: "64 word"
  sh_free :: "64 word"
  sh_occupancy :: float64
  sh_ring_status :: string
  sh_lock_free :: bool

definition shm_default :: shm_telemetry where
  "shm_default =
     \<lparr>sh_mount = ''/dev/shm'', sh_total = 0, sh_used = 0, sh_free = 0, sh_occupancy = Fin 0,
      sh_ring_status = ''ONLINE (Lock-Free)'', sh_lock_free = True\<rparr>"

definition get_shm_telemetry :: "statfs option \<Rightarrow> shm_telemetry" where
  "get_shm_telemetry stat =
     (case stat of
        None \<Rightarrow> shm_default
      | Some f \<Rightarrow>
          if sf_blocks f > 0 then
            let total = sf_blocks f * sf_bsize f;
                free = sf_bfree f * sf_bsize f;
                used = total - free;
                t1 = shm_default\<lparr>sh_total := total, sh_used := used, sh_free := free\<rparr>
            in if total > 0
               then t1\<lparr>sh_occupancy :=
                      one_decimal_pct (fdiv (f_of_int (uint used)) (f_of_int (uint total)))\<rparr>
               else t1
          else shm_default)"

section \<open>Lemmas\<close>

lemma parse_signed_None: "\<not> list_all is_digit ds \<Longrightarrow> parse_signed neg ds = None"
  by (simp add: parse_signed_def)

lemma atoi_None:
  assumes "c \<in> set s" and "\<not> is_digit c" and "c \<noteq> CHR ''-''" and "c \<noteq> CHR ''+''"
  shows "atoi s = None"
proof (cases s)
  case (Cons d ds)
  then show ?thesis
    using assms by (auto simp: list_all_iff intro!: parse_signed_None)
qed simp

lemma newline_neq:
  "newline \<noteq> CHR ''.''" "newline \<noteq> CHR ''e''" "newline \<noteq> CHR ''E''" "newline \<noteq> CHR ''-''"
  "newline \<noteq> CHR ''+''" "newline \<noteq> CHR '',''"
  unfolding newline_def by code_simp+

lemma parse_unsigned_None:
  assumes "newline \<in> set s"
  shows "parse_unsigned_float s = None"
proof -
  have nd: "\<not> is_digit newline" by (simp add: newline_def is_digit_def digit_val_def)
  have ne: "newline \<noteq> CHR ''.''" "newline \<noteq> CHR ''e''" "newline \<noteq> CHR ''E''"
      "newline \<noteq> CHR ''-''" "newline \<noteq> CHR ''+''"
    by (simp_all add: newline_neq)
  have low: "lower_char newline = newline" by (simp add: newline_def lower_char_def)
  have "newline \<in> set (to_lower s)" using assms low by (force simp: to_lower_def)
  moreover have "newline \<notin> set ''inf''" "newline \<notin> set ''infinity''" "newline \<notin> set ''nan''"
    unfolding newline_def by code_simp+
  ultimately have names: "to_lower s \<noteq> ''inf''" "to_lower s \<noteq> ''infinity''" "to_lower s \<noteq> ''nan''"
    by metis+
  have digits: "newline \<notin> set (takeWhile is_digit u)" for u
    using nd by (auto dest: set_takeWhileD)
  have rest: "newline \<in> set (dropWhile is_digit u)" if "newline \<in> set u" for u
    using that digits [of u] by (metis Un_iff set_append takeWhile_dropWhile_id)
  have exponent: "parse_exponent u = None" if "newline \<in> set u" for u
    using that nd ne by (cases u) (auto simp: parse_exponent_def intro: atoi_None)
  define r where "r = dropWhile is_digit s"
  have r: "newline \<in> set r" using rest [OF assms] by (simp add: r_def)
  have t: "newline \<in> set (dropWhile is_digit (tl r))" if "r \<noteq> []" "hd r = CHR ''.''"
    using r that ne(1) by (intro rest) (cases r, auto)
  show ?thesis
    using names exponent [OF r] exponent [OF t] unfolding parse_unsigned_float_def Let_def r_def
    by auto
qed

lemma parse_float_None: "newline \<in> set s \<Longrightarrow> parse_float s = None"
proof -
  assume n: "newline \<in> set s"
  have "newline \<in> set (tl s)" if "has_prefix s ''-'' \<or> has_prefix s ''+''"
    using that n by (cases s) (auto simp: has_prefix_iff newline_neq)
  then show ?thesis using n by (auto simp: parse_float_def parse_unsigned_None)
qed

lemma trim_space_id:
  assumes "s \<noteq> []" and "\<not> is_space (hd s)" and "\<not> is_space (last s)"
  shows "trim_space s = s"
proof -
  have "dropWhile is_space s = s" "dropWhile is_space (rev s) = rev s"
    using assms by (simp_all add: dropWhile_eq_self_iff hd_rev)
  then show ?thesis by (simp add: trim_space_def trim_left_func_def trim_right_func_def)
qed

lemma split_char_Cons: "c \<notin> set p \<Longrightarrow> split_char c (p @ c # q) = p # split_char c q"
  by (induction p) auto

lemma float_range: "0 \<le> n \<Longrightarrow> n < 2 ^ 64 \<Longrightarrow> \<exists>a. f_of_int n = Fin a \<and> 0 \<le> a"
proof -
  assume n: "0 \<le> n" "n < 2 ^ 64"
  have top: "rnd (2 ^ 64) = Fin (2 ^ 64)"
    by (rule rnd_repr [of _ 1 64]) (simp_all add: max_float_def)
  have "(of_int n :: rat) \<le> of_int (2 ^ 64)" using n by (intro of_int_le_iff [THEN iffD2]) simp
  then have "(of_int n :: rat) \<le> 2 ^ 64" by simp
  then show ?thesis
    using rnd_between [of 0 "of_int n" "2 ^ 64"] n top by (auto simp: f_of_int_def)
qed

lemma ratio_bounds:
  assumes "0 < m" and "n \<le> m" and "0 \<le> n" and "m < 2 ^ 64"
  shows "fin_in 0 1 (fdiv (f_of_int n) (f_of_int m))"
proof -
  obtain a b where ab: "f_of_int n = Fin a" "0 \<le> a" "f_of_int m = Fin b"
    using float_range [of n] float_range [of m] assms by auto
  have "rnd (of_int n) = Fin a" "rnd (of_int m) = Fin b"
    using ab by (simp_all add: f_of_int_def)
  then have "a \<le> b" using rnd_mono [of "of_int n" "of_int m"] assms(2) by simp
  moreover have "1 \<le> b"
    using rnd_mono [of 1 "of_int m" 1 b] \<open>rnd (of_int m) = Fin b\<close> assms(1) by simp
  ultimately show ?thesis
    using ab by (auto intro!: fin_in_rnd)
qed

lemma one_decimal_bounds: "fin_in 0 1 x \<Longrightarrow> fin_in 0 100 (one_decimal_pct x)"
proof -
  assume "fin_in 0 1 x"
  then have "fin_in 0 (1 * 1000) (fmul x (rnd 1000))"
    by (intro fin_in_mult) (simp_all add: fin_inI)
  then obtain a where a: "fmul x (rnd 1000) = Fin a" "0 \<le> a" "a \<le> 1000" by (auto simp: fin_in_def)
  have "a + 1 / 2 < 1001" using a(3) by simp
  then have "\<lfloor>a + 1 / 2\<rfloor> \<le> 1000" by (simp add: floor_le_iff)
  then have "fin_in 0 (100 * 10) (fround (Fin a))"
    using a(2) by (auto intro!: fin_inI simp: of_int_le_iff [of _ 1000, simplified])
  then have "fin_in 0 100 (fdiv (fround (Fin a)) (Fin 10))"
    by (intro fin_in_div) simp_all
  then show ?thesis unfolding one_decimal_pct_def a(1) by simp
qed

section \<open>Properties\<close>

text \<open>
  The shared-memory report is consistent: when statfs reports no more free than total blocks and
  a size below 2^64 bytes, used and free bytes add up to the total and the occupancy is a number
  from 0 to 100.
\<close>

theorem shm_occupancy_bounds:
  assumes "uint (sf_blocks f) * uint (sf_bsize f) < 2 ^ 64" and "sf_bfree f \<le> sf_blocks f"
  shows "uint (sh_used (get_shm_telemetry (Some f))) + uint (sh_free (get_shm_telemetry (Some f))) =
      uint (sh_total (get_shm_telemetry (Some f))) \<and>
    (\<exists>a. sh_occupancy (get_shm_telemetry (Some f)) = Fin a \<and> 0 \<le> a \<and> a \<le> 100)"
proof -
  define total where "total = sf_blocks f * sf_bsize f"
  define free where "free = sf_bfree f * sf_bsize f"
  have le: "uint (sf_bfree f) \<le> uint (sf_blocks f)" using assms(2) by (simp add: word_le_def)
  then have m: "uint (sf_bfree f) * uint (sf_bsize f) \<le> uint (sf_blocks f) * uint (sf_bsize f)"
    by (intro mult_right_mono) simp_all
  have t: "uint total = uint (sf_blocks f) * uint (sf_bsize f)"
    using assms(1) by (simp add: total_def uint_word_ariths)
  have fr: "uint free = uint (sf_bfree f) * uint (sf_bsize f)"
    using assms(1) m by (simp add: free_def uint_word_ariths)
  have ft: "uint free \<le> uint total" using m by (simp add: t fr)
  then have u: "uint (total - free) = uint total - uint free" using uint_sub_lem [of free total] by (simp add: word_le_def)
  have "fin_in 0 100 (one_decimal_pct (fdiv (f_of_int (uint (total - free))) (f_of_int (uint total))))"
    if "total > 0"
  proof (intro one_decimal_bounds ratio_bounds)
    show "0 < uint total" using that by (simp add: word_less_def)
    show "uint total < 2 ^ 64" using uint_lt2p [of total] by simp
  qed (simp_all add: u ft)
  then show ?thesis
    using u by (auto simp: get_shm_telemetry_def Let_def shm_default_def total_def [symmetric]
        free_def [symmetric] fin_in_def)
qed

text \<open>
  A host with two GPUs: nvidia-smi prints one line per GPU, but the whole output is split at the
  commas, so the last value of the first line is read together with the name of the second GPU
  and is not a number. Whatever the first GPU's temperature is, it is reported as 0.
\<close>

theorem two_gpus_no_temperature:
  assumes "trim_space text = text"
    and "text = f0 @ '','' @ f1 @ '','' @ f2 @ '','' @ f3 @ '','' @ temp @ [newline] @ name @ '','' @ rest"
    and "CHR '','' \<notin> set (f0 @ f1 @ f2 @ f3 @ temp @ name)"
    and "trim_space temp \<noteq> []" and "trim_space name \<noteq> []"
  shows "hw_detected (detect_hardware (Some text)) \<and> hw_temp (detect_hardware (Some text)) = Fin 0"
proof -
  let ?cols = "f0 # f1 # f2 # f3 # (temp @ [newline] @ name) # split_char CHR '','' rest"
  have cells: "CHR '','' \<notin> set f0" "CHR '','' \<notin> set f1" "CHR '','' \<notin> set f2" "CHR '','' \<notin> set f3"
      "CHR '','' \<notin> set (temp @ [newline] @ name)"
    using assms(3) by (simp_all add: newline_neq newline_neq [symmetric])
  have "split_char CHR '','' text = ?cols"
    unfolding assms(2) using cells
    by (simp add: split_char_Cons [of _ "temp @ newline # name", simplified] split_char_Cons)
  moreover have "parse_float (csv_field ?cols 4) = None"
    using trim_space_inner [OF assms(4,5), of newline] by (simp add: csv_field_def parse_float_None)
  moreover have "split_char c r \<noteq> []" for c r by (induction r) (auto split: list.split)
  ultimately show ?thesis
    by (simp add: detect_hardware_def assms(1) Let_def float_or_zero_def)
qed

section \<open>Concrete reports\<close>

definition sample_statfs :: statfs where
  "sample_statfs = \<lparr>sf_blocks = 100, sf_bfree = 75, sf_bsize = 4096\<rparr>"

theorem shm_occupancy_bounds_witness:
  "uint (sh_used (get_shm_telemetry (Some sample_statfs))) +
     uint (sh_free (get_shm_telemetry (Some sample_statfs))) = 409600"
  using shm_occupancy_bounds [of sample_statfs]
  by (simp add: sample_statfs_def get_shm_telemetry_def Let_def shm_default_def)

definition two_gpus :: string where
  "two_gpus = ''T4'' @ '','' @ ''15360'' @ '','' @ ''512'' @ '','' @ ''7'' @ '','' @ ''45'' @ [newline] @
     ''L4'' @ '','' @ ''23034,0,0,38''"

theorem two_gpus_no_temperature_witness:
  "hw_temp (detect_hardware (Some two_gpus)) = Fin 0 \<and> parse_float ''45'' = Some (Fin 45)"
proof
  have "trim_space two_gpus = two_gpus"
    by (rule trim_space_id) (simp_all add: two_gpus_def is_space_def)
  moreover have "trim_space ''45'' \<noteq> []" "trim_space ''L4'' \<noteq> []"
    by (simp_all add: trim_space_Nil_iff is_space_def)
  ultimately show "hw_temp (detect_hardware (Some two_gpus)) = Fin 0"
    using two_gpus_no_temperature [OF _ two_gpus_def] by simp
  show "parse_float ''45'' = Some (Fin 45)"
    by (simp add: parse_float_def has_prefix_def parse_unsigned_float_def Let_def is_digit_def
        digit_val_def to_lower_def lower_char_def parse_exponent_def decimal_value_def digits_val_def)
qed

end
