(* ===== verification/Telemetry.thy ===== *)
theory Telemetry
  imports StreamService Gpu
begin

text \<open>
  \<^verbatim>\<open>internal/application/stream_service_telemetry.go\<close>: health, the dashboard and what the service
  reports about itself. The outputs of \<^verbatim>\<open>nvidia-smi\<close> and \<^verbatim>\<open>statfs\<close>, the host name and the runtime's
  numbers are arguments, and so are \<^verbatim>\<open>math.Sin\<close> and \<^verbatim>\<open>math.Cos\<close>, which only add a jitter.
\<close>

section \<open>Health\<close>

record system_health =
  hl_status :: string
  hl_uptime :: "64 word"
  hl_started :: gotime
  hl_gpu :: string
  hl_total_streams :: int
  hl_online :: int
  hl_offline :: int
  hl_consumers :: int
  hl_ingest_fps :: float64
  hl_bandwidth :: float64
  hl_errors :: int
  hl_warnings :: int
  hl_timestamp :: gotime

definition is_online :: "stream \<Rightarrow> bool" where
  "is_online st \<longleftrightarrow> st_status st = ''online'' \<or> st_status st = ''ONLINE''"

definition sum_floats :: "(stream \<Rightarrow> float64) \<Rightarrow> stream list \<Rightarrow> float64" where
  "sum_floats f sts = foldl (\<lambda>acc st. fadd acc (f st)) (Fin 0) sts"

definition gpu_status :: "hardware_info \<Rightarrow> string" where
  "gpu_status hw = (if hw_detected hw then ''ONLINE ('' @ hw_model hw @ '')'' else ''CPU_FALLBACK (No GPU)'')"

definition get_health ::
  "gotime \<Rightarrow> gotime \<Rightarrow> string list \<Rightarrow> string option \<Rightarrow> service \<Rightarrow> system_health outcome \<times> service" where
  "get_health now1 now2 ord smi s =
     (case list_filtered ord [] [] [] 1 500 (sv_repo s) of
        (Panics, repo') \<Rightarrow> (Panics, s\<lparr>sv_repo := repo'\<rparr>)
      | (Returns (sts, n), repo') \<Rightarrow>
          let s1 = s\<lparr>sv_repo := repo'\<rparr>;
              online = int (length (filter is_online sts));
              offline = int (length (filter (\<lambda>st. \<not> is_online st) sts));
              errs = get_error_summary (sv_log s1)
          in (Returns
               \<lparr>hl_status = (if es_total_errors errs > 20 \<or> offline > 0 then ''degraded'' else ''healthy''),
                hl_uptime = uptime_seconds now1 repo', hl_started = sv_start_time s1,
                hl_gpu = gpu_status (detect_hardware smi),
                hl_total_streams = n, hl_online = online, hl_offline = offline,
                hl_consumers = int (sum_list (map (\<lambda>st. length (st_consumers st)) sts)),
                hl_ingest_fps = sum_floats st_ingest_fps sts,
                hl_bandwidth = fdiv (sum_floats st_network_kbps sts) (rnd 1000),
                hl_errors = es_total_errors errs, hl_warnings = es_total_warnings errs,
                hl_timestamp = now2\<rparr>, s1))"

text \<open>The logger is never nil: the constructor makes one.\<close>

definition get_logs :: "log_filter \<Rightarrow> service \<Rightarrow> log_query_result" where
  "get_logs f s = query_logs f (sv_log s)"

definition svc_error_summary :: "service \<Rightarrow> error_summary" where
  "svc_error_summary s = get_error_summary (sv_log s)"

section \<open>The dashboard\<close>

record panel_env =
  pe_hostname :: string
  pe_cores :: int
  pe_statfs :: "statfs option"
  pe_sin :: "float64 \<Rightarrow> float64"
  pe_cos :: "float64 \<Rightarrow> float64"

record control_panel =
  cp_health_score :: float64
  cp_sla_status :: string
  cp_nodes_summary :: string
  cp_avg_latency :: float64
  cp_shm_occupancy :: float64
  cp_peak_bandwidth :: float64
  cp_bandwidth_history :: "float64 list"
  cp_latency_history :: "float64 list"
  cp_active_streams :: int
  cp_ingest_fps :: float64

definition panel_score :: "int \<Rightarrow> int \<Rightarrow> float64 \<times> string" where
  "panel_score online n =
     (if n > 0 then
        (let h = fmul (fdiv (f_of_int online) (f_of_int n)) (rnd 100)
         in (h, if flt h (rnd 100) then ''DEGRADED ('' @ fmt_fixed 2 h @ ''% SLA)''
                else ''HEALTHY (99.98% SLA)''))
      else (rnd (9998 / 100), ''HEALTHY (99.98% SLA)''))"

definition panel_latency :: "stream list \<Rightarrow> float64" where
  "panel_latency sts =
     (let n = sum_floats st_decode_latency sts
      in if length sts > 0 \<and> flt (Fin 0) n then fdiv n (f_of_int (int (length sts)))
         else rnd (142 / 100))"

definition panel_bandwidth :: "stream list \<Rightarrow> float64" where
  "panel_bandwidth sts =
     (let b = fdiv (sum_floats st_network_kbps sts) (rnd 1000)
      in if fle b (Fin 0) then rnd (624 / 10) else b)"

text \<open>\<^verbatim>\<open>append(s.history[1:], x)\<close>: the slice expression panics on an empty history.\<close>

definition shift_history :: "float64 \<Rightarrow> float64 list \<Rightarrow> float64 list outcome" where
  "shift_history x h = (case h of [] \<Rightarrow> Panics | _ # t \<Rightarrow> Returns (t @ [x]))"

definition jitter :: "(float64 \<Rightarrow> float64) \<Rightarrow> gotime \<Rightarrow> rat \<Rightarrow> float64" where
  "jitter f now amp = fmul (f (fdiv (f_of_int (unix_nano now)) (rnd 1000000000))) (rnd amp)"

definition tick_due :: "gotime \<Rightarrow> service \<Rightarrow> bool" where
  "tick_due now s \<longleftrightarrow> time_sub now (sv_last_tick s) > 1500 * 1000000"

definition tick_history ::
  "panel_env \<Rightarrow> (nat \<Rightarrow> gotime) \<Rightarrow> float64 \<Rightarrow> float64 \<Rightarrow> service \<Rightarrow> service outcome" where
  "tick_history env clock bandwidth latency s =
     (if tick_due (clock 0) s then
        (case shift_history (fmax (rnd 10) (fadd bandwidth (jitter (pe_sin env) (clock 1) (25 / 10))))
                (sv_history s) of
           Panics \<Rightarrow> Panics
         | Returns h \<Rightarrow>
             (case shift_history (fmax (rnd (8 / 10)) (fadd latency (jitter (pe_cos env) (clock 2) (8 / 100))))
                     (sv_lat_history s) of
                Panics \<Rightarrow> Panics
              | Returns l \<Rightarrow>
                  Returns (s\<lparr>sv_history := h, sv_lat_history := l, sv_last_tick := clock 3\<rparr>)))
      else Returns s)"

definition get_control_panel ::
  "panel_env \<Rightarrow> (nat \<Rightarrow> gotime) \<Rightarrow> string list \<Rightarrow> service \<Rightarrow> control_panel outcome \<times> service" where
  "get_control_panel env clock ord s =
     (case list_filtered ord [] [] [] 1 100 (sv_repo s) of
        (Panics, repo') \<Rightarrow> (Panics, s\<lparr>sv_repo := repo'\<rparr>)
      | (Returns (sts, n), repo') \<Rightarrow>
          let s1 = s\<lparr>sv_repo := repo'\<rparr>;
              online = int (length (filter is_online sts));
              latency = panel_latency sts; bandwidth = panel_bandwidth sts;
              (score, sla) = panel_score online n
          in case tick_history env clock bandwidth latency s1 of
               Panics \<Rightarrow> (Panics, s1)
             | Returns s2 \<Rightarrow>
                 (Returns
                   \<lparr>cp_health_score = score, cp_sla_status = sla,
                    cp_nodes_summary = (if pe_hostname env = [] then ''localhost'' else pe_hostname env) @
                      '' | '' @ int_str (pe_cores env) @ '' Cores'',
                    cp_avg_latency = latency,
                    cp_shm_occupancy =
                      (let o' = sh_occupancy (get_shm_telemetry (pe_statfs env))
                       in if fle o' (Fin 0) then rnd (1 / 10) else o'),
                    cp_peak_bandwidth = bandwidth, cp_bandwidth_history = sv_history s2,
                    cp_latency_history = sv_lat_history s2, cp_active_streams = n,
                    cp_ingest_fps = sum_floats st_ingest_fps sts\<rparr>, s2))"

section \<open>Topology and system information\<close>

record host_env =
  he_hostname :: string
  he_addrs :: "(string \<times> bool \<times> bool) list"
  he_arch :: string
  he_os :: string
  he_cores :: int
  he_alloc :: "64 word"

text \<open>
  An interface address is its text, whether it is a loopback address and whether it is IPv4; the
  first IPv4 address that is not loopback is taken.
\<close>

definition local_ip :: "(string \<times> bool \<times> bool) list \<Rightarrow> string" where
  "local_ip addrs =
     (case find (\<lambda>(ip, loopback, v4). \<not> loopback \<and> v4) addrs of
        None \<Rightarrow> ''127.0.0.1'' | Some (ip, _) \<Rightarrow> ip)"

record cluster_node =
  nd_name :: string
  nd_ip :: string
  nd_cpu :: string
  nd_gpu :: string
  nd_decoder :: string
  nd_status :: string
  nd_load :: float64
  nd_memory :: float64
  nd_active :: string
  nd_type :: string

record topology_node =
  tn_name :: string
  tn_ip :: string
  tn_cpu :: string
  tn_gpu :: string
  tn_decoder :: string

record consumer_routing =
  cr_analytic :: string
  cr_target :: string
  cr_same_node :: bool
  cr_transport :: string
  cr_hardware :: string

record cluster_topology =
  ct_stream_id :: string
  ct_ingestion :: topology_node
  ct_routes :: "consumer_routing list"
  ct_nodes :: "cluster_node list"

definition local_node :: "host_env \<Rightarrow> hardware_info \<Rightarrow> int \<Rightarrow> cluster_node" where
  "local_node env hw n =
     (let host = (if he_hostname env = [] then ''localhost'' else he_hostname env);
          mem = fmin (rnd 95) (fmax (rnd 8)
                  (fdiv (f_of_int (uint (he_alloc env))) (rnd (1024 * 1024 * 10))))
      in \<lparr>nd_name = host @ '' (Local Machine)'', nd_ip = local_ip (he_addrs env),
          nd_cpu = he_arch env @ '' / '' @ he_os env @ '' ('' @ int_str (he_cores env) @ '' Cores)'',
          nd_gpu = hw_model hw, nd_decoder = hw_engine hw, nd_status = ''ONLINE'',
          nd_load = fmax (rnd 5) (hw_gpu_util hw), nd_memory = fmax mem (hw_vram_pct hw),
          nd_active = int_str n @ '' active stream(s)'', nd_type = ''gpu-leader''\<rparr>)"

definition get_cluster_topology ::
  "host_env \<Rightarrow> string list \<Rightarrow> string option \<Rightarrow> string \<Rightarrow> service \<Rightarrow> cluster_topology outcome \<times> service" where
  "get_cluster_topology env ord smi stream_id s =
     (case list_filtered ord [] [] [] 1 100 (sv_repo s) of
        (Panics, repo') \<Rightarrow> (Panics, s\<lparr>sv_repo := repo'\<rparr>)
      | (Returns (_, n), repo') \<Rightarrow>
          let node = local_node env (detect_hardware smi) n
          in (Returns
               \<lparr>ct_stream_id = (if stream_id = [] then ''cam_entrance_01'' else stream_id),
                ct_ingestion =
                  \<lparr>tn_name = nd_name node, tn_ip = nd_ip node, tn_cpu = nd_cpu node,
                   tn_gpu = nd_gpu node, tn_decoder = nd_decoder node\<rparr>,
                ct_routes =
                  [\<lparr>cr_analytic = ''yolo_detection'', cr_target = nd_name node, cr_same_node = True,
                    cr_transport = ''CUDA_IPC / POSIX_SHM (Zero-Copy Direct)'', cr_hardware = nd_gpu node\<rparr>],
                ct_nodes = [node]\<rparr>, s\<lparr>sv_repo := repo'\<rparr>))"

record system_info =
  si_app_name :: string
  si_version :: string
  si_uptime :: "64 word"
  si_engine_mode :: string
  si_gpu_detected :: bool
  si_gpu_model :: string
  si_features :: "(string \<times> bool) list"

definition get_system_info :: "gotime \<Rightarrow> string option \<Rightarrow> service \<Rightarrow> system_info" where
  "get_system_info now smi s =
     (let hw = detect_hardware smi
      in \<lparr>si_app_name = ''HydraStream Engine'', si_version = ''1.0.0'', si_uptime = uptime_seconds now (sv_repo s), si_engine_mode = hw_engine hw,
          si_gpu_detected = hw_detected hw, si_gpu_model = hw_model hw,
          si_features = [(''posix_shm'', True), (''cuda_ipc'', hw_detected hw), (''triton_grpc'', True)]\<rparr>)"

section \<open>Lemmas\<close>

lemma no_filter: "stream_matches (to_lower (trim_space [])) (to_lower (trim_space [])) = (\<lambda>_. True)"
  by (simp add: stream_matches_def trim_space_def trim_right_func_def trim_left_func_def to_lower_def
      fun_eq_iff)

lemma length_all_matches:
  "map_order ord (sr_streams r) \<Longrightarrow> length (sorted_matches ord [] [] sb r) = length ord"
  using length_range_map [of ord "sr_streams (settle_all r)"]
  by (simp add: sorted_matches_def no_filter map_order_def distinct_card [symmetric])

lemma list_first_page:
  assumes "map_order ord (sr_streams r)" and "1 \<le> limit" and "limit < 2 ^ 62" and "length ord < 2 ^ 62"
  shows "list_filtered ord [] [] sb 1 limit r =
    (Returns (take (nat limit) (sorted_matches ord [] [] sb r), int (length ord)), settle_all r)"
  using page_of_exact [of 1 limit "sorted_matches ord [] [] sb r"] assms
  by (simp add: list_filtered_def Let_def length_all_matches norm_page_def norm_limit_def)

lemma set_all_matches:
  "map_order ord (sr_streams r) \<Longrightarrow>
   set (sorted_matches ord [] [] sb r) = {s. \<exists>i st. repo_get r i = Some st \<and> s = settle_score st}"
  using set_sorted_matches [of ord r "[]" "[]" sb] by (simp add: no_filter)

lemma is_online_settle [simp]: "is_online (settle_score st) = is_online st"
  by (simp add: is_online_def)

lemma below_all_online:
  assumes "100 < n" and "n < 2 ^ 53"
  shows "flt (fst (panel_score 100 n)) (Fin 100)"
proof -
  have n: "f_of_int n = Fin (of_int n)" "f_of_int 100 = Fin 100"
    using assms rnd_of_int [of n] by (simp_all add: f_of_int_def)
  have r1: "rnd (1014 / 1024) = Fin (1014 / 1024)" "rnd (101400 / 1024) = Fin (101400 / 1024)"
    using rnd_dyadic [of 1014 10] rnd_dyadic [of 101400 10] by simp_all
  have "(101::rat) \<le> of_int n" using assms(1) by (metis of_int_le_iff of_int_numeral add1_zle_eq numeral_plus_one semiring_norm(2,3,4,5,6))
  then have "100 / of_int n \<le> (1014 / 1024 :: rat)" "0 \<le> 100 / (of_int n :: rat)"
    by (simp_all add: field_simps)
  then have "fin_in 0 (1014 / 1024) (rnd (100 / of_int n))"
    using r1 by (intro fin_in_rnd) simp_all
  moreover have "(of_int n :: rat) \<noteq> 0" using assms(1) by simp
  ultimately have "fin_in 0 (1014 / 1024) (fdiv (f_of_int 100) (f_of_int n))" by (simp add: n)
  then have "fin_in 0 (1014 / 1024 * 100) (fmul (fdiv (f_of_int 100) (f_of_int n)) (rnd 100))"
    using r1 by (intro fin_in_mult) (simp_all add: fin_inI)
  then show ?thesis
    using assms(1) by (auto simp: panel_score_def Let_def fin_in_def)
qed

definition histories_ok :: "service \<Rightarrow> bool" where
  "histories_ok s \<longleftrightarrow> length (sv_history s) = 7 \<and> length (sv_lat_history s) = 7"

lemma shift_history_ok: "length h = 7 \<Longrightarrow> \<exists>h'. shift_history x h = Returns h' \<and> length h' = 7"
  by (cases h) (simp_all add: shift_history_def)

lemma tick_history_ok:
  "histories_ok s \<Longrightarrow> \<exists>s'. tick_history env clock b l s = Returns s' \<and> histories_ok s' \<and>
     sv_repo s' = sv_repo s"
  using shift_history_ok [of "sv_history s" "fmax (rnd 10) (fadd b (jitter (pe_sin env) (clock 1) (25 / 10)))"]
    shift_history_ok [of "sv_lat_history s" "fmax (rnd (8 / 10)) (fadd l (jitter (pe_cos env) (clock 2) (8 / 100)))"]
  by (auto simp: tick_history_def histories_ok_def)

section \<open>Properties\<close>

text \<open>
  Health counts every stream once while there are at most 500: the request returns, online and
  offline streams add up to the total, which is the number of stored streams, and the status is
  degraded exactly if more than 20 errors are in the log buffer or some stored stream has a status
  other than \<open>online\<close> and \<open>ONLINE\<close>.
\<close>

theorem health_counts_streams:
  assumes "map_order ord (sr_streams (sv_repo s))" and "length ord \<le> 500"
  shows "\<exists>h s'. get_health now1 now2 ord smi s = (Returns h, s') \<and>
    hl_online h + hl_offline h = hl_total_streams h \<and>
    hl_total_streams h = int (card (dom (svc_stream s))) \<and>
    (hl_status h = ''degraded'') =
      (es_total_errors (svc_error_summary s) > 20 \<or> (\<exists>i st. svc_stream s i = Some st \<and> \<not> is_online st)) \<and>
    hl_status h \<in> {''healthy'', ''degraded''}"
proof -
  define xs where "xs = sorted_matches ord [] [] [] (sv_repo s)"
  have lf: "list_filtered ord [] [] [] 1 500 (sv_repo s) =
      (Returns (xs, int (length ord)), settle_all (sv_repo s))"
    using list_first_page [OF assms(1), of 500 "[]"] assms(2) length_all_matches [OF assms(1), of "[]"]
    by (simp add: xs_def)
  have len: "length (filter is_online xs) + length (filter (\<lambda>st. \<not> is_online st) xs) = length ord"
    using sum_length_filter_compl [of is_online xs] length_all_matches [OF assms(1), of "[]"]
    by (simp add: xs_def)
  have card: "length ord = card (dom (svc_stream s))"
  proof -
    have "dom (svc_stream s) = set ord"
      using assms(1) by (simp add: svc_stream_def repo_get_def map_order_def dom_def)
    then show ?thesis using assms(1) distinct_card [of ord] by (simp add: map_order_def)
  qed
  have off: "filter (\<lambda>st. \<not> is_online st) xs \<noteq> [] \<longleftrightarrow> (\<exists>i st. svc_stream s i = Some st \<and> \<not> is_online st)"
    using set_all_matches [OF assms(1), of "[]"]
    by (force simp: xs_def filter_empty_conv svc_stream_def)
  have "int (length (filter is_online xs)) + int (length (filter (\<lambda>st. \<not> is_online st) xs)) =
      int (card (dom (svc_stream s)))"
    using len card by linarith
  moreover have "(0 < int (length (filter (\<lambda>st. \<not> is_online st) xs))) =
      (\<exists>i st. svc_stream s i = Some st \<and> \<not> is_online st)"
    using off by simp
  ultimately show ?thesis
    by (simp add: get_health_def lf Let_def svc_error_summary_def card)
qed

text \<open>
  The dashboard reports a healthy fleet as degraded once it has more than 100 streams: with every
  stored stream online, only the first 100 are counted against the total, so the score is below
  100 and the SLA text says DEGRADED.
\<close>

theorem panel_degrades_past_100:
  assumes "map_order ord (sr_streams (sv_repo s))" and "100 < length ord" and "length ord < 2 ^ 53"
    and "\<And>i st. svc_stream s i = Some st \<Longrightarrow> is_online st" and "histories_ok s"
  shows "\<exists>cp s'. get_control_panel env clock ord s = (Returns cp, s') \<and>
    cp_active_streams cp = int (length ord) \<and> flt (cp_health_score cp) (Fin 100) \<and>
    take 8 (cp_sla_status cp) = ''DEGRADED''"
proof -
  define xs where "xs = take 100 (sorted_matches ord [] [] [] (sv_repo s))"
  have lf: "list_filtered ord [] [] [] 1 100 (sv_repo s) =
      (Returns (xs, int (length ord)), settle_all (sv_repo s))"
    using list_first_page [OF assms(1), of 100 "[]"] assms(3) by (simp add: xs_def)
  have "is_online st" if "st \<in> set xs" for st
    using that set_all_matches [OF assms(1), of "[]"] assms(4)
    by (auto simp: xs_def svc_stream_def dest!: in_set_takeD)
  then have "filter is_online xs = xs" by simp
  moreover have "length xs = 100"
    using assms(2) length_all_matches [OF assms(1), of "[]"] by (simp add: xs_def)
  ultimately have on: "int (length (filter is_online xs)) = 100" by simp
  define sc where "sc = panel_score 100 (int (length ord))"
  have low: "flt (fst sc) (Fin 100)"
    unfolding sc_def using assms(2,3) by (intro below_all_online) simp_all
  then have sla: "take 8 (snd sc) = ''DEGRADED''"
    using assms(2) unfolding sc_def panel_score_def Let_def by (cases ord) simp_all
  have "histories_ok (s\<lparr>sv_repo := settle_all (sv_repo s)\<rparr>)"
    using assms(5) by (simp add: histories_ok_def)
  then obtain s2 where "tick_history env clock (panel_bandwidth xs) (panel_latency xs)
      (s\<lparr>sv_repo := settle_all (sv_repo s)\<rparr>) = Returns s2"
    using tick_history_ok by blast
  then show ?thesis
    using low sla by (simp add: get_control_panel_def lf on Let_def sc_def [symmetric] case_prod_beta)
qed

text \<open>
  The dashboard's histories always hold seven values, so their slice expressions never panic: the
  constructor and ResetChaos set them to seven, and a dashboard request on at most 2^53 streams
  returns, keeps the length and reports both histories whole.
\<close>

theorem histories_never_shrink:
  assumes "histories_ok s" and "map_order ord (sr_streams (sv_repo s))" and "length ord < 2 ^ 53"
  shows "\<exists>cp s'. get_control_panel env clock ord s = (Returns cp, s') \<and> histories_ok s' \<and>
    length (cp_bandwidth_history cp) = 7 \<and> length (cp_latency_history cp) = 7 \<and>
    histories_ok (reset_chaos s')"
proof -
  define xs where "xs = take 100 (sorted_matches ord [] [] [] (sv_repo s))"
  have lf: "list_filtered ord [] [] [] 1 100 (sv_repo s) =
      (Returns (xs, int (length ord)), settle_all (sv_repo s))"
    using list_first_page [OF assms(2), of 100 "[]"] assms(3) by (simp add: xs_def)
  have "histories_ok (s\<lparr>sv_repo := settle_all (sv_repo s)\<rparr>)"
    using assms(1) by (simp add: histories_ok_def)
  then obtain s2 where t: "tick_history env clock (panel_bandwidth xs) (panel_latency xs)
      (s\<lparr>sv_repo := settle_all (sv_repo s)\<rparr>) = Returns s2" "histories_ok s2"
    using tick_history_ok by blast
  then show ?thesis
    by (simp add: get_control_panel_def lf Let_def histories_ok_def reset_chaos_def
        initial_history_def initial_lat_history_def split: prod.split)
qed

section \<open>Concrete requests\<close>

definition online_cam :: stream where
  "online_cam = cam\<lparr>st_status := ''online''\<rparr>"

definition fleet_ids :: "nat \<Rightarrow> string list" where
  "fleet_ids n = map (\<lambda>k. replicate k CHR ''a'') [0..<n]"

definition fleet :: "nat \<Rightarrow> service" where
  "fleet n = empty_service\<lparr>sv_history := initial_history, sv_lat_history := initial_lat_history,
     sv_repo := \<lparr>sr_streams = (\<lambda>i. if i \<in> set (fleet_ids n) then Some online_cam else None),
                 sr_start_time = 0\<rparr>\<rparr>"

definition no_env :: panel_env where
  "no_env = \<lparr>pe_hostname = [], pe_cores = 4, pe_statfs = None, pe_sin = (\<lambda>x. x), pe_cos = (\<lambda>x. x)\<rparr>"

lemma fleet_order: "map_order (fleet_ids n) (sr_streams (sv_repo (fleet n)))"
proof -
  have "inj (\<lambda>k. replicate k CHR ''a'')" by (metis injI length_replicate)
  then have "distinct (fleet_ids n)" by (simp add: fleet_ids_def distinct_map inj_on_def)
  then show ?thesis by (auto simp: map_order_def fleet_def dom_def)
qed

lemma fleet_online: "svc_stream (fleet n) i = Some st \<Longrightarrow> is_online st"
  by (auto simp: svc_stream_def repo_get_def fleet_def is_online_def online_cam_def split: if_splits)

lemma fleet_histories: "histories_ok (fleet n)"
  by (simp add: histories_ok_def fleet_def initial_history_def initial_lat_history_def)

lemma fleet_size [simp]: "length (fleet_ids n) = n"
  by (simp add: fleet_ids_def)

theorem health_counts_streams_witness:
  "\<exists>h s'. get_health 7 8 (fleet_ids 3) None (fleet 3) = (Returns h, s') \<and>
     hl_online h + hl_offline h = hl_total_streams h"
  using health_counts_streams [OF fleet_order [of 3], of 7 8 None] by auto

theorem panel_degrades_past_100_witness:
  "\<exists>cp s'. get_control_panel no_env (\<lambda>_. 7) (fleet_ids 101) (fleet 101) = (Returns cp, s') \<and>
     flt (cp_health_score cp) (Fin 100) \<and> take 8 (cp_sla_status cp) = ''DEGRADED''"
  using panel_degrades_past_100 [OF fleet_order [of 101] _ _ fleet_online [of 101] fleet_histories,
      where env = no_env and clock = "\<lambda>_. 7"] by force

theorem histories_never_shrink_witness:
  "\<exists>cp s'. get_control_panel no_env (\<lambda>_. 7) (fleet_ids 3) (fleet 3) = (Returns cp, s') \<and>
     length (cp_bandwidth_history cp) = 7"
  using histories_never_shrink [OF fleet_histories fleet_order [of 3],
      where env = no_env and clock = "\<lambda>_. 7"] by auto

end
