(* ===== verification/CameraSync.thy ===== *)
theory CameraSync
  imports StreamService Telemetry
begin

text \<open>
  \<^verbatim>\<open>cmd/hydrastream/sync.go\<close>: every five seconds the streams are made to agree with the camera
  database of HydraVMS, if one is found at the start. The output of \<^verbatim>\<open>sqlite3\<close> is an argument.
\<close>

section \<open>One synchronisation\<close>

definition sync_field :: "string list \<Rightarrow> nat \<Rightarrow> string" where
  "sync_field parts i = trim_space (parts ! i)"

text \<open>A line of the output: the camera's id, its URL and its codec, if it is usable.\<close>

definition camera_row :: "string \<Rightarrow> (string \<times> string \<times> string) option" where
  "camera_row line =
     (let parts = split_char CHR ''|'' line
      in if length parts < 2 then None
         else
           let codec = (if length parts > 3 \<and> sync_field parts 3 \<noteq> [] then sync_field parts 3 else ''h264'')
           in if sync_field parts 0 = [] \<or> sync_field parts 1 = [] then None
              else Some (sync_field parts 0, sync_field parts 1, codec))"

definition camera_rows :: "string \<Rightarrow> (string \<times> string \<times> string) list" where
  "camera_rows out = List.map_filter camera_row (split_char newline (trim_space out))"

definition camera_stream :: "string \<times> string \<times> string \<Rightarrow> stream" where
  "camera_stream row =
     (case row of (sid, url, codec) \<Rightarrow>
        zero_stream\<lparr>st_tenant_id := ''default'', st_stream_id := sid, st_source_url := url,
          st_decoding_engine := ''mjpeg_and_wsp'', st_codec := codec, st_status := ''active'',
          st_ingest_fps := rnd 25\<rparr>)"

text \<open>\<open>clocks n\<close> is the clock of the \<open>n\<close>-th registration or deletion.\<close>

fun register_rows ::
  "(nat \<Rightarrow> nat \<Rightarrow> gotime) \<Rightarrow> (string \<times> string \<times> string) list \<Rightarrow> service \<Rightarrow> service" where
  "register_rows clocks [] s = s"
| "register_rows clocks (row # rows) s =
     register_rows (\<lambda>n. clocks (Suc n)) rows
       (snd (snd (register_stream (clocks 0) (camera_stream row) s)))"

definition stale :: "string set \<Rightarrow> stream \<Rightarrow> bool" where
  "stale ids st \<longleftrightarrow> st_stream_id st \<noteq> ''cam_entrance_01'' \<and> st_stream_id st \<notin> ids"

fun delete_streams :: "(nat \<Rightarrow> nat \<Rightarrow> gotime) \<Rightarrow> stream list \<Rightarrow> service \<Rightarrow> service" where
  "delete_streams clocks [] s = s"
| "delete_streams clocks (st # sts) s =
     delete_streams (\<lambda>n. clocks (Suc n)) sts (snd (delete_stream (clocks 0) (st_stream_id st) s))"

definition sync_once ::
  "(nat \<Rightarrow> nat \<Rightarrow> gotime) \<Rightarrow> (nat \<Rightarrow> nat \<Rightarrow> gotime) \<Rightarrow> string list \<Rightarrow> string option \<Rightarrow> service
   \<Rightarrow> service outcome" where
  "sync_once clocks1 clocks2 ord out s =
     (case out of
        None \<Rightarrow> Returns s
      | Some dump \<Rightarrow>
          let rows = camera_rows dump;
              s1 = register_rows clocks1 rows s
          in (case list_streams ord [] [] [] 1 500 s1 of
                (Panics, _) \<Rightarrow> Panics
              | (Returns (sts, _), s2) \<Rightarrow>
                  Returns (delete_streams clocks2 (filter (stale (fst ` set rows)) sts) s2)))"

section \<open>The loop\<close>

text \<open>The first database there is; if there is none the goroutine ends.\<close>

definition sync_database :: "(string \<Rightarrow> bool) \<Rightarrow> string option" where
  "sync_database exists = find exists [''../hydravms/hydravms.db'', ''hydravms.db'']"

text \<open>One round at the start and one for each tick; \<open>ro_out\<close> is the output for a database.\<close>

record sync_round =
  ro_clocks1 :: "nat \<Rightarrow> nat \<Rightarrow> gotime"
  ro_clocks2 :: "nat \<Rightarrow> nat \<Rightarrow> gotime"
  ro_order :: "string list"
  ro_out :: "string \<Rightarrow> string option"

fun sync_rounds :: "string \<Rightarrow> sync_round list \<Rightarrow> service \<Rightarrow> service outcome" where
  "sync_rounds db [] s = Returns s"
| "sync_rounds db (r # rs) s =
     (case sync_once (ro_clocks1 r) (ro_clocks2 r) (ro_order r) (ro_out r db) s of
        Panics \<Rightarrow> Panics
      | Returns s' \<Rightarrow> sync_rounds db rs s')"

definition sync_cameras_from_db :: "(string \<Rightarrow> bool) \<Rightarrow> sync_round list \<Rightarrow> service \<Rightarrow> service outcome" where
  "sync_cameras_from_db exists rounds s =
     (case sync_database exists of None \<Rightarrow> Returns s | Some db \<Rightarrow> sync_rounds db rounds s)"

section \<open>What it does\<close>

lemma camera_row_named: "camera_row line = Some (sid, url, codec) \<Longrightarrow> sid \<noteq> [] \<and> url \<noteq> [] \<and> codec \<noteq> []"
  by (auto simp: camera_row_def Let_def split: if_splits)

lemma camera_rows_named: "(sid, url, codec) \<in> set (camera_rows out) \<Longrightarrow> sid \<noteq> [] \<and> url \<noteq> [] \<and> codec \<noteq> []"
  using camera_row_named by (fastforce simp: camera_rows_def map_filter_def)

lemma camera_stream_fields [simp]:
  "st_stream_id (camera_stream row) = fst row" "st_source_url (camera_stream row) = fst (snd row)"
  "st_tenant_id (camera_stream row) = ''default''" "st_consumers (camera_stream row) = []"
  by (simp_all add: camera_stream_def zero_stream_def split: prod.split)

definition keyed :: "service \<Rightarrow> bool" where
  "keyed s \<longleftrightarrow> (\<forall>i st. svc_stream s i = Some st \<longrightarrow> i \<noteq> [] \<and> st_stream_id st = i)"

lemma register_row:
  assumes "fst row \<noteq> []"
  shows "svc_stream (snd (snd (register_stream clock (camera_stream row) s))) j =
      (if j = fst row then Some (set_defaults (clock 0) (camera_stream row)) else svc_stream s j)"
proof -
  obtain e st' s' where r: "register_stream clock (camera_stream row) s = (e, st', s')" by (metis surj_pair)
  have "st_stream_id (camera_stream row) \<noteq> []" using assms by simp
  then show ?thesis using register_valid(2,3) [OF _ r] by (simp add: r)
qed

lemma register_rows_stream:
  "\<forall>row \<in> set rows. fst row \<noteq> [] \<Longrightarrow>
   i \<notin> fst ` set rows \<and> svc_stream (register_rows clocks rows s) i = svc_stream s i \<or>
   (\<exists>row \<in> set rows. \<exists>now. fst row = i \<and>
      svc_stream (register_rows clocks rows s) i = Some (set_defaults now (camera_stream row)))"
proof (induction rows arbitrary: clocks s)
  case (Cons row rows)
  let ?s = "snd (snd (register_stream (clocks 0) (camera_stream row) s))"
  have head: "svc_stream ?s i = (if i = fst row then Some (set_defaults (clocks 0 0) (camera_stream row)) else svc_stream s i)"
    using Cons.prems by (simp add: register_row)
  show ?case
    using Cons.IH [of "\<lambda>n. clocks (Suc n)" ?s] Cons.prems head by (auto split: if_splits)
qed simp

lemma delete_streams_stream:
  "\<forall>st \<in> set sts. st_stream_id st \<noteq> [] \<Longrightarrow>
   svc_stream (delete_streams clocks sts s) i =
     (if i \<in> st_stream_id ` set sts then None else svc_stream s i)"
proof (induction sts arbitrary: clocks s)
  case (Cons st sts)
  have "svc_stream (snd (delete_stream (clocks 0) (st_stream_id st) s)) i =
      (if i = st_stream_id st then None else svc_stream s i)"
    using delete_stream_effect(2) [of "st_stream_id st" "clocks 0" s, OF _ prod.collapse [symmetric]] Cons.prems
    by simp
  then show ?case using Cons by (cases "i = st_stream_id st") simp_all
qed simp

lemma keyed_rows:
  assumes "keyed s" and "\<forall>row \<in> set rows. fst row \<noteq> []"
  shows "keyed (register_rows clocks rows s)"
  unfolding keyed_def
proof (intro allI impI)
  fix i st
  assume "svc_stream (register_rows clocks rows s) i = Some st"
  then show "i \<noteq> [] \<and> st_stream_id st = i"
    using register_rows_stream [OF assms(2), of i clocks s] assms
    by (elim disjE) (metis keyed_def, auto)
qed

lemma sync_once_mirrors:
  assumes "keyed s" and "out = Some dump" and "ids = fst ` set (camera_rows dump)"
    and "map_order ord (sr_streams (sv_repo (register_rows clocks1 (camera_rows dump) s)))"
    and "length ord \<le> 500" and "sync_once clocks1 clocks2 ord out s = res"
  shows "\<exists>s'. res = Returns s' \<and>
    (svc_stream s' i \<noteq> None) = (i \<in> ids \<or> i = ''cam_entrance_01'' \<and> svc_stream s i \<noteq> None) \<and>
    (i \<notin> ids \<or> (\<exists>st. svc_stream s' i = Some st \<and> st_tenant_id st = ''default'' \<and> st_consumers st = []))"
proof -
  let ?rows = "camera_rows dump"
  let ?s1 = "register_rows clocks1 ?rows s"
  let ?sts = "sorted_matches ord [] [] [] (sv_repo ?s1)"
  have named: "\<forall>row \<in> set ?rows. fst row \<noteq> []" using camera_rows_named by fastforce
  note k = keyed_rows [OF assms(1) named, of clocks1]
  have page: "list_filtered ord [] [] [] 1 500 (sv_repo ?s1) =
      (Returns (?sts, int (length ord)), settle_all (sv_repo ?s1))"
    using list_first_page [OF assms(4), of 500 "[]"] length_all_matches [OF assms(4), of "[]"] assms(5) by simp
  let ?s2 = "?s1\<lparr>sv_repo := settle_all (sv_repo ?s1)\<rparr>"
  let ?dead = "filter (stale ids) ?sts"
  define s' where "s' = delete_streams clocks2 ?dead ?s2"
  have res: "res = Returns s'"
    using assms(2,6) page by (simp add: sync_once_def Let_def list_streams_def s'_def assms(3))
  have members: "set ?sts = {x. \<exists>i st. svc_stream ?s1 i = Some st \<and> x = settle_score st}"
    using set_all_matches [OF assms(4)] by (simp add: svc_stream_def)
  have dead: "\<forall>st \<in> set ?dead. st_stream_id st \<noteq> []" using k members by (auto simp: keyed_def)
  have gone: "i \<in> st_stream_id ` set ?dead \<longleftrightarrow>
      svc_stream ?s1 i \<noteq> None \<and> i \<noteq> ''cam_entrance_01'' \<and> i \<notin> ids"
    using k by (fastforce simp: members keyed_def stale_def image_iff)
  have after: "svc_stream s' i = (if svc_stream ?s1 i \<noteq> None \<and> i \<noteq> ''cam_entrance_01'' \<and> i \<notin> ids
      then None else map_option settle_score (svc_stream ?s1 i))"
    using delete_streams_stream [OF dead, of clocks2 ?s2 i] gone
    by (simp add: s'_def svc_stream_def repo_get_settle_all)
  have "i \<notin> ids \<Longrightarrow> svc_stream ?s1 i = svc_stream s i"
    using register_rows_stream [OF named, of i clocks1 s] by (auto simp: assms(3))
  moreover have "i \<in> ids \<Longrightarrow> \<exists>st. svc_stream ?s1 i = Some st \<and> st_tenant_id st = ''default'' \<and> st_consumers st = []"
    using register_rows_stream [OF named, of i clocks1 s] by (auto simp: assms(3))
  ultimately show ?thesis
    using after by (intro exI [of _ s']) (cases "i \<in> ids"; auto simp: res)
qed

lemma delete_streams_cases:
  "svc_stream (delete_streams clocks sts s) i = None \<or> svc_stream (delete_streams clocks sts s) i = svc_stream s i"
proof (induction sts arbitrary: clocks s)
  case (Cons st sts)
  have "svc_stream (snd (delete_stream (clocks 0) (st_stream_id st) s)) i \<in> {None, svc_stream s i}"
    using delete_stream_effect(2) [of "st_stream_id st" "clocks 0" s, OF _ prod.collapse [symmetric]]
    by (cases "st_stream_id st = []") (simp_all add: delete_stream_empty)
  then show ?case
    using Cons.IH [of "\<lambda>n. clocks (Suc n)" "snd (delete_stream (clocks 0) (st_stream_id st) s)"] by auto
qed simp

lemma keyed_sync:
  assumes "keyed s" and "sync_once clocks1 clocks2 ord out s = Returns s'"
  shows "keyed s'"
proof (cases out)
  case (Some dump)
  let ?s1 = "register_rows clocks1 (camera_rows dump) s"
  have k: "keyed ?s1" using keyed_rows [OF assms(1)] camera_rows_named by fastforce
  obtain res s2 where l: "list_streams ord [] [] [] 1 500 ?s1 = (res, s2)" by (metis surj_pair)
  then have "svc_stream s2 i = map_option settle_score (svc_stream ?s1 i)" for i
    by (auto simp: list_streams_def svc_stream_def list_filtered_def Let_def repo_get_settle_all
        split: prod.splits)
  then have "keyed s2" using k by (auto simp: keyed_def)
  moreover obtain sts where "s' = delete_streams clocks2 sts s2"
    using assms(2) Some l by (auto simp: sync_once_def Let_def split: outcome.splits)
  ultimately show ?thesis
    using delete_streams_cases [of clocks2 sts s2] unfolding keyed_def by (metis option.distinct(1))
qed (use assms in \<open>simp add: sync_once_def\<close>)

lemma keyed_rounds: "sync_rounds db rs s = Returns s' \<Longrightarrow> keyed s \<Longrightarrow> keyed s'"
  by (induction rs arbitrary: s) (auto split: outcome.splits dest: keyed_sync)

lemma sync_rounds_append:
  "sync_rounds db (rs @ rs') s =
     (case sync_rounds db rs s of Panics \<Rightarrow> Panics | Returns s' \<Rightarrow> sync_rounds db rs' s')"
  by (induction rs arbitrary: s) (auto split: outcome.split)

section \<open>Properties\<close>

text \<open>
  C27: One synchronisation makes the streams those of the camera database: with at most 500 streams it
  returns, and afterwards exactly the cameras of the database are registered, besides
  \<open>cam_entrance_01\<close> if it was. A camera of the database is registered anew each time, under the
  tenant \<open>default\<close> and without the consumers it had; every other stream, such as one registered
  through the API, is gone.
\<close>

theorem sync_mirrors_database:
  assumes "keyed s" and "out = Some dump" and "ids = fst ` set (camera_rows dump)"
    and "map_order ord (sr_streams (sv_repo (register_rows clocks1 (camera_rows dump) s)))"
    and "length ord \<le> 500" and "sync_once clocks1 clocks2 ord out s = res"
  shows "\<exists>s'. res = Returns s' \<and>
    (svc_stream s' i \<noteq> None) = (i \<in> ids \<or> i = ''cam_entrance_01'' \<and> svc_stream s i \<noteq> None) \<and>
    (i \<notin> ids \<or> (\<exists>st. svc_stream s' i = Some st \<and> st_tenant_id st = ''default'' \<and> st_consumers st = []))"
  using assms by (rule sync_once_mirrors)

text \<open>
  However many rounds there have been, and whatever the database held in them, the streams are those of
  the last dump that was read.
\<close>

theorem sync_follows_last_dump:
  assumes "keyed s" and "sync_database exists = Some db" and "sync_rounds db rounds s = Returns s1"
    and "ro_out r db = Some dump" and "ids = fst ` set (camera_rows dump)"
    and "map_order (ro_order r) (sr_streams (sv_repo (register_rows (ro_clocks1 r) (camera_rows dump) s1)))"
    and "length (ro_order r) \<le> 500"
  shows "\<exists>s'. sync_cameras_from_db exists (rounds @ [r]) s = Returns s' \<and>
    (svc_stream s' i \<noteq> None) = (i \<in> ids \<or> i = ''cam_entrance_01'' \<and> svc_stream s1 i \<noteq> None)"
  using sync_once_mirrors [OF keyed_rounds [OF assms(3,1)] assms(4,5,6,7) refl, of "ro_clocks2 r" i]
    assms(2,3)
  by (auto simp: sync_cameras_from_db_def sync_rounds_append)

theorem sync_mirrors_database_witness:
  "\<exists>s'. sync_once (\<lambda>_ _. 9) (\<lambda>_ _. 9) [''cam1''] (Some []) cam_service = Returns s' \<and>
     svc_stream s' ''cam1'' = None"
proof -
  have rows: "camera_rows [] = []"
    by (simp add: camera_rows_def map_filter_def camera_row_def trim_space_def trim_left_func_def
        trim_right_func_def)
  have "dom (sr_streams (sv_repo cam_service)) = {''cam1''}"
    using cam_service_stream by (auto simp: svc_stream_def repo_get_def dom_def split: if_splits)
  then have "map_order [''cam1''] (sr_streams (sv_repo (register_rows (\<lambda>_ _. 9) (camera_rows []) cam_service)))"
    by (simp add: rows map_order_def)
  moreover have "keyed cam_service" by (auto simp: keyed_def cam_service_stream split: if_splits)
  ultimately show ?thesis
    using sync_mirrors_database [where i = "''cam1''" and s = cam_service and dump = "[]"
        and ord = "[''cam1'']" and ?clocks1.0 = "\<lambda>_ _. 9" and ?clocks2.0 = "\<lambda>_ _. 9", OF _ refl refl _ _ refl]
    by (auto simp: rows)
qed

end
