(* ===== verification/IngestLife.thy ===== *)
theory IngestLife
  imports Ingestor
begin

text \<open>
  How long an ingest worker lives: what happens to the goroutine of \<^verbatim>\<open>rtsp_worker.go\<close> once \<^verbatim>\<open>StopIngest\<close>
  has cancelled its context, over every infinite run of the steps of theory Ingestor.
\<close>

section \<open>Runs\<close>

definition ended :: "worker \<Rightarrow> bool" where
  "ended w \<longleftrightarrow> wk_phase w = Finished \<or> wk_phase w = Crashed"

text \<open>A worker that has ended stays as it is.\<close>

definition worker_run :: "bool \<Rightarrow> stream \<Rightarrow> (nat \<Rightarrow> worker) \<Rightarrow> bool" where
  "worker_run pub st run \<longleftrightarrow>
     (\<forall>n. worker_step pub st (run n) (run (Suc n)) \<or> ended (run n) \<and> run (Suc n) = run n)"

text \<open>
  No phase lasts for ever. Dialling and the stand-in pump have time limits, and the pump and the loop
  over frames look at the context. A read has no time limit: it ends when the camera sends or hangs up,
  or because \<^verbatim>\<open>StopIngest\<close> closes the connection of the session.
\<close>

definition phases_pass :: "(nat \<Rightarrow> worker) \<Rightarrow> bool" where
  "phases_pass run \<longleftrightarrow> (\<forall>n. \<not> ended (run n) \<longrightarrow> (\<exists>m \<ge> n. wk_phase (run (Suc m)) \<noteq> wk_phase (run m)))"

section \<open>A measure of what is left\<close>

fun phase_rank :: "worker_phase \<Rightarrow> nat" where
  "phase_rank Connecting = 6"
| "phase_rank Streaming = 5"
| "phase_rank Failed = 4"
| "phase_rank Pumping = 3"
| "phase_rank PumpingForever = 3"
| "phase_rank Deciding = 2"
| "phase_rank Finished = 0"
| "phase_rank Crashed = 0"

lemma cancelled_step:
  assumes "worker_step pub st w w'" and "wk_cancelled w"
  shows "wk_cancelled w' \<and> (wk_phase w' = wk_phase w \<or> phase_rank (wk_phase w') < phase_rank (wk_phase w))"
  using assms
  by cases (auto simp: worker_online_def worker_failed_def worker_pump_def start_pump_def Let_def)

lemma ended_step: "worker_step pub st w w' \<Longrightarrow> ended w \<Longrightarrow> ended w'"
  by (erule worker_stepE) (auto simp: ended_def)

lemma run_cancelled:
  assumes "worker_run pub st run" and "wk_cancelled (run k)"
  shows "k \<le> n \<Longrightarrow> wk_cancelled (run n)"
proof (induction rule: dec_induct)
  case (step n)
  then show ?case using assms(1) cancelled_step [of pub st "run n" "run (Suc n)"]
    by (auto simp: worker_run_def) metis
qed (rule assms(2))

lemma run_ended:
  assumes "worker_run pub st run" and "ended (run k)"
  shows "k \<le> n \<Longrightarrow> ended (run n)"
proof (induction rule: dec_induct)
  case (step n)
  then show ?case using assms(1) ended_step [of pub st "run n" "run (Suc n)"]
    by (auto simp: worker_run_def) metis
qed (rule assms(2))

lemma rank_antimono:
  assumes "worker_run pub st run" and "wk_cancelled (run k)" and "k \<le> m"
  shows "phase_rank (wk_phase (run m)) \<le> phase_rank (wk_phase (run k))"
  using assms(3)
proof (induction rule: dec_induct)
  case (step n)
  have "phase_rank (wk_phase (run (Suc n))) \<le> phase_rank (wk_phase (run n))"
    using assms(1) run_cancelled [OF assms(1,2) step(1)] cancelled_step [of pub st "run n" "run (Suc n)"]
    by (auto simp: worker_run_def) (metis le_refl less_imp_le)
  then show ?case using step.IH by simp
qed simp

section \<open>Properties\<close>

text \<open>
  C33: A stopped session ends: once the context of a session is cancelled, whatever its worker is doing,
  in every run in which no phase lasts for ever it comes to its end and stays there; no camera,
  failure or pump can bring it back to another connection.
\<close>

theorem stopped_worker_ends:
  assumes "worker_run pub st run" and "phases_pass run" and "wk_cancelled (run k)"
  shows "\<exists>n \<ge> k. \<forall>m \<ge> n. ended (run m) \<and> wk_cancelled (run m)"
proof -
  have "\<exists>n \<ge> k. ended (run n)" if "wk_cancelled (run k)" for k
    using that
  proof (induction "phase_rank (wk_phase (run k))" arbitrary: k rule: less_induct)
    case less
    show ?case
    proof (cases "ended (run k)")
      case False
      then obtain m where m: "m \<ge> k" "wk_phase (run (Suc m)) \<noteq> wk_phase (run m)"
        using assms(2) by (auto simp: phases_pass_def)
      have c: "wk_cancelled (run m)" "wk_cancelled (run (Suc m))"
        using run_cancelled [OF assms(1) less.prems] m(1) by simp_all
      have "phase_rank (wk_phase (run (Suc m))) < phase_rank (wk_phase (run m))"
        using assms(1) m(2) c(1) cancelled_step [of pub st "run m" "run (Suc m)"]
        by (auto simp: worker_run_def) metis
      then have "phase_rank (wk_phase (run (Suc m))) < phase_rank (wk_phase (run k))"
        using rank_antimono [OF assms(1) less.prems m(1)] by simp
      then show ?thesis using less.hyps c(2) m(1) by (meson Suc_leD dual_order.trans)
    qed auto
  qed
  then show ?thesis
    using assms(3) run_ended [OF assms(1)] run_cancelled [OF assms(1,3)] by (meson dual_order.trans)
qed

text \<open>
  The connection \<^verbatim>\<open>StopIngest\<close> closes is the one the session holds at that moment. If the dial has
  succeeded but the worker has not stored its connection yet, nothing is closed: the worker goes on
  with the handshake on a connection nobody will close, and only the camera can end its reads.
\<close>

theorem stop_misses_connection:
  "\<exists>w. worker_reach pub rtsp_stream w \<and> wk_cancelled w \<and> wk_phase w = Connecting \<and>
     ig_connected (wk_session w)"
proof -
  let ?w0 = "begin_worker 5 rtsp_stream"
  have "worker_reach pub rtsp_stream (?w0\<lparr>wk_phase := Connecting\<rparr>)"
    by (rule wr_step [OF wr_begin ws_connect]) (simp_all add: rtsp_stream_begin)
  note stop = wr_step [OF this ws_stop]
  show ?thesis
    by (rule exI, intro conjI, rule wr_step [OF stop ws_dial]) simp_all
qed

section \<open>A concrete run\<close>

definition stopped_worker :: worker where
  "stopped_worker = (begin_worker 5 rtsp_stream)\<lparr>wk_cancelled := True,
     wk_session := (wk_session (begin_worker 5 rtsp_stream))\<lparr>ig_status := ''stopped'', ig_connected := False\<rparr>\<rparr>"

definition stopped_run :: "nat \<Rightarrow> worker" where
  "stopped_run n =
     (if n = 0 then begin_worker 5 rtsp_stream
      else if n = 1 then stopped_worker else stopped_worker\<lparr>wk_phase := Finished\<rparr>)"

lemma stopped_run_ok: "worker_run True rtsp_stream stopped_run"
  unfolding worker_run_def
proof
  fix n :: nat
  consider "n = 0" | "n = 1" | "2 \<le> n" by linarith
  then show "worker_step True rtsp_stream (stopped_run n) (stopped_run (Suc n)) \<or>
      ended (stopped_run n) \<and> stopped_run (Suc n) = stopped_run n"
  proof cases
    case 1
    then show ?thesis
      using ws_stop [of True rtsp_stream "begin_worker 5 rtsp_stream"]
      by (simp add: stopped_run_def stopped_worker_def)
  next
    case 2
    have "worker_step True rtsp_stream stopped_worker (stopped_worker\<lparr>wk_phase := Finished\<rparr>)"
      by (rule ws_finish) (simp_all add: stopped_worker_def rtsp_stream_begin)
    then show ?thesis by (simp add: 2 stopped_run_def)
  next
    case 3
    then show ?thesis by (simp add: stopped_run_def ended_def)
  qed
qed

lemma stopped_run_passes: "phases_pass stopped_run"
  unfolding phases_pass_def
proof (intro allI impI)
  fix n
  assume "\<not> ended (stopped_run n)"
  then have "n \<le> 1" by (auto simp: stopped_run_def ended_def split: if_splits)
  then show "\<exists>m \<ge> n. wk_phase (stopped_run (Suc m)) \<noteq> wk_phase (stopped_run m)"
    by (intro exI [of _ 1]) (simp add: stopped_run_def stopped_worker_def rtsp_stream_begin)
qed

theorem stopped_worker_ends_witness:
  "\<exists>n \<ge> 1. \<forall>m \<ge> n. ended (stopped_run m) \<and> wk_cancelled (stopped_run m)"
  by (rule stopped_worker_ends [OF stopped_run_ok stopped_run_passes])
    (simp add: stopped_run_def stopped_worker_def)

end
