(* ===== verification/Base64.thy ===== *)
theory Base64
  imports RtspText
begin

text \<open>
  Go's \<^verbatim>\<open>encoding/base64\<close>: decoding with the raw URL-safe alphabet, which tokens use, and with the
  standard one, which images use. Standard encoding is in theory RtspText.
\<close>

section \<open>Raw URL-safe base64\<close>

definition url_alphabet :: string where
  "url_alphabet = ''ABCDEFGHIJKLMNOPQRSTUVWXYZabcdefghijklmnopqrstuvwxyz0123456789-_''"

fun index_in :: "'a list \<Rightarrow> 'a \<Rightarrow> nat option" where
  "index_in [] x = None"
| "index_in (y # ys) x = (if y = x then Some 0 else map_option Suc (index_in ys x))"

definition url_digit :: "char \<Rightarrow> nat option" where
  "url_digit c = index_in url_alphabet c"

text \<open>Four digits are three bytes; two or three digits at the end are one or two bytes.\<close>

fun decode_digits :: "nat list \<Rightarrow> string option" where
  "decode_digits [] = Some []"
| "decode_digits [a] = None"
| "decode_digits [a, b] = Some [char_of (a * 4 + b div 16)]"
| "decode_digits [a, b, c] = Some [char_of (a * 4 + b div 16), char_of (b * 16 + c div 4)]"
| "decode_digits (a # b # c # d # ds) =
     map_option (\<lambda>r. char_of (a * 4 + b div 16) # char_of (b * 16 + c div 4) # char_of (c * 64 + d) # r)
       (decode_digits ds)"

text \<open>\<^verbatim>\<open>DecodeString\<close> skips carriage returns and newlines and refuses any other foreign character.\<close>

fun url_digits :: "string \<Rightarrow> nat list option" where
  "url_digits [] = Some []"
| "url_digits (c # cs) =
     (if c \<in> set crlf then url_digits cs
      else case url_digit c of None \<Rightarrow> None | Some d \<Rightarrow> map_option (Cons d) (url_digits cs))"

definition b64url_decode :: "string \<Rightarrow> string option" where
  "b64url_decode s = (case url_digits s of None \<Rightarrow> None | Some ds \<Rightarrow> decode_digits ds)"

text \<open>Raw URL-safe base64 as RFC 4648 defines it.\<close>

fun encode_digits :: "string \<Rightarrow> nat list" where
  "encode_digits [] = []"
| "encode_digits [x] = (let a = of_char x in [a div 4, a mod 4 * 16])"
| "encode_digits [x, y] =
     (let a = of_char x; b = of_char y in [a div 4, a mod 4 * 16 + b div 16, b mod 16 * 4])"
| "encode_digits (x # y # z # cs) =
     (let a = of_char x; b = of_char y; c = of_char z
      in [a div 4, a mod 4 * 16 + b div 16, b mod 16 * 4 + c div 64, c mod 64] @ encode_digits cs)"

definition b64url_encode :: "string \<Rightarrow> string" where
  "b64url_encode s = map ((!) url_alphabet) (encode_digits s)"

lemma char_parts:
  "(of_char c :: nat) div 4 < 64" "(of_char c :: nat) div 16 < 16" "(of_char c :: nat) div 64 < 4"
  "(of_char c :: nat) div 16 div 16 = 0" "(of_char c :: nat) div 64 div 4 = 0"
  "(of_char c :: nat) mod 4 < 4" "(of_char c :: nat) mod 16 < 16"
  using of_char_less_256 [of c] by (simp_all add: less_mult_imp_div_less div_mult2_eq [symmetric])

lemma digits_below: "\<forall>d \<in> set (encode_digits s). d < 64"
proof (induction s rule: encode_digits.induct)
  case (2 x)
  then show ?case using char_parts [of x] by (simp add: Let_def)
next
  case (3 x y)
  then show ?case using char_parts [of x] char_parts [of y] by (simp add: Let_def)
next
  case (4 x y z cs)
  then show ?case
    using char_parts(1,6) [of x] char_parts(2,7) [of y] char_parts(3) [of z] by (auto simp: Let_def)
qed simp

lemma char_of_256: "char_of (m * 256 + n) = char_of (n :: nat)"
  by (metis char_of_mod_256 mod_mult_self3)

lemma three_bytes:
  fixes a b c :: nat
  assumes "a < 256" "b < 256" "c < 256"
  shows "a div 4 * 4 + (a mod 4 * 16 + b div 16) div 16 = a"
    "char_of ((a mod 4 * 16 + b div 16) * 16 + (b mod 16 * 4 + c div 64) div 4) = char_of b"
    "char_of ((b mod 16 * 4 + c div 64) * 64 + c mod 64) = char_of c"
proof -
  have q: "b div 16 < 16" "c div 64 < 4" using assms by linarith+
  then have d: "(a mod 4 * 16 + b div 16) div 16 = a mod 4" "(b mod 16 * 4 + c div 64) div 4 = b mod 16"
    by simp_all
  show "a div 4 * 4 + (a mod 4 * 16 + b div 16) div 16 = a" unfolding d by simp
  have "(a mod 4 * 16 + b div 16) * 16 + b mod 16 = a mod 4 * 256 + (b div 16 * 16 + b mod 16)" by simp
  then have "(a mod 4 * 16 + b div 16) * 16 + b mod 16 = a mod 4 * 256 + b" by simp
  then show "char_of ((a mod 4 * 16 + b div 16) * 16 + (b mod 16 * 4 + c div 64) div 4) = char_of b"
    unfolding d by (simp only: char_of_256)
  have "(b mod 16 * 4 + c div 64) * 64 + c mod 64 = b mod 16 * 256 + (c div 64 * 64 + c mod 64)" by simp
  then have "(b mod 16 * 4 + c div 64) * 64 + c mod 64 = b mod 16 * 256 + c" by simp
  then show "char_of ((b mod 16 * 4 + c div 64) * 64 + c mod 64) = char_of c"
    by (simp only: char_of_256)
qed

lemma decode_encode_digits: "decode_digits (encode_digits s) = Some s"
proof (induction s rule: encode_digits.induct)
  case (2 x)
  show ?case
    using three_bytes(1) [of "of_char x" 0 0] of_char_less_256 [of x] by (simp add: Let_def)
next
  case (3 x y)
  show ?case
    using three_bytes(1,2) [of "of_char x" "of_char y" 0] of_char_less_256 [of x] of_char_less_256 [of y]
      char_parts [of y] by (simp add: Let_def)
next
  case (4 x y z cs)
  show ?case
    using 4 three_bytes [of "of_char x" "of_char y" "of_char z"] of_char_less_256 [of x]
      of_char_less_256 [of y] of_char_less_256 [of z] char_parts(4) [of y] char_parts(5) [of z]
    by (simp add: Let_def)
qed simp

lemma index_in_nth: "distinct xs \<Longrightarrow> n < length xs \<Longrightarrow> index_in xs (xs ! n) = Some n"
  by (induction xs arbitrary: n) (auto simp: nth_Cons split: nat.splits)

lemma url_alphabet_distinct: "distinct url_alphabet" "length url_alphabet = 64"
  by (simp_all add: url_alphabet_def)

lemma url_alphabet_plain: "CHR ''.'' \<notin> set url_alphabet" "set crlf \<inter> set url_alphabet = {}"
  unfolding url_alphabet_def crlf_def by code_simp+

lemma url_digits_encode: "\<forall>d \<in> set ds. d < 64 \<Longrightarrow> url_digits (map ((!) url_alphabet) ds) = Some ds"
proof (induction ds)
  case (Cons d ds)
  then have "url_alphabet ! d \<in> set url_alphabet" "d < 64" by (simp_all add: url_alphabet_distinct)
  moreover from this have "url_alphabet ! d \<notin> set crlf" using url_alphabet_plain(2) by blast
  ultimately show ?case
    using Cons by (simp add: url_digit_def index_in_nth url_alphabet_distinct)
qed simp

lemma b64url_roundtrip: "b64url_decode (b64url_encode s) = Some s"
  using url_digits_encode [OF digits_below]
  by (simp add: b64url_decode_def b64url_encode_def decode_encode_digits)

lemma b64url_no_dot: "CHR ''.'' \<notin> set (b64url_encode s)"
  using digits_below [of s] url_alphabet_plain(1) url_alphabet_distinct(2)
  by (auto simp: b64url_encode_def)

section \<open>Standard base64\<close>

text \<open>Line breaks are skipped, the last four digits may be padded, and any other character is an error.\<close>

fun std_digits :: "string \<Rightarrow> nat list option" where
  "std_digits [] = Some []"
| "std_digits (a # b # c # d # rest) =
     (case (index_in b64_alphabet a, index_in b64_alphabet b) of
        (Some x, Some y) \<Rightarrow>
          if c = CHR ''='' \<and> d = CHR ''='' \<and> rest = [] then Some [x, y]
          else
            (case index_in b64_alphabet c of
               None \<Rightarrow> None
             | Some z \<Rightarrow>
                 if d = CHR ''='' \<and> rest = [] then Some [x, y, z]
                 else
                   (case (index_in b64_alphabet d, std_digits rest) of
                      (Some u, Some ds) \<Rightarrow> Some (x # y # z # u # ds)
                    | _ \<Rightarrow> None))
      | _ \<Rightarrow> None)"
| "std_digits _ = None"

definition b64_decode :: "string \<Rightarrow> string option" where
  "b64_decode s =
     (case std_digits (filter (\<lambda>c. c \<notin> set crlf) s) of None \<Rightarrow> None | Some ds \<Rightarrow> decode_digits ds)"

lemma b64_alphabet_facts: "distinct b64_alphabet" "length b64_alphabet = 64" "CHR ''='' \<notin> set b64_alphabet"
  by (simp_all add: b64_alphabet_def)

lemma index_b64 [simp]: "n < 64 \<Longrightarrow> index_in b64_alphabet (b64_char n) = Some n"
  by (simp add: b64_char_def index_in_nth b64_alphabet_facts)

lemma b64_char_neq [simp]: "n < 64 \<Longrightarrow> b64_char n \<noteq> CHR ''=''"
  using b64_alphabet_facts by (metis b64_char_def nth_mem)

lemma b64_char_printable: "n < 64 \<Longrightarrow> b64_char n \<notin> set crlf"
proof -
  assume n: "n < 64"
  have "set crlf \<inter> set b64_alphabet = {}" unfolding b64_alphabet_def crlf_def by code_simp
  then show ?thesis using n b64_alphabet_facts(2) by (auto simp: b64_char_def)
qed

lemma equals_printable: "CHR ''='' \<notin> set crlf"
  unfolding crlf_def by code_simp

text \<open>The digits of the encoder are those of the bytes it packs.\<close>

lemma packed_digits:
  fixes a b c :: nat
  assumes "a < 256" "b < 256" "c < 256"
  defines "n \<equiv> a * 65536 + b * 256 + c"
  shows "n div 262144 = a div 4" "n div 4096 mod 64 = a mod 4 * 16 + b div 16"
    "n div 64 mod 64 = b mod 16 * 4 + c div 64" "n mod 64 = c mod 64"
proof -
  have q: "b div 16 < 16" "c div 64 < 4" "b mod 16 < 16" "c mod 64 < 64" "a mod 4 < 4" using assms by linarith+
  have "a = a div 4 * 4 + a mod 4" by simp
  then have "n = (a div 4) * 262144 + (a mod 4 * 65536 + b * 256 + c)" unfolding n_def by linarith
  moreover have "a mod 4 * 65536 + b * 256 + c < 262144" using assms q by linarith
  ultimately show "n div 262144 = a div 4" by simp
  have b: "b = b div 16 * 16 + b mod 16" by simp
  have g: "x * 4096 + y * 256 = (x * 16 + y) * 256" for x y :: nat by simp
  have "b div 16 * 4096 + b mod 16 * 256 = b * 256"
    using g [of "b div 16" "b mod 16"] by (simp only: div_mult_mod_eq)
  then have "n = (a * 16 + b div 16) * 4096 + (b mod 16 * 256 + c)" unfolding n_def by simp
  moreover have "b mod 16 * 256 + c < 4096" using assms q by linarith
  ultimately have "n div 4096 = a * 16 + b div 16" by simp
  also have "\<dots> = a div 4 * 64 + (a mod 4 * 16 + b div 16)"
    using \<open>a = a div 4 * 4 + a mod 4\<close> by linarith
  finally show "n div 4096 mod 64 = a mod 4 * 16 + b div 16" using q by simp
  have g: "(64 * k + c) div 64 = k + c div 64" "(64 * k + c) mod 64 = c mod 64" for k by simp_all
  have "n = 64 * (a * 1024 + b * 4) + c" by (simp add: n_def)
  then have "n div 64 = a * 1024 + b * 4 + c div 64" "n mod 64 = c mod 64"
    by (simp_all only: g)
  moreover have "b div 16 * 64 + b mod 16 * 4 = b * 4"
  proof -
    have "x * 64 + y * 4 = (x * 16 + y) * 4" for x y :: nat by simp
    from this [of "b div 16" "b mod 16"] show ?thesis by (simp only: div_mult_mod_eq)
  qed
  ultimately have "n div 64 = 64 * (a * 16 + b div 16) + (b mod 16 * 4 + c div 64)" by simp
  moreover have "b mod 16 * 4 + c div 64 < 64" using q by linarith
  moreover have "(64 * k + r) mod 64 = r" if "r < 64" for k r :: nat using that by simp
  ultimately show "n div 64 mod 64 = b mod 16 * 4 + c div 64" by presburger
  show "n mod 64 = c mod 64" by fact
qed

lemma std_digits_encode:
  "std_digits (b64_encode s) = Some (encode_digits s) \<and> (\<forall>c \<in> set (b64_encode s). c \<notin> set crlf)"
proof (induction s rule: b64_encode.induct)
  case (2 a)
  have p: "(of_char a * 65536) div 262144 = (of_char a :: nat) div 4"
    "(of_char a * 65536) div 4096 mod 64 = (of_char a :: nat) mod 4 * 16"
    using packed_digits [of "of_char a" 0 0] of_char_less_256 [of a] by simp_all
  show ?case
    using char_parts(1) [of a] char_parts(6) [of a] unfolding b64_encode.simps Let_def p
    by (auto simp: Let_def b64_char_printable equals_printable)
next
  case (3 a b)
  have p: "(of_char a * 65536 + of_char b * 256) div 262144 = (of_char a :: nat) div 4"
    "(of_char a * 65536 + of_char b * 256) div 4096 mod 64 = (of_char a :: nat) mod 4 * 16 + of_char b div 16"
    "(of_char a * 65536 + of_char b * 256) div 64 mod 64 = (of_char b :: nat) mod 16 * 4"
    using packed_digits [of "of_char a" "of_char b" 0] of_char_less_256 [of a] of_char_less_256 [of b]
    by simp_all
  have d: "(of_char a :: nat) mod 4 * 16 + of_char b div 16 < 64" "(of_char b :: nat) mod 16 * 4 < 64"
    using char_parts(6) [of a] char_parts(2,7) [of b] by linarith+
  show ?case
    using char_parts(1) [of a] d unfolding b64_encode.simps Let_def p
    by (auto simp: Let_def b64_char_printable equals_printable)
next
  case (4 a b c cs)
  note p = packed_digits [of "of_char a" "of_char b" "of_char c", OF of_char_less_256 of_char_less_256 of_char_less_256]
  have d: "(of_char a :: nat) mod 4 * 16 + of_char b div 16 < 64"
    "(of_char b :: nat) mod 16 * 4 + of_char c div 64 < 64" "(of_char c :: nat) mod 64 < 64"
    using char_parts(6) [of a] char_parts(2,7) [of b] char_parts(3) [of c] by linarith+
  show ?case
    using char_parts(1) [of a] d 4 unfolding b64_encode.simps Let_def p
    by (auto simp: Let_def b64_char_printable)
qed simp

lemma b64_roundtrip: "b64_decode (b64_encode s) = Some s"
proof -
  have "filter (\<lambda>c. c \<notin> set crlf) (b64_encode s) = b64_encode s"
    using std_digits_encode [of s] by (simp add: filter_id_conv)
  then show ?thesis using std_digits_encode [of s] by (simp add: b64_decode_def decode_encode_digits)
qed

end
