(* ===== verification/Auth.thy ===== *)
theory Auth
  imports DomainFragment Base64
begin

text \<open>
  \<^verbatim>\<open>internal/adapters/primary/http/middleware\<close>: tokens, authentication and roles. HMAC-SHA256 is a
  function of key and message, and \<^verbatim>\<open>json.Unmarshal\<close> into the claims is a function of the payload;
  both are arguments. Base64 is theory Base64.
\<close>

section \<open>Tokens\<close>

definition get_jwt_secret :: "string \<Rightarrow> string \<Rightarrow> string" where
  "get_jwt_secret env random_key = (if length env \<ge> 32 then env else random_key)"

record jwt_claims =
  jc_user_id :: string
  jc_tenant_id :: string
  jc_role :: string
  jc_exp :: int

record jwt_env =
  je_secret :: string
  je_hmac :: "string \<Rightarrow> string \<Rightarrow> string"
  je_claims :: "string \<Rightarrow> jwt_claims option"

definition fill_claims :: "jwt_claims \<Rightarrow> jwt_claims" where
  "fill_claims c =
     (let c1 = (if jc_tenant_id c = [] then c\<lparr>jc_tenant_id := ''default''\<rparr> else c)
      in if jc_role c1 = [] then c1\<lparr>jc_role := ''viewer''\<rparr> else c1)"

definition validate_jwt :: "jwt_env \<Rightarrow> gotime \<Rightarrow> string \<Rightarrow> go_error + jwt_claims" where
  "validate_jwt env now token =
     (case split_char CHR ''.'' token of
        [header, payload, signature] \<Rightarrow>
          let expected = je_hmac env (je_secret env) (header @ ''.'' @ payload)
          in (case b64url_decode signature of
                None \<Rightarrow> Inl (ErrNew ''invalid signature encoding'')
              | Some actual \<Rightarrow>
                  if expected \<noteq> actual then Inl (ErrNew ''invalid token signature'')
                  else
                    (case b64url_decode payload of
                       None \<Rightarrow> Inl (ErrNew ''invalid payload encoding'')
                     | Some bytes \<Rightarrow>
                         (case je_claims env bytes of
                            None \<Rightarrow> Inl (ErrNew ''invalid payload structure'')
                          | Some c \<Rightarrow>
                              if jc_exp c > 0 \<and> unix_secs now > jc_exp c
                              then Inl (ErrNew ''token expired'') else Inr (fill_claims c))))
      | _ \<Rightarrow> Inl (ErrNew ''invalid token format''))"

section \<open>Requests and the caller\<close>

text \<open>
  What the handlers read of a request: \<open>hq_query k\<close> is the first value of the query parameter \<open>k\<close>,
  empty if there is none; \<open>hq_body\<close> is the body as it is read, none if reading fails.
\<close>

record http_request =
  hq_method :: string
  hq_path :: string
  hq_api_key :: string
  hq_authorization :: string
  hq_query :: "string \<Rightarrow> string"
  hq_remote :: string
  hq_content_type :: string
  hq_body :: "string option"
  hq_host :: string

record caller =
  ca_tenant :: string
  ca_user :: string
  ca_role :: string

record http_response =
  hr_status :: int
  hr_body :: string

definition token_of :: "http_request \<Rightarrow> string" where
  "token_of r =
     (if has_prefix (hq_authorization r) ''Bearer '' then drop 7 (hq_authorization r)
      else if has_prefix (hq_authorization r) ''bearer '' then drop 7 (hq_authorization r)
      else hq_query r ''token'')"

definition from_loopback :: "http_request \<Rightarrow> bool" where
  "from_loopback r \<longleftrightarrow>
     has_prefix (hq_remote r) ''127.0.0.1:'' \<or> has_prefix (hq_remote r) ''[::1]:'' \<or>
     has_prefix (hq_remote r) ''localhost:''"

definition api_key_ok :: "string \<Rightarrow> http_request \<Rightarrow> bool" where
  "api_key_ok service_key r \<longleftrightarrow>
     service_key \<noteq> [] \<and> hq_api_key r \<noteq> [] \<and> hq_api_key r = service_key"

definition quote_json :: "string \<Rightarrow> string \<Rightarrow> string \<Rightarrow> string" where
  "quote_json msg detail code =
     [CHR 0x7B, CHR 0x22] @ ''error'' @ [CHR 0x22, CHR 0x3A, CHR 0x22] @ msg @ detail @
     [CHR 0x22, CHR 0x2C, CHR 0x22] @ ''code'' @ [CHR 0x22, CHR 0x3A, CHR 0x22] @ code @
     [CHR 0x22, CHR 0x7D]"

text \<open>\<^verbatim>\<open>AuthMiddleware\<close>: a refusal, or the caller the next handler sees.\<close>

definition auth_middleware ::
  "jwt_env \<Rightarrow> string \<Rightarrow> gotime \<Rightarrow> http_request \<Rightarrow> http_response + caller" where
  "auth_middleware env service_key now r =
     (if api_key_ok service_key r
      then Inr \<lparr>ca_tenant = ''system'', ca_user = ''service-account'', ca_role = ''superadmin''\<rparr>
      else if token_of r = [] then
        (if from_loopback r
         then Inr \<lparr>ca_tenant = ''default'', ca_user = ''local-admin'', ca_role = ''superadmin''\<rparr>
         else Inl \<lparr>hr_status = 401, hr_body = quote_json ''authentication token required'' [] ''UNAUTHORIZED''\<rparr>)
      else
        (case validate_jwt env now (token_of r) of
           Inl e \<Rightarrow> Inl \<lparr>hr_status = 401, hr_body = quote_json ''invalid token: '' (error_text e) ''INVALID_TOKEN''\<rparr>
         | Inr c \<Rightarrow> Inr \<lparr>ca_tenant = jc_tenant_id c, ca_user = jc_user_id c, ca_role = jc_role c\<rparr>))"

definition require_role :: "string list \<Rightarrow> caller \<Rightarrow> http_response option" where
  "require_role allowed c =
     (if ca_role c = ''superadmin'' \<or> list_ex (equal_fold (ca_role c)) allowed then None
      else Some \<lparr>hr_status = 403,
                 hr_body = quote_json ''forbidden: insufficient role permissions'' [] ''FORBIDDEN''\<rparr>)"

section \<open>Tokens as an issuer makes them\<close>

text \<open>A signed token.\<close>

definition signed_token :: "jwt_env \<Rightarrow> string \<Rightarrow> string \<Rightarrow> string" where
  "signed_token env header payload =
     (let body = header @ ''.'' @ b64url_encode payload
      in body @ ''.'' @ b64url_encode (je_hmac env (je_secret env) body))"

section \<open>What a valid token is\<close>

lemma split_char_join:
  "c \<notin> set p \<Longrightarrow> split_char c (p @ c # q) = p # split_char c q"
  by (induction p) auto

lemma split_char_single: "c \<notin> set p \<Longrightarrow> split_char c p = [p]"
  by (induction p) auto

lemma split_char_nonempty: "split_char c s \<noteq> []"
  by (induction s) (auto split: list.split)

lemma join_split_char: "join_str [c] (split_char c s) = s"
proof (induction s)
  case (Cons d s)
  obtain p ps where s: "split_char c s = p # ps" using split_char_nonempty by (metis neq_Nil_conv)
  show ?case using Cons by (cases "d = c"; cases ps) (simp_all add: s)
qed simp

text \<open>The conditions under which a token is accepted for some claims.\<close>

definition token_valid :: "jwt_env \<Rightarrow> gotime \<Rightarrow> string \<Rightarrow> jwt_claims \<Rightarrow> bool" where
  "token_valid env now token c \<longleftrightarrow>
     (\<exists>h p s bytes c0. token = h @ ''.'' @ p @ ''.'' @ s \<and> CHR ''.'' \<notin> set (h @ p @ s) \<and>
        b64url_decode s = Some (je_hmac env (je_secret env) (h @ ''.'' @ p)) \<and>
        b64url_decode p = Some bytes \<and> je_claims env bytes = Some c0 \<and>
        (0 < jc_exp c0 \<longrightarrow> unix_secs now \<le> jc_exp c0) \<and> c = fill_claims c0)"

lemma split_three:
  "split_char c token = [h, p, s] \<longleftrightarrow> token = h @ [c] @ p @ [c] @ s \<and> c \<notin> set (h @ p @ s)"
proof
  assume sp: "split_char c token = [h, p, s]"
  have "c \<notin> set q" if "q \<in> set (split_char c token)" for q
    using that
  proof (induction token arbitrary: q)
    case (Cons d token)
    then show ?case using split_char_nonempty [of c token] by (auto split: if_splits list.splits)
  qed simp
  then have "c \<notin> set (h @ p @ s)" by (simp add: sp)
  moreover have "token = h @ [c] @ p @ [c] @ s" using join_split_char [of c token] by (simp add: sp)
  ultimately show "token = h @ [c] @ p @ [c] @ s \<and> c \<notin> set (h @ p @ s)" by blast
qed (simp add: split_char_join split_char_single)

lemma validate_jwt_valid: "validate_jwt env now token = Inr c \<longleftrightarrow> token_valid env now token c"
proof
  assume v: "validate_jwt env now token = Inr c"
  then obtain h p s where sp: "split_char CHR ''.'' token = [h, p, s]"
    by (auto simp: validate_jwt_def split: list.splits)
  then obtain bytes c0 where
      d: "b64url_decode s = Some (je_hmac env (je_secret env) (h @ ''.'' @ p))"
        "b64url_decode p = Some bytes" "je_claims env bytes = Some c0" "c = fill_claims c0"
        "0 < jc_exp c0 \<longrightarrow> unix_secs now \<le> jc_exp c0"
    using v by (auto simp: validate_jwt_def Let_def not_less split: option.splits if_splits)
  show "token_valid env now token c"
    unfolding token_valid_def
    by (rule exI [of _ h], rule exI [of _ p], rule exI [of _ s], rule exI [of _ bytes], rule exI [of _ c0])
      (use sp [unfolded split_three] d in blast)
next
  assume "token_valid env now token c"
  then obtain h p s bytes c0 where t: "token = h @ ''.'' @ p @ ''.'' @ s" "CHR ''.'' \<notin> set (h @ p @ s)"
    and d: "b64url_decode s = Some (je_hmac env (je_secret env) (h @ ''.'' @ p))"
      "b64url_decode p = Some bytes" "je_claims env bytes = Some c0"
      "0 < jc_exp c0 \<longrightarrow> unix_secs now \<le> jc_exp c0" "c = fill_claims c0"
    unfolding token_valid_def by blast
  have "split_char CHR ''.'' token = [h, p, s]" using t by (simp add: split_three)
  then show "validate_jwt env now token = Inr c"
    using d by (auto simp: validate_jwt_def Let_def)
qed

lemma validate_signed_token:
  assumes "CHR ''.'' \<notin> set header" and "je_claims env payload = Some c0"
  shows "validate_jwt env now (signed_token env header payload) =
    (if 0 < jc_exp c0 \<and> jc_exp c0 < unix_secs now then Inl (ErrNew ''token expired'')
     else Inr (fill_claims c0))"
proof -
  let ?p = "b64url_encode payload"
  have "split_char CHR ''.'' (signed_token env header payload) =
      [header, ?p, b64url_encode (je_hmac env (je_secret env) (header @ ''.'' @ ?p))]"
    using assms(1) b64url_no_dot by (simp add: split_three signed_token_def Let_def)
  then show ?thesis using assms(2) by (simp add: validate_jwt_def Let_def b64url_roundtrip)
qed

section \<open>Properties\<close>

text \<open>
  C3: A token is accepted exactly if it has three parts, the third decodes to the HMAC of the first
  two under the server's key, the second decodes to claims, and a positive expiry time has not
  passed; the claims seen are then the token's, with tenant \<open>default\<close> and role \<open>viewer\<close> where they
  are empty. In particular a correctly signed token without a positive \<open>exp\<close> is accepted for ever.
\<close>

theorem jwt_accepts_exactly:
  shows "(validate_jwt env now token = Inr c) = token_valid env now token c \<and>
    (CHR ''.'' \<notin> set header \<longrightarrow> je_claims env payload = Some c0 \<longrightarrow>
     validate_jwt env now (signed_token env header payload) =
       (if 0 < jc_exp c0 \<and> jc_exp c0 < unix_secs now then Inl (ErrNew ''token expired'')
        else Inr (fill_claims c0)))"
  by (simp add: validate_jwt_valid validate_signed_token)

text \<open>
  C8: Nobody gets past authentication unseen: a request that reaches a protected handler either
  carries the configured service key and is the \<open>system\<close> superadmin, or carries no token and comes
  from a loopback address and is the \<open>default\<close> superadmin, or carries a valid token and is exactly
  the user, tenant and role of its claims. Every other request is answered 401.
\<close>

theorem authenticated_caller:
  "case auth_middleware env key now r of
     Inr c \<Rightarrow>
       (key \<noteq> [] \<and> hq_api_key r = key \<and> c = \<lparr>ca_tenant = ''system'', ca_user = ''service-account'', ca_role = ''superadmin''\<rparr>) \<or>
       (token_of r = [] \<and> from_loopback r \<and>
         c = \<lparr>ca_tenant = ''default'', ca_user = ''local-admin'', ca_role = ''superadmin''\<rparr>) \<or>
       (\<exists>jc. token_valid env now (token_of r) jc \<and> ca_tenant c = jc_tenant_id jc \<and>
          ca_user c = jc_user_id jc \<and> ca_role c = jc_role jc)
   | Inl resp \<Rightarrow> hr_status resp = 401 \<and> \<not> api_key_ok key r \<and>
       (token_of r = [] \<and> \<not> from_loopback r \<or>
        token_of r \<noteq> [] \<and> \<not> (\<exists>jc. token_valid env now (token_of r) jc))"
proof -
  have "(\<exists>e. validate_jwt env now t = Inl e) \<longleftrightarrow> \<not> (\<exists>jc. token_valid env now t jc)" for t
    unfolding validate_jwt_valid [symmetric] by (cases "validate_jwt env now t") auto
  then show ?thesis
    by (auto simp: auth_middleware_def api_key_ok_def validate_jwt_valid [symmetric]
        split: sum.split if_splits)
qed

definition sample_jwt :: jwt_env where
  "sample_jwt =
     \<lparr>je_secret = ''k'', je_hmac = (\<lambda>k m. k @ m),
      je_claims = (\<lambda>b. Some \<lparr>jc_user_id = b, jc_tenant_id = [], jc_role = ''Admin'', jc_exp = 0\<rparr>)\<rparr>"

theorem jwt_accepts_exactly_witness:
  "validate_jwt sample_jwt 99 (signed_token sample_jwt ''h'' ''u'') =
     Inr \<lparr>jc_user_id = ''u'', jc_tenant_id = ''default'', jc_role = ''Admin'', jc_exp = 0\<rparr>"
  using jwt_accepts_exactly [of sample_jwt 99 "[]" "undefined" "''h''" "''u''"
      "\<lparr>jc_user_id = ''u'', jc_tenant_id = [], jc_role = ''Admin'', jc_exp = 0\<rparr>"]
  by (simp add: sample_jwt_def fill_claims_def)

end
