(* ===== verification/Whep.thy ===== *)
theory Whep
  imports StreamService
begin

text \<open>
  \<^verbatim>\<open>internal/domain/whep.go\<close> and \<^verbatim>\<open>internal/application/stream_service_whep.go\<close>: WHEP sessions. The
  upstream media server is a function from the URL and body of a POST to its answer (none if the
  request fails); the requests the service fires and forgets are returned as a list. The 16 random
  bytes of a session id are an argument.
\<close>

section \<open>Offers and sessions\<close>

definition validate_whep_offer :: "string \<Rightarrow> go_error option" where
  "validate_whep_offer sdp =
     (let trimmed = trim_space sdp
      in if trimmed = [] \<or> \<not> str_contains trimmed ''v=0'' then Some ErrInvalidWHEPOffer else None)"

record whep_answer =
  wa_session_id :: string
  wa_stream_id :: string
  wa_sdp :: string
  wa_location :: string

text \<open>\<^verbatim>\<open>hex.EncodeToString\<close> of the random bytes.\<close>

definition random_session_id :: "bytes \<Rightarrow> string" where
  "random_session_id bs = concat (map (\<lambda>b. [hex_digit (unat b div 16), hex_digit (unat b)]) bs)"

record upstream_reply =
  ur_status :: int
  ur_body :: string
  ur_location :: string

text \<open>The loop over the two upstream URLs: the first answer of 200 or 201 is taken.\<close>

fun try_upstream ::
  "(string \<Rightarrow> string \<Rightarrow> upstream_reply option) \<Rightarrow> string \<Rightarrow> string list \<Rightarrow> string \<times> string" where
  "try_upstream upstream offer [] = ([], [])"
| "try_upstream upstream offer (u # us) =
     (case upstream u offer of
        None \<Rightarrow> try_upstream upstream offer us
      | Some r \<Rightarrow>
          if ur_status r = 200 \<or> ur_status r = 201 then (ur_body r, ur_location r)
          else try_upstream upstream offer us)"

definition fallback_sdp :: "int \<Rightarrow> string \<Rightarrow> string" where
  "fallback_sdp unix sid =
     concat (map (\<lambda>l. l @ crlf)
       [''v=0'', ''o=- '' @ int_str unix @ '' 2 IN IP4 127.0.0.1'', ''s=HydraStream WHEP Session'',
        ''t=0 0'', ''a=sendonly'', ''m=video 9 UDP/TLS/RTP/SAVPF 96'', ''c=IN IP4 127.0.0.1'',
        ''a=rtcp:9 IN IP4 127.0.0.1'', ''a=ice-ufrag:hydra'' @ take 8 sid,
        ''a=ice-pwd:hydrastreampwd1234567890'',
        ''a=fingerprint:sha-256 00:11:22:33:44:55:66:77:88:99:AA:BB:CC:DD:EE:FF:00:11:22:33:44:55:66:77:88:99:AA:BB:CC:DD:EE:FF'',
        ''a=setup:passive'', ''a=mid:0'', ''a=rtpmap:96 H264/90000'',
        ''a=fmtp:96 level-asymmetry-allowed=1;packetization-mode=1;profile-level-id=42e01f''])"

definition half_hour :: duration where
  "half_hour = 30 * 60 * second"

definition quoted :: "string \<Rightarrow> string" where
  "quoted s = [CHR 0x27] @ s @ [CHR 0x27]"

definition whep_offer ::
  "(string \<Rightarrow> string \<Rightarrow> upstream_reply option) \<Rightarrow> bytes \<Rightarrow> (nat \<Rightarrow> gotime) \<Rightarrow> string \<Rightarrow> string
   \<Rightarrow> service \<Rightarrow> (go_error + whep_answer) \<times> service" where
  "whep_offer upstream rand clock stream_id offer s =
     (case validate_whep_offer offer of
        Some e \<Rightarrow> (Inl e, s)
      | None \<Rightarrow>
          let sid = random_session_id rand;
              (answer0, loc) = try_upstream upstream offer
                 [sv_whep_base s @ ''/'' @ stream_id @ ''/whep'',
                  sv_whep_base s @ ''/'' @ stream_id @ ''_sub/whep''];
              answer = (if trim_space answer0 = [] then fallback_sdp (unix_secs (clock 0)) sid
                        else answer0);
              sess = \<lparr>wh_session_id = sid, wh_stream_id = stream_id, wh_sdp_offer = offer,
                      wh_sdp_answer = answer, wh_candidates = [], wh_upstream = loc,
                      wh_created = clock 1, wh_expires = clock 2 + half_hour\<rparr>;
              s1 = s\<lparr>sv_whep := (sv_whep s)(sid \<mapsto> sess)\<rparr>;
              s2 = svc_log (clock 3) LogLevelInfo ''whep''
                     (''Negotiated WHEP session '' @ quoted sid @ '' for stream '' @ quoted stream_id) s1
          in (Inr \<lparr>wa_session_id = sid, wa_stream_id = stream_id, wa_sdp = answer,
                   wa_location = ''/api/v1/streams/'' @ stream_id @ ''/whep/sessions/'' @ sid\<rparr>, s2))"

text \<open>The URL of a request to the upstream session, if there is one.\<close>

definition upstream_target :: "string \<Rightarrow> string \<Rightarrow> string option" where
  "upstream_target base loc =
     (if loc = [] then None
      else if \<not> has_prefix loc ''http://'' \<and> \<not> has_prefix loc ''https://'' then Some (base @ loc)
      else Some loc)"

datatype upstream_call = UpstreamPatch string string | UpstreamDelete string

definition whep_patch ::
  "string \<Rightarrow> string \<Rightarrow> string \<Rightarrow> service \<Rightarrow> (go_error + upstream_call list) \<times> service" where
  "whep_patch stream_id sid data s =
     (case sv_whep s sid of
        None \<Rightarrow> (Inl ErrWHEPSessionNotFound, s)
      | Some sess \<Rightarrow>
          let sess' = sess\<lparr>wh_candidates := wh_candidates sess @ [data]\<rparr>
          in (Inr (case upstream_target (sv_whep_base s) (wh_upstream sess) of
                     None \<Rightarrow> [] | Some u \<Rightarrow> [UpstreamPatch u data]),
              s\<lparr>sv_whep := (sv_whep s)(sid \<mapsto> sess')\<rparr>))"

definition whep_delete ::
  "gotime \<Rightarrow> string \<Rightarrow> string \<Rightarrow> service \<Rightarrow> (go_error + upstream_call list) \<times> service" where
  "whep_delete now stream_id sid s =
     (case sv_whep s sid of
        None \<Rightarrow> (Inl ErrWHEPSessionNotFound, s)
      | Some sess \<Rightarrow>
          let s1 = s\<lparr>sv_whep := (sv_whep s)(sid := None)\<rparr>;
              s2 = svc_log now LogLevelInfo ''whep''
                     (''Terminated WHEP session '' @ quoted sid @ '' for stream '' @ quoted stream_id) s1
          in (Inr (case upstream_target (sv_whep_base s) (wh_upstream sess) of
                     None \<Rightarrow> [] | Some u \<Rightarrow> [UpstreamDelete u]), s2))"

definition prune_whep :: "gotime \<Rightarrow> service \<Rightarrow> service" where
  "prune_whep now s =
     s\<lparr>sv_whep := (\<lambda>sid. case sv_whep s sid of
        None \<Rightarrow> None | Some sess \<Rightarrow> if now > wh_expires sess then None else Some sess)\<rparr>"

definition set_whep_base :: "string \<Rightarrow> service \<Rightarrow> service" where
  "set_whep_base url s = s\<lparr>sv_whep_base := trim_suffix url ''/''\<rparr>"

section \<open>The sessions are a keyed table\<close>

definition whep_get :: "service \<Rightarrow> string \<Rightarrow> whep_session option" where
  "whep_get s sid = sv_whep s sid"

definition whep_put :: "string \<Rightarrow> whep_session \<Rightarrow> service \<Rightarrow> service" where
  "whep_put sid sess s = s\<lparr>sv_whep := (sv_whep s)(sid \<mapsto> sess)\<rparr>"

definition whep_drop :: "string \<Rightarrow> service \<Rightarrow> service" where
  "whep_drop sid s = s\<lparr>sv_whep := (sv_whep s)(sid := None)\<rparr>"

interpretation wheps: keyed_table whep_get whep_put whep_drop
  by unfold_locales (simp_all add: whep_get_def whep_put_def whep_drop_def)

section \<open>Session ids\<close>

lemma hex_digit_inject: "m < 16 \<Longrightarrow> n < 16 \<Longrightarrow> hex_digit m = hex_digit n \<Longrightarrow> m = n"
  unfolding hex_digit_def using nth_eq_iff_index_eq [of "''0123456789abcdef''" m n] by simp

lemma hex_pair_inject:
  fixes b c :: "8 word"
  assumes "hex_digit (unat b div 16) = hex_digit (unat c div 16)"
    and "hex_digit (unat b) = hex_digit (unat c)"
  shows "b = c"
proof -
  have r: "unat b < 256" "unat c < 256" using unsigned_less [of b, where ?'a = nat] unsigned_less [of c, where ?'a = nat] by simp_all
  have "unat b div 16 = unat c div 16"
    using assms(1) r by (intro hex_digit_inject) simp_all
  moreover have "hex_digit (unat b mod 16) = hex_digit (unat c mod 16)"
    using assms(2) by (simp add: hex_digit_def)
  then have "unat b mod 16 = unat c mod 16" by (intro hex_digit_inject) simp_all
  ultimately have "unat b = unat c" by (metis div_mult_mod_eq)
  then show ?thesis by (rule unsigned_word_eqI)
qed

lemma length_session_id: "length (random_session_id bs) = 2 * length bs"
  by (induction bs) (simp_all add: random_session_id_def)

lemma session_id_inject:
  "length bs = length cs \<Longrightarrow> random_session_id bs = random_session_id cs \<Longrightarrow> bs = cs"
  by (induction bs cs rule: list_induct2) (auto simp: random_session_id_def intro: hex_pair_inject)

section \<open>Lemmas\<close>

lemma fallback_not_blank: "trim_space (fallback_sdp n sid) \<noteq> []"
proof -
  have "CHR ''v'' \<in> set (fallback_sdp n sid)" by (simp add: fallback_sdp_def)
  moreover have "\<not> is_space CHR ''v''" by (simp add: is_space_def)
  ultimately show ?thesis unfolding trim_space_Nil_iff by blast
qed

lemma whep_get_log [simp]: "whep_get (svc_log now l c m s) = whep_get s"
  by (simp add: whep_get_def fun_eq_iff)

lemma whep_patch_eq:
  "whep_patch stream sid data s =
     (case whep_get s sid of
        None \<Rightarrow> (Inl ErrWHEPSessionNotFound, s)
      | Some sess \<Rightarrow>
          (Inr (case upstream_target (sv_whep_base s) (wh_upstream sess) of
                  None \<Rightarrow> [] | Some u \<Rightarrow> [UpstreamPatch u data]),
           whep_put sid (sess\<lparr>wh_candidates := wh_candidates sess @ [data]\<rparr>) s))"
  by (simp add: whep_patch_def whep_get_def whep_put_def split: option.split)

lemma whep_delete_eq:
  "whep_delete now stream sid s =
     (case whep_get s sid of
        None \<Rightarrow> (Inl ErrWHEPSessionNotFound, s)
      | Some sess \<Rightarrow>
          (Inr (case upstream_target (sv_whep_base s) (wh_upstream sess) of
                  None \<Rightarrow> [] | Some u \<Rightarrow> [UpstreamDelete u]),
           svc_log now LogLevelInfo ''whep''
             (''Terminated WHEP session '' @ quoted sid @ '' for stream '' @ quoted stream) (whep_drop sid s)))"
  by (simp add: whep_delete_def whep_get_def whep_drop_def Let_def split: option.split)

lemma whep_get_prune:
  "whep_get (prune_whep now s) sid =
     (case whep_get s sid of None \<Rightarrow> None
      | Some sess \<Rightarrow> if now > wh_expires sess then None else Some sess)"
  by (simp add: whep_get_def prune_whep_def)

definition whep_body :: "(string \<Rightarrow> string \<Rightarrow> upstream_reply option) \<Rightarrow> bytes \<Rightarrow> (nat \<Rightarrow> gotime) \<Rightarrow> string \<Rightarrow> string
    \<Rightarrow> service \<Rightarrow> string" where
  "whep_body upstream rand clock stream offer s =
     (let answer0 = fst (try_upstream upstream offer
            [sv_whep_base s @ ''/'' @ stream @ ''/whep'', sv_whep_base s @ ''/'' @ stream @ ''_sub/whep''])
      in if trim_space answer0 = []
         then fallback_sdp (unix_secs (clock 0)) (random_session_id rand) else answer0)"

lemma whep_offer_ok:
  assumes "validate_whep_offer offer = None"
  shows "\<exists>sess. whep_offer upstream rand clock stream offer s =
      (Inr \<lparr>wa_session_id = random_session_id rand, wa_stream_id = stream,
            wa_sdp = whep_body upstream rand clock stream offer s,
            wa_location = ''/api/v1/streams/'' @ stream @ ''/whep/sessions/'' @ random_session_id rand\<rparr>,
       snd (whep_offer upstream rand clock stream offer s)) \<and>
    whep_get (snd (whep_offer upstream rand clock stream offer s)) =
      whep_get (whep_put (random_session_id rand) sess s) \<and>
    wh_session_id sess = random_session_id rand \<and> wh_stream_id sess = stream \<and>
    wh_candidates sess = [] \<and> wh_expires sess = clock 2 + half_hour"
  using assms
  by (auto simp: whep_offer_def whep_body_def Let_def whep_get_def whep_put_def fun_eq_iff
      split: prod.split)

lemma whep_body_not_blank: "trim_space (whep_body upstream rand clock stream offer s) \<noteq> []"
  by (simp add: whep_body_def Let_def fallback_not_blank)

section \<open>Properties\<close>

text \<open>
  An offer is accepted exactly if it mentions the SDP version line \<open>v=0\<close>, and then it is always
  answered: whatever the media server does (unreachable, errors, blank answers), the answer is an
  SDP that is not blank and the new session is stored under the id and location of the answer. A
  rejected offer changes nothing.
\<close>

theorem whep_offer_always_answers:
  shows "(\<not> str_contains (trim_space offer) ''v=0'' \<and>
      whep_offer upstream rand clock stream offer s = (Inl ErrInvalidWHEPOffer, s)) \<or>
    (\<exists>a s' sess. str_contains (trim_space offer) ''v=0'' \<and>
      whep_offer upstream rand clock stream offer s = (Inr a, s') \<and>
      trim_space (wa_sdp a) \<noteq> [] \<and>
      wa_location a = ''/api/v1/streams/'' @ stream @ ''/whep/sessions/'' @ wa_session_id a \<and>
      whep_get s' = whep_get (whep_put (wa_session_id a) sess s) \<and>
      wh_session_id sess = wa_session_id a \<and> wh_stream_id sess = stream)"
proof (cases "str_contains (trim_space offer) ''v=0''")
  case True
  then have v: "validate_whep_offer offer = None"
    by (auto simp: validate_whep_offer_def Let_def str_contains_Nil)
  obtain sess where "whep_offer upstream rand clock stream offer s =
      (Inr \<lparr>wa_session_id = random_session_id rand, wa_stream_id = stream,
            wa_sdp = whep_body upstream rand clock stream offer s,
            wa_location = ''/api/v1/streams/'' @ stream @ ''/whep/sessions/'' @ random_session_id rand\<rparr>,
       snd (whep_offer upstream rand clock stream offer s))"
      "whep_get (snd (whep_offer upstream rand clock stream offer s)) =
        whep_get (whep_put (random_session_id rand) sess s)"
      "wh_session_id sess = random_session_id rand" "wh_stream_id sess = stream"
    using whep_offer_ok [OF v] by blast
  then show ?thesis
    using True whep_body_not_blank by (intro disjI2 exI conjI) (assumption | simp)+
next
  case False
  then show ?thesis by (simp add: whep_offer_def validate_whep_offer_def Let_def)
qed

text \<open>
  A session is reached by its id alone. Once an offer for some stream has created a session,
  trickled candidates are accepted and the session is terminated through the path of any stream;
  the termination removes exactly this session, and every later request for it answers
  ErrWHEPSessionNotFound.
\<close>

theorem whep_session_any_stream:
  assumes "whep_offer upstream rand clock stream offer s = (Inr a, s1)"
    and "whep_patch other (wa_session_id a) data s1 = (r2, s2)"
    and "whep_delete now another (wa_session_id a) s2 = (r3, s3)"
  shows "(\<exists>calls sess. r2 = Inr calls \<and> whep_get s2 (wa_session_id a) = Some sess \<and>
      wh_stream_id sess = stream \<and> wh_candidates sess = [data]) \<and>
    (\<exists>calls. r3 = Inr calls) \<and>
    whep_get s3 = (\<lambda>i. if i = wa_session_id a then None else whep_get s i) \<and>
    whep_patch stream (wa_session_id a) data s3 = (Inl ErrWHEPSessionNotFound, s3) \<and>
    whep_delete now stream (wa_session_id a) s3 = (Inl ErrWHEPSessionNotFound, s3)"
proof -
  have v: "validate_whep_offer offer = None"
    using assms(1) by (auto simp: whep_offer_def split: option.splits)
  obtain sess where g: "whep_get s1 = whep_get (whep_put (wa_session_id a) sess s)"
    and f: "wh_stream_id sess = stream" "wh_candidates sess = []"
    using whep_offer_ok [OF v, of upstream rand clock stream s] assms(1) by auto
  have "whep_get s1 (wa_session_id a) = Some sess" by (simp add: g wheps.get_put)
  then have r2: "\<exists>calls. r2 = Inr calls"
      "s2 = whep_put (wa_session_id a) (sess\<lparr>wh_candidates := [data]\<rparr>) s1"
    using assms(2) f by (auto simp: whep_patch_eq)
  then have g2: "whep_get s2 (wa_session_id a) = Some (sess\<lparr>wh_candidates := [data]\<rparr>)"
    by (simp add: wheps.get_put)
  then have r3: "\<exists>calls. r3 = Inr calls" "whep_get s3 = whep_get (whep_drop (wa_session_id a) s2)"
    using assms(3) by (auto simp: whep_delete_eq)
  have g3: "whep_get s3 = (\<lambda>i. if i = wa_session_id a then None else whep_get s i)"
    by (simp add: r3(2) r2(2) g fun_eq_iff wheps.get_del wheps.get_put)
  then have "whep_get s3 (wa_session_id a) = None" by simp
  then show ?thesis
    using r2(1) g2 f r3(1) g3 by (simp add: whep_patch_eq whep_delete_eq)
qed

text \<open>
  Expiry is decided by the pruner alone: pruning removes exactly the sessions whose expiry time
  has passed and changes nothing else, and between two prunings a session whose half hour is over
  is served like any other.
\<close>

theorem whep_expiry_only_by_prune:
  assumes "whep_get s sid = Some sess"
  shows "(whep_get (prune_whep now s) sid = None) = (wh_expires sess < now) \<and>
    (whep_get (prune_whep now s) sid \<noteq> None \<longrightarrow> whep_get (prune_whep now s) sid = Some sess) \<and>
    fst (whep_patch stream sid data s) \<noteq> Inl ErrWHEPSessionNotFound"
  using assms by (auto simp: whep_get_prune whep_patch_eq)

section \<open>A concrete session\<close>

definition no_upstream :: "string \<Rightarrow> string \<Rightarrow> upstream_reply option" where
  "no_upstream url offer = None"

definition sixteen :: bytes where
  "sixteen = map of_nat [0..<16]"

lemma sample_offer_valid: "validate_whep_offer ''v=0'' = None"
  by code_simp

theorem whep_session_any_stream_witness:
  "\<exists>a s1 s2. whep_offer no_upstream sixteen (\<lambda>_. 7) ''cam1'' ''v=0'' empty_service = (Inr a, s1) \<and>
     whep_patch ''other'' (wa_session_id a) ''cand'' s1 = (Inr [], s2) \<and>
     fst (whep_delete 9 ''another'' (wa_session_id a) s2) = Inr []"
proof -
  let ?o = "whep_offer no_upstream sixteen (\<lambda>_. 7) ''cam1'' ''v=0'' empty_service"
  obtain sess where o: "?o = (Inr \<lparr>wa_session_id = random_session_id sixteen, wa_stream_id = ''cam1'',
      wa_sdp = whep_body no_upstream sixteen (\<lambda>_. 7) ''cam1'' ''v=0'' empty_service,
      wa_location = ''/api/v1/streams/'' @ ''cam1'' @ ''/whep/sessions/'' @ random_session_id sixteen\<rparr>,
      snd ?o)"
    using whep_offer_ok [OF sample_offer_valid] by blast
  have base: "whep_get (snd ?o) (random_session_id sixteen) \<noteq> None \<and>
      wh_upstream (the (whep_get (snd ?o) (random_session_id sixteen))) = []"
    by (simp add: whep_offer_def sample_offer_valid Let_def no_upstream_def whep_get_def)
  define i where "i = random_session_id sixteen"
  define s2 where "s2 = snd (whep_patch ''other'' i ''cand'' (snd ?o))"
  have p: "whep_patch ''other'' i ''cand'' (snd ?o) = (Inr [], s2)"
    using base by (auto simp: s2_def i_def whep_patch_eq upstream_target_def)
  have up: "\<exists>sess. whep_get s2 i = Some sess \<and> wh_upstream sess = []"
    using base by (auto simp: s2_def i_def whep_patch_eq wheps.get_put)
  obtain r3 s3 where d: "whep_delete 9 ''another'' i s2 = (r3, s3)" by (metis surj_pair)
  have "\<exists>calls. r3 = Inr calls"
    using whep_session_any_stream [OF o, of "''other''" "''cand''" "Inr []" s2 9 "''another''" r3 s3] p d
    by (simp add: i_def)
  moreover have "r3 = Inr []" using d up by (auto simp: whep_delete_eq upstream_target_def)
  ultimately show ?thesis using o p d unfolding i_def by (metis fst_conv whep_answer.select_convs(1))
qed

theorem whep_expiry_only_by_prune_witness:
  "\<exists>s. whep_get (prune_whep (8 + half_hour) s) (random_session_id sixteen) = None \<and>
    fst (whep_patch ''cam1'' (random_session_id sixteen) ''cand'' s) \<noteq> Inl ErrWHEPSessionNotFound"
proof -
  let ?s = "snd (whep_offer no_upstream sixteen (\<lambda>_. 7) ''cam1'' ''v=0'' empty_service)"
  obtain sess where g: "whep_get ?s = whep_get (whep_put (random_session_id sixteen) sess empty_service)"
      and e: "wh_expires sess = 7 + half_hour"
    using whep_offer_ok [OF sample_offer_valid, of no_upstream sixteen "\<lambda>_. 7" "''cam1''" empty_service]
    by auto
  have "whep_get ?s (random_session_id sixteen) = Some sess" by (simp add: g wheps.get_put)
  from whep_expiry_only_by_prune [OF this, of "8 + half_hour" "''cam1''" "''cand''"]
  show ?thesis using e by (intro exI [of _ ?s]) simp
qed

end
