(* ===== verification/Diagnostics.thy ===== *)
theory Diagnostics
  imports StreamService Gpu
begin

text \<open>
  \<^verbatim>\<open>internal/domain/errors.go\<close> and \<^verbatim>\<open>internal/application/stream_service_diagnostics.go\<close>: structured
  errors and the diagnosis of a stream and of the host. Strings are bytes, so the accented
  letters of the messages are their two UTF-8 bytes.
\<close>

section \<open>Structured errors\<close>

record app_error =
  ae_code :: string
  ae_subsystem :: string
  ae_stream_id :: string
  ae_message :: string
  ae_severity :: string
  ae_details :: details
  ae_action :: string
  ae_timestamp :: gotime

definition utf8_C3 :: "nat \<Rightarrow> string" where
  "utf8_C3 b = map char_of [195, b]"

definition a_tilde :: string where "a_tilde = utf8_C3 163"
definition a_acute :: string where "a_acute = utf8_C3 161"
definition i_acute :: string where "i_acute = utf8_C3 173"
definition c_cedilla :: string where "c_cedilla = utf8_C3 167"

text \<open>The method \<^verbatim>\<open>Error()\<close>.\<close>

definition app_error_text :: "app_error \<Rightarrow> string" where
  "app_error_text e =
     (if ae_stream_id e \<noteq> []
      then ''['' @ ae_severity e @ ''] '' @ ae_code e @ '' on stream '' @ [CHR 0x27] @ ae_stream_id e @
           [CHR 0x27] @ '': '' @ ae_message e
      else ''['' @ ae_severity e @ ''] '' @ ae_code e @ '': '' @ ae_message e)"

definition new_gpu_not_found_error :: "gotime \<Rightarrow> string \<Rightarrow> string \<Rightarrow> app_error" where
  "new_gpu_not_found_error now subsystem reason =
     \<lparr>ae_code = ''GPU_ACCELERATOR_NOT_FOUND'', ae_subsystem = subsystem, ae_stream_id = [],
      ae_message = ''Acelera'' @ c_cedilla @ a_tilde @ ''o de hardware GPU n'' @ a_tilde @
        ''o foi localizada no host.'',
      ae_severity = ''WARNING'',
      ae_details = [(''reason'', JStr reason), (''gpu_detected'', JBool False)],
      ae_action = ''INSTALL_NVIDIA_DRIVERS_OR_USE_CPU_FALLBACK'', ae_timestamp = now\<rparr>"

definition new_gop_anomaly_error :: "gotime \<Rightarrow> string \<Rightarrow> float64 \<Rightarrow> float64 \<Rightarrow> int \<Rightarrow> app_error" where
  "new_gop_anomaly_error now sid measured expected missing =
     \<lparr>ae_code = ''CAMERA_ENCODER_GOP_ANOMALY'', ae_subsystem = ''gop_tracker'', ae_stream_id = sid,
      ae_message = ''Intervalo de Keyframes (GOP) excessivo medido em '' @ fmt_fixed 1 measured @
        ''s (esperado <= '' @ fmt_fixed 1 expected @ ''s).'',
      ae_severity = ''WARNING'',
      ae_details = [(''measured_gop_interval_sec'', JNum measured),
                    (''expected_gop_interval_sec'', JNum expected),
                    (''missing_iframe_count'', JNum (f_of_int missing)),
                    (''suspected_cause'', JStr ''SMART_CODEC_OR_VARIABLE_GOP_ENABLED'')],
      ae_action = ''DISABLE_SMART_CODEC_OR_SET_GOP_TO_FPS'', ae_timestamp = now\<rparr>"

definition new_storage_limit_error ::
  "gotime \<Rightarrow> string \<Rightarrow> string \<Rightarrow> float64 \<Rightarrow> float64 \<Rightarrow> bool \<Rightarrow> app_error" where
  "new_storage_limit_error now sid mount used threshold halted =
     \<lparr>ae_code = ''STORAGE_LIMIT_EXCEEDED'', ae_subsystem = ''recording_engine'', ae_stream_id = sid,
      ae_message =
        (if halted
         then ''Grava'' @ c_cedilla @ a_tilde @ ''o interrompida: Armazenamento em '' @ fmt_fixed 1 used @
              ''% atingiu o teto cr'' @ i_acute @ ''tico ('' @ fmt_fixed 1 threshold @ ''%).''
         else ''Capacidade de armazenamento em '' @ fmt_fixed 1 used @
              ''% atingiu o limite de alerta ('' @ fmt_fixed 1 threshold @ ''%).''),
      ae_severity = (if halted then ''CRITICAL'' else ''WARNING''),
      ae_details = [(''mount_point'', JStr mount), (''used_percentage'', JNum used),
                    (''threshold_percentage'', JNum threshold), (''recording_halted'', JBool halted)],
      ae_action = (if halted then ''EXPURGE_RECORDINGS_IMMEDIATELY''
                   else ''ENABLE_FIFO_PRUNING_OR_EXPAND_STORAGE''),
      ae_timestamp = now\<rparr>"

definition new_decode_corrupted_error :: "gotime \<Rightarrow> string \<Rightarrow> string \<Rightarrow> string \<Rightarrow> app_error" where
  "new_decode_corrupted_error now sid codec reason =
     \<lparr>ae_code = ''DECODE_ERROR_CORRUPTED_NALU'', ae_subsystem = ''demuxer'', ae_stream_id = sid,
      ae_message = ''Falha de decodifica'' @ c_cedilla @ a_tilde @ ''o no fluxo '' @ [CHR 0x27] @ sid @ [CHR 0x27] @ '': '' @ reason,
      ae_severity = ''ERROR'',
      ae_details = [(''codec'', JStr codec), (''reason'', JStr reason)],
      ae_action = ''CHECK_NETWORK_JITTER_OR_CAMERA_ENCODER'', ae_timestamp = now\<rparr>"

definition new_client_codec_unsupported_error :: "gotime \<Rightarrow> string \<Rightarrow> string \<Rightarrow> string \<Rightarrow> app_error" where
  "new_client_codec_unsupported_error now sid codec agent =
     \<lparr>ae_code = ''CLIENT_CODEC_UNSUPPORTED'', ae_subsystem = ''wsp_playback'', ae_stream_id = sid,
      ae_message = ''O cliente n'' @ a_tilde @ ''o suporta decodifica'' @ c_cedilla @ a_tilde @
        ''o nativa para o codec '' @ [CHR 0x27] @ codec @ [CHR 0x27] @ ''.'',
      ae_severity = ''INFO'',
      ae_details = [(''stream_codec'', JStr codec), (''user_agent'', JStr agent)],
      ae_action = ''SWITCH_TO_SUBSTREAM_OR_ENABLE_HEVC_EXTENSION'', ae_timestamp = now\<rparr>"

section \<open>Diagnosis\<close>

definition offline_error :: "gotime \<Rightarrow> string \<Rightarrow> stream \<Rightarrow> app_error" where
  "offline_error now sid st =
     \<lparr>ae_code = ''RTSP_CONNECTION_TIMEOUT'', ae_subsystem = ''ingest'', ae_stream_id = sid,
      ae_message = ''Fluxo '' @ [CHR 0x27] @ sid @ [CHR 0x27] @ '' offline ou em processo de reconex'' @ a_tilde @ ''o.'',
      ae_severity = ''ERROR'',
      ae_details = [(''source_url'', JStr (st_source_url st)),
                    (''resource_score'', JNum (st_resource_score st)), (''status'', JStr (st_status st))],
      ae_action = ''VERIFY_CAMERA_NETWORK_AND_CREDENTIALS'', ae_timestamp = now\<rparr>"

definition transcode_error :: "gotime \<Rightarrow> string \<Rightarrow> stream \<Rightarrow> app_error" where
  "transcode_error now sid st =
     \<lparr>ae_code = ''GPU_TRANSCODE_UNAVAILABLE'', ae_subsystem = ''gpu_acceleration'', ae_stream_id = sid,
      ae_message = ''Stream configurado em H.265/HEVC operando em servidor sem acelerador GPU dedicado.'',
      ae_severity = ''WARNING'',
      ae_details = [(''codec'', JStr (st_codec st)), (''gpu_detected'', JBool False),
                    (''resolution'', JStr (st_resolution st)), (''mode'', JStr ''passthrough_only'')],
      ae_action = ''USE_CLIENT_PASSTHROUGH_OR_ENABLE_H264_SUBSTREAM'', ae_timestamp = now\<rparr>"

definition is_h265 :: "stream \<Rightarrow> bool" where
  "is_h265 st \<longleftrightarrow> equal_fold (st_codec st) ''h265'' \<or> equal_fold (st_codec st) ''hevc''"

definition get_stream_diagnostics ::
  "gotime \<Rightarrow> string option \<Rightarrow> string \<Rightarrow> service \<Rightarrow> go_error + app_error option" where
  "get_stream_diagnostics now smi sid s =
     (case repo_find sid (sv_repo s) of
        Inl _ \<Rightarrow> Inl ErrStreamNotFound
      | Inr st \<Rightarrow>
          if st_status st = ''reconnecting'' \<or> st_status st = ''offline''
          then Inr (Some (offline_error now sid st))
          else if is_h265 st \<and> \<not> hw_detected (detect_hardware smi)
          then Inr (Some (transcode_error now sid st))
          else if flt (Fin 0) (st_resource_score st) \<and> flt (st_resource_score st) (rnd 60)
          then Inr (Some (new_gop_anomaly_error now sid (rnd 15) (rnd 2) 450))
          else Inr None)"

definition get_system_diagnostics ::
  "gotime \<Rightarrow> gotime \<Rightarrow> string option \<Rightarrow> statfs option \<Rightarrow> app_error list" where
  "get_system_diagnostics now1 now2 smi stat =
     (if hw_detected (detect_hardware smi) then []
      else [new_gpu_not_found_error now1 ''gpu_manager''
              (''Placa de v'' @ i_acute @ ''deo NVIDIA n'' @ a_tilde @ ''o encontrada ou driver nvidia-smi ausente no sistema operacional.'')]) @
     (let t = get_shm_telemetry stat
      in if flt (rnd 90) (sh_occupancy t)
         then [new_storage_limit_error now2 ''system_wide'' (sh_mount t) (sh_occupancy t) (rnd 90)
                 (fle (rnd 98) (sh_occupancy t))]
         else [])"

section \<open>Properties\<close>



text \<open>
  The GOP anomaly says nothing about keyframes: a stream registered with a processor load of \<open>c\<close>
  percent, \<open>0 < c < 30\<close>, no GPU memory and no traffic, of any codec but H.265, is diagnosed with a
  GOP of 15 seconds against 2 expected and 450 missing frames, numbers that were never measured.
\<close>

theorem low_load_is_gop_anomaly:
  assumes "register_stream clock st s = (None, st', s')" and "st_status st = ''online''"
    and "\<not> is_h265 (st\<lparr>st_codec := (if st_codec st = [] then ''h264'' else st_codec st)\<rparr>)"
    and "st_resource_score st = Fin 0" and "st_cpu_load_percent st = Fin (of_nat c)" and "0 < c" and "c < 30"
    and "st_gpu_memory_mb st = Fin 0" and "st_network_kbps st = Fin 0"
  shows "get_stream_diagnostics now smi (st_stream_id st) s' =
    Inr (Some (new_gop_anomaly_error now (st_stream_id st) (Fin 15) (Fin 2) 450))"
proof -
  have valid: "st_stream_id st \<noteq> []"
    using assms(1) by (auto simp: register_stream_def validate_stream_def split: if_splits)
  note reg = register_valid [OF valid assms(1)]
  have "rnd (of_nat c * 2) = Fin (of_nat (c * 2))"
    using rnd_nat [of "c * 2"] assms(7) by simp
  moreover have "rnd (of_nat (c * 2)) = Fin (of_nat (c * 2))"
    using rnd_nat [of "c * 2"] assms(7) by simp
  ultimately have score: "st_resource_score st' = Fin (of_nat (c * 2))"
    by (simp add: reg(2) set_defaults_score assms(4,5,8,9) calculate_resource_score_def)
  have "flt (Fin 0) (st_resource_score st')" "flt (st_resource_score st') (Fin 60)"
    using assms(6,7) by (simp_all add: score)
  moreover have "\<not> is_h265 st'" "st_status st' = ''online''"
    using assms(2,3) by (simp_all add: reg(2) is_h265_def set_defaults_fields)
  moreover have "svc_stream s' (st_stream_id st) = Some st'" using reg(3) by simp
  ultimately show ?thesis
    by (simp add: get_stream_diagnostics_def repo_find_eq svc_stream_def)
qed

definition busy_cam :: stream where
  "busy_cam = cam\<lparr>st_status := ''online'', st_codec := ''h264'', st_cpu_load_percent := Fin 12\<rparr>"

theorem low_load_is_gop_anomaly_witness:
  "get_stream_diagnostics 9 None ''cam1'' (snd (snd (register_stream (\<lambda>_. 7) busy_cam empty_service))) =
     Inr (Some (new_gop_anomaly_error 9 ''cam1'' (Fin 15) (Fin 2) 450))"
proof -
  obtain e st' s' where r: "register_stream (\<lambda>_. 7) busy_cam empty_service = (e, st', s')"
    by (metis surj_pair)
  have "e = None" using register_valid(1) [OF _ r] by (simp add: busy_cam_def)
  moreover have "\<not> is_h265 (busy_cam\<lparr>st_codec := ''h264''\<rparr>)"
    by (simp add: is_h265_def equal_fold_def to_lower_def lower_char_def)
  ultimately show ?thesis
    using low_load_is_gop_anomaly [of "\<lambda>_. 7" busy_cam empty_service st' s' 12 9 None] r
    by (simp add: busy_cam_def cam_def zero_stream_def)
qed

end
