(* ===== verification/GoRegexp.thy ===== *)
theory GoRegexp
  imports GoText
begin

text \<open>
  Go's \<^verbatim>\<open>regexp\<close> package, for the expressions the program uses: classes, sequences, alternatives,
  options, greedy and reluctant repetition of a class, and groups. A match is the leftmost one, and
  among those the one a backtracking search finds first; \<open>rx_runs\<close> lists the ways an expression
  matches a prefix in the order of that search. A text is its bytes (the classes of the program
  contain every byte of a multi-byte character or none).
\<close>

datatype rx =
    Eps
  | Class "char \<Rightarrow> bool"
  | Seq rx rx
  | Alt rx rx
  | Opt rx
  | Many "char \<Rightarrow> bool"
  | Few "char \<Rightarrow> bool"
  | Group rx

primrec rx_groups :: "rx \<Rightarrow> nat" where
  "rx_groups Eps = 0"
| "rx_groups (Class p) = 0"
| "rx_groups (Seq a b) = rx_groups a + rx_groups b"
| "rx_groups (Alt a b) = rx_groups a + rx_groups b"
| "rx_groups (Opt a) = rx_groups a"
| "rx_groups (Many p) = 0"
| "rx_groups (Few p) = 0"
| "rx_groups (Group a) = Suc (rx_groups a)"

text \<open>
  The texts of the groups and what is left, for every way to match a prefix, the preferred first. A
  group that takes no part has the empty text, as in \<^verbatim>\<open>FindStringSubmatch\<close>.
\<close>

primrec rx_runs :: "rx \<Rightarrow> string \<Rightarrow> (string list \<times> string) list" where
  "rx_runs Eps s = [([], s)]"
| "rx_runs (Class p) s = (case s of [] \<Rightarrow> [] | c # cs \<Rightarrow> if p c then [([], cs)] else [])"
| "rx_runs (Seq a b) s =
     concat (map (\<lambda>(g, t). map (\<lambda>(h, u). (g @ h, u)) (rx_runs b t)) (rx_runs a s))"
| "rx_runs (Alt a b) s =
     map (\<lambda>(g, t). (g @ replicate (rx_groups b) [], t)) (rx_runs a s) @
     map (\<lambda>(g, t). (replicate (rx_groups a) [] @ g, t)) (rx_runs b s)"
| "rx_runs (Opt a) s = rx_runs a s @ [(replicate (rx_groups a) [], s)]"
| "rx_runs (Many p) s = map (\<lambda>k. ([], drop k s)) (rev [0..<Suc (length (takeWhile p s))])"
| "rx_runs (Few p) s = map (\<lambda>k. ([], drop k s)) [0..<Suc (length (takeWhile p s))]"
| "rx_runs (Group a) s =
     map (\<lambda>(g, t). (take (length s - length t) s # g, t)) (rx_runs a s)"

text \<open>The leftmost match: its groups and the text after it.\<close>

fun rx_find :: "rx \<Rightarrow> string \<Rightarrow> (string list \<times> string) option" where
  "rx_find r s =
     (case rx_runs r s of
        m # _ \<Rightarrow> Some m
      | [] \<Rightarrow> (case s of [] \<Rightarrow> None | _ # cs \<Rightarrow> rx_find r cs))"

declare rx_find.simps [simp del]

text \<open>
  \<^verbatim>\<open>FindAllStringSubmatch(s, -1)\<close> for an expression that never matches the empty text: each search
  goes on after the previous match.
\<close>

function rx_find_all :: "rx \<Rightarrow> string \<Rightarrow> string list list" where
  "rx_find_all r s =
     (case rx_find r s of
        None \<Rightarrow> []
      | Some (g, t) \<Rightarrow> if length t < length s then g # rx_find_all r t else [g])"
  by pat_completeness auto
termination by (relation "measure (\<lambda>(r, s). length s)") auto

declare rx_find_all.simps [simp del]

section \<open>Common expressions\<close>

definition Some_of :: "(char \<Rightarrow> bool) \<Rightarrow> rx" where
  "Some_of p = Seq (Class p) (Many p)"

definition Byte :: "char \<Rightarrow> rx" where
  "Byte c = Class (\<lambda>d. d = c)"

text \<open>A literal, exact and with the flag \<^verbatim>\<open>i\<close>.\<close>

fun Exact :: "string \<Rightarrow> rx" where
  "Exact [] = Eps"
| "Exact (c # cs) = Seq (Byte c) (Exact cs)"

fun Fold :: "string \<Rightarrow> rx" where
  "Fold [] = Eps"
| "Fold (c # cs) = Seq (Class (\<lambda>d. lower_char d = lower_char c)) (Fold cs)"

definition not_byte :: "char \<Rightarrow> char \<Rightarrow> bool" where
  "not_byte c d \<longleftrightarrow> d \<noteq> c"

section \<open>What matches\<close>

lemma class_prefix:
  "(\<exists>k \<in> {0..<Suc (length (takeWhile p s))}. t = drop k s) \<longleftrightarrow> (\<exists>u. s = u @ t \<and> list_all p u)"
proof
  assume "\<exists>k \<in> {0..<Suc (length (takeWhile p s))}. t = drop k s"
  then obtain k where k: "k \<le> length (takeWhile p s)" "t = drop k s"
    unfolding atLeastLessThan_iff by (meson atLeastLessThan_iff less_Suc_eq_le)
  have "take k s = take k (takeWhile p s)" using k(1) by (metis takeWhile_eq_take take_take min.absorb1)
  then have "list_all p (take k s)" by (metis list_all_iff in_set_takeD set_takeWhileD)
  then show "\<exists>u. s = u @ t \<and> list_all p u" using k(2) by (intro exI [of _ "take k s"]) simp
next
  assume "\<exists>u. s = u @ t \<and> list_all p u"
  then obtain u where u: "s = u @ t" "list_all p u" by blast
  then have "length u \<le> length (takeWhile p s)" by (simp add: list_all_iff)
  then show "\<exists>k \<in> {0..<Suc (length (takeWhile p s))}. t = drop k s"
    using u(1) by (intro bexI [of _ "length u"]) auto
qed

lemma run_Eps [simp]: "(g, t) \<in> set (rx_runs Eps s) \<longleftrightarrow> g = [] \<and> s = t"
  by auto

lemma run_Class [simp]: "(g, t) \<in> set (rx_runs (Class p) s) \<longleftrightarrow> g = [] \<and> (\<exists>c. s = c # t \<and> p c)"
  by (cases s) auto

lemma run_Seq [simp]: "(g, t) \<in> set (rx_runs (Seq a b) s) \<longleftrightarrow>
    (\<exists>g1 u g2. (g1, u) \<in> set (rx_runs a s) \<and> (g2, t) \<in> set (rx_runs b u) \<and> g = g1 @ g2)"
proof
  assume "(g, t) \<in> set (rx_runs (Seq a b) s)"
  then show "\<exists>g1 u g2. (g1, u) \<in> set (rx_runs a s) \<and> (g2, t) \<in> set (rx_runs b u) \<and> g = g1 @ g2"
    by auto
next
  assume "\<exists>g1 u g2. (g1, u) \<in> set (rx_runs a s) \<and> (g2, t) \<in> set (rx_runs b u) \<and> g = g1 @ g2"
  then obtain g1 u g2 where m: "(g1, u) \<in> set (rx_runs a s)" "(g2, t) \<in> set (rx_runs b u)" "g = g1 @ g2"
    by blast
  have "(g, t) \<in> set (map (\<lambda>(h, u). (g1 @ h, u)) (rx_runs b u))"
    using m(2,3) by (force simp: image_iff)
  then show "(g, t) \<in> set (rx_runs (Seq a b) s)"
    using m(1) by (simp only: rx_runs.simps set_concat list.set_map) force
qed

lemma run_Many [simp]: "(g, t) \<in> set (rx_runs (Many p) s) \<longleftrightarrow> g = [] \<and> (\<exists>u. s = u @ t \<and> list_all p u)"
  unfolding class_prefix [symmetric] by (auto simp del: upt_Suc)

lemma run_Few [simp]: "(g, t) \<in> set (rx_runs (Few p) s) \<longleftrightarrow> g = [] \<and> (\<exists>u. s = u @ t \<and> list_all p u)"
  unfolding class_prefix [symmetric] by (auto simp del: upt_Suc)

lemma run_suffix: "(g, t) \<in> set (rx_runs r s) \<Longrightarrow> \<exists>u. s = u @ t"
proof (induction r arbitrary: g s t)
  case (Seq a b)
  then show ?case by (metis append.assoc run_Seq)
next
  case (Many p)
  then show ?case unfolding run_Many by blast
next
  case (Few p)
  then show ?case unfolding run_Few by blast
next
  case (Class p)
  then show ?case unfolding run_Class by auto
qed (auto simp del: rx_runs.simps(2,3,6,7))

lemma run_Group [simp]: "(g, t) \<in> set (rx_runs (Group a) s) \<longleftrightarrow>
    (\<exists>u h. s = u @ t \<and> (h, t) \<in> set (rx_runs a s) \<and> g = u # h)"
proof -
  have "(g, t) \<in> set (rx_runs (Group a) s) \<longleftrightarrow>
      (\<exists>h. (h, t) \<in> set (rx_runs a s) \<and> g = take (length s - length t) s # h)"
    by (force simp: image_iff)
  also have "\<dots> \<longleftrightarrow> (\<exists>u h. s = u @ t \<and> (h, t) \<in> set (rx_runs a s) \<and> g = u # h)"
  proof
    assume "\<exists>h. (h, t) \<in> set (rx_runs a s) \<and> g = take (length s - length t) s # h"
    then obtain h where h: "(h, t) \<in> set (rx_runs a s)" "g = take (length s - length t) s # h" by blast
    obtain u where "s = u @ t" using run_suffix [OF h(1)] by blast
    then show "\<exists>u h. s = u @ t \<and> (h, t) \<in> set (rx_runs a s) \<and> g = u # h" using h by auto
  qed auto
  finally show ?thesis .
qed

declare rx_runs.simps(1-3,6-8) [simp del]

lemma run_Some_of [simp]: "(g, t) \<in> set (rx_runs (Some_of p) s) \<longleftrightarrow>
    g = [] \<and> (\<exists>u. s = u @ t \<and> list_all p u \<and> u \<noteq> [])"
proof -
  have "(\<exists>c. s = c # w @ t \<and> p c \<and> list_all p w) = (s = (hd s # w) @ t \<and> list_all p (hd s # w) \<and> s \<noteq> [])" for w
    by (cases s) auto
  then have "(\<exists>c w. s = c # w @ t \<and> p c \<and> list_all p w) \<longleftrightarrow> (\<exists>u. s = u @ t \<and> list_all p u \<and> u \<noteq> [])"
    by (metis append_Cons list.exhaust list.pred_inject(2) list.distinct(1))
  then show ?thesis by (auto simp: Some_of_def)
qed

lemma run_Byte [simp]: "(g, t) \<in> set (rx_runs (Byte c) s) \<longleftrightarrow> g = [] \<and> s = c # t"
  by (auto simp: Byte_def)

lemma run_Fold [simp]: "(g, t) \<in> set (rx_runs (Fold w) s) \<longleftrightarrow>
    g = [] \<and> (\<exists>u. s = u @ t \<and> to_lower u = to_lower w)"
proof (induction w arbitrary: g s)
  case (Cons c cs)
  have "(\<exists>d u. s = d # u @ t \<and> lower_char d = lower_char c \<and> map lower_char u = map lower_char cs) \<longleftrightarrow>
      (\<exists>u. s = u @ t \<and> map lower_char u = map lower_char (c # cs))"
    by (force simp: map_eq_Cons_conv)
  then show ?case by (auto simp: Cons.IH to_lower_def)
qed (auto simp: to_lower_def)

lemma run_Exact [simp]: "(g, t) \<in> set (rx_runs (Exact w) s) \<longleftrightarrow> g = [] \<and> s = w @ t"
  by (induction w arbitrary: g s) auto


section \<open>Searching\<close>

lemma rx_find_here: "rx_runs r s \<noteq> [] \<Longrightarrow> rx_find r s = Some (hd (rx_runs r s))"
  by (subst rx_find.simps) (simp split: list.split)

lemma rx_find_skip: "rx_runs r (c # s) = [] \<Longrightarrow> rx_find r (c # s) = rx_find r s"
  by (subst rx_find.simps) simp

lemma rx_find_Nil: "rx_runs r [] = [] \<Longrightarrow> rx_find r [] = None"
  by (subst rx_find.simps) simp

lemma rx_no_runs: "(\<And>g t. (g, t) \<notin> set (rx_runs r s)) \<Longrightarrow> rx_runs r s = []"
  by (metis list.set_intros(1) neq_Nil_conv surj_pair)

lemma rx_find_run: "rx_find r s = Some (g, t) \<Longrightarrow> \<exists>pre u. s = pre @ u \<and> (g, t) \<in> set (rx_runs r u)"
proof (induction s)
  case Nil
  then show ?case by (subst (asm) rx_find.simps) (auto split: list.splits)
next
  case (Cons c s)
  show ?case
  proof (cases "rx_runs r (c # s) = []")
    case True
    then obtain pre u where "s = pre @ u" "(g, t) \<in> set (rx_runs r u)"
      using Cons by (auto simp: rx_find_skip)
    then show ?thesis by (intro exI [of _ "c # pre"] exI [of _ u]) simp
  next
    case False
    then have "hd (rx_runs r (c # s)) = (g, t)" using Cons.prems by (simp add: rx_find_here)
    then show ?thesis using hd_in_set [OF False] by (intro exI [of _ "[]"] exI [of _ "c # s"]) simp
  qed
qed

text \<open>A search that can match in one way only, if at all, is decided by the first place where it can.\<close>

lemma rx_find_only:
  assumes "\<And>g t. (g, t) \<in> set (rx_runs r s) \<Longrightarrow> g = v" and "(w, u) \<in> set (rx_runs r s)"
  shows "map_option fst (rx_find r s) = Some v"
proof -
  have ne: "rx_runs r s \<noteq> []" using assms(2) by auto
  obtain g t where h: "hd (rx_runs r s) = (g, t)" by fastforce
  then have "(g, t) \<in> set (rx_runs r s)" using hd_in_set [OF ne] by simp
  then show ?thesis using assms(1) rx_find_here [OF ne] h by auto
qed

end
