(* ===== verification/OnvifSoap.thy ===== *)
theory OnvifSoap
  imports GoRegexp RtspText GoTime
begin

text \<open>
  \<^verbatim>\<open>internal/domain/onvif.go\<close> and \<^verbatim>\<open>internal/adapters/secondary/onvif/soap_client.go\<close>: what the program
  says to an ONVIF camera and how it reads the answers. The HTTP client, SHA-1, MD5, the random
  nonce and \<^verbatim>\<open>net/url\<close> are the fields of \<open>soap_env\<close>. Calls carry a number that tells the calls of
  one probe apart, so the same request may be answered differently the next time.
\<close>

section \<open>Devices\<close>

record onvif_profile =
  op_token :: string
  op_name :: string
  op_encoding :: string
  op_width :: int
  op_height :: int
  op_fps :: int
  op_stream :: string

record onvif_device =
  od_id :: string
  od_name :: string
  od_manufacturer :: string
  od_model :: string
  od_firmware :: string
  od_serial :: string
  od_hardware :: string
  od_ip :: string
  od_port :: int
  od_xaddr :: string
  od_rtsp :: string
  od_snapshot :: string
  od_profiles :: "onvif_profile list"
  od_discovered :: gotime

record onvif_request =
  oq_ip :: string
  oq_port :: int
  oq_user :: string
  oq_pass :: string

text \<open>A parsed URL: the parts the program asks for.\<close>

record url_parts =
  up_scheme :: string
  up_hostname :: string
  up_port :: string
  up_request_uri :: string
  up_user :: "(string \<times> string) option"

record http_result =
  hg_status :: int
  hg_www_authenticate :: string
  hg_body :: "go_error + string"

record soap_env =
  se_call :: "nat \<Rightarrow> string \<Rightarrow> string \<Rightarrow> string \<Rightarrow> go_error + string"
  se_nonce :: "nat \<Rightarrow> string"
  se_created :: "nat \<Rightarrow> string"
  se_sha1 :: "string \<Rightarrow> string"
  se_md5_hex :: "string \<Rightarrow> string"
  se_parse_url :: "string \<Rightarrow> url_parts option"
  se_with_user :: "string \<Rightarrow> string \<Rightarrow> string \<Rightarrow> string"
  se_get :: "nat \<Rightarrow> string \<Rightarrow> string option \<Rightarrow> go_error + http_result"
  se_cnonce :: string
  se_frame :: "string \<Rightarrow> string option"
  se_now :: gotime

section \<open>Reading answers\<close>

definition element_rx :: "string \<Rightarrow> rx" where
  "element_rx name =
     Seq (Byte CHR ''<'') (Seq (Many (not_byte CHR ''>'')) (Seq (Fold name)
       (Seq (Many (not_byte CHR ''>'')) (Seq (Byte CHR ''>'')
         (Seq (Group (Some_of (not_byte CHR ''<''))) (Exact ''</''))))))"

definition extract_tag :: "string \<Rightarrow> string \<Rightarrow> string" where
  "extract_tag xml name =
     (case rx_find (element_rx name) xml of Some (v # _, _) \<Rightarrow> trim_space v | _ \<Rightarrow> [])"

definition digest_param_rx :: "string \<Rightarrow> rx" where
  "digest_param_rx key =
     Seq (Exact key) (Seq (Byte CHR ''='') (Seq (Opt (Byte CHR 0x22))
       (Seq (Group (Some_of (\<lambda>c. c \<noteq> CHR 0x22 \<and> c \<noteq> CHR '',''))) (Opt (Byte CHR 0x22)))))"

definition extract_digest_param :: "string \<Rightarrow> string \<Rightarrow> string" where
  "extract_digest_param header key =
     (case rx_find (digest_param_rx key) header of Some (v # _, _) \<Rightarrow> v | _ \<Rightarrow> [])"

definition profile_rx :: rx where
  "profile_rx =
     Seq (Byte CHR ''<'') (Seq (Many (not_byte CHR ''>'')) (Seq (Exact ''Profiles'')
       (Seq (Many (not_byte CHR ''>'')) (Seq (Exact (''token='' @ quote))
         (Seq (Group (Some_of (not_byte CHR 0x22))) (Seq (Byte CHR 0x22)
           (Seq (Many (not_byte CHR ''>'')) (Seq (Byte CHR ''>'') (Seq (Group (Few (\<lambda>c. True)))
             (Seq (Exact ''</'') (Seq (Many (not_byte CHR ''>'')) (Exact ''Profiles>''))))))))))))"

text \<open>The value of \<^verbatim>\<open>strconv.Atoi\<close> when its error is ignored: out of range it is the nearest bound.\<close>

definition atoi_value :: "string \<Rightarrow> int" where
  "atoi_value s =
     (case atoi s of Some v \<Rightarrow> v
      | None \<Rightarrow>
        let neg = (s \<noteq> [] \<and> hd s = CHR ''-'');
            ds = (if s \<noteq> [] \<and> (hd s = CHR ''-'' \<or> hd s = CHR ''+'') then tl s else s)
        in if ds = [] \<or> \<not> list_all is_digit ds then 0 else if neg then - (2 ^ 63) else 2 ^ 63 - 1)"

definition or_else :: "int \<Rightarrow> int \<Rightarrow> int" where
  "or_else v d = (if v = 0 then d else v)"

definition read_profile :: "string list \<Rightarrow> onvif_profile" where
  "read_profile m =
     (let body = m ! 1; enc = extract_tag body ''Encoding''
      in \<lparr>op_token = m ! 0, op_name = extract_tag body ''Name'',
          op_encoding = (if enc = [] then ''H264'' else enc),
          op_width = or_else (atoi_value (extract_tag body ''Width'')) 1920,
          op_height = or_else (atoi_value (extract_tag body ''Height'')) 1080,
          op_fps = or_else (atoi_value (extract_tag body ''FrameRateLimit'')) 30, op_stream = []\<rparr>)"

section \<open>Requests\<close>

definition lines_of :: "string list \<Rightarrow> string" where
  "lines_of = join_str [newline]"

definition in_quotes :: "string \<Rightarrow> string" where
  "in_quotes s = quote @ s @ quote"

definition wsse :: string where
  "wsse = ''http://docs.oasis-open.org/wss/2004/01/oasis-200401-wss-''"

definition security_text :: "string \<Rightarrow> string \<Rightarrow> string \<Rightarrow> string \<Rightarrow> string" where
  "security_text user digest nonce created =
     lines_of
       [[], ''  <s:Header>'',
        ''    <wsse:Security xmlns:wsse='' @ in_quotes (wsse @ ''wssecurity-secext-1.0.xsd''),
        ''                   xmlns:wsu='' @ in_quotes (wsse @ ''wssecurity-utility-1.0.xsd'') @ ''>'',
        ''      <wsse:UsernameToken>'',
        ''        <wsse:Username>'' @ user @ ''</wsse:Username>'',
        ''        <wsse:Password Type='' @ in_quotes (wsse @ ''username-token-profile-1.0#PasswordDigest'') @
          ''>'' @ digest @ ''</wsse:Password>'',
        ''        <wsse:Nonce EncodingType='' @ in_quotes (wsse @ ''soap-message-security-1.0#Base64Binary'') @
          ''>'' @ nonce @ ''</wsse:Nonce>'',
        ''        <wsu:Created>'' @ created @ ''</wsu:Created>'',
        ''      </wsse:UsernameToken>'', ''    </wsse:Security>'', ''  </s:Header>'']"

definition build_security_header :: "soap_env \<Rightarrow> nat \<Rightarrow> string \<Rightarrow> string \<Rightarrow> string" where
  "build_security_header env k user pass =
     (if user = [] then []
      else security_text user (b64_encode (se_sha1 env (se_nonce env k @ se_created env k @ pass)))
             (b64_encode (se_nonce env k)) (se_created env k))"

definition envelope :: "string \<Rightarrow> string \<Rightarrow> string" where
  "envelope header body =
     lines_of
       [''<?xml version='' @ in_quotes ''1.0'' @ '' encoding='' @ in_quotes ''utf-8'' @ ''?>'',
        ''<s:Envelope xmlns:s='' @ in_quotes ''http://www.w3.org/2003/05/soap-envelope'',
        ''            xmlns:tds='' @ in_quotes ''http://www.onvif.org/ver10/device/wsdl'',
        ''            xmlns:trt='' @ in_quotes ''http://www.onvif.org/ver10/media/wsdl'',
        ''            xmlns:tt='' @ in_quotes ''http://www.onvif.org/ver10/schema'' @ ''>'',
        header, ''  <s:Body>'', body, ''  </s:Body>'', ''</s:Envelope>'']"

definition soap_call ::
  "soap_env \<Rightarrow> nat \<Rightarrow> string \<Rightarrow> string \<Rightarrow> string \<Rightarrow> string \<Rightarrow> string \<Rightarrow> go_error + string" where
  "soap_call env k endpoint action user pass body =
     se_call env k endpoint action (envelope (build_security_header env k user pass) body)"

definition wsdl :: string where
  "wsdl = ''http://www.onvif.org/ver10/''"

definition get_device_information ::
  "soap_env \<Rightarrow> nat \<Rightarrow> string \<Rightarrow> string \<Rightarrow> string
   \<Rightarrow> go_error + (string \<times> string \<times> string \<times> string)" where
  "get_device_information env k endpoint user pass =
     (case soap_call env k endpoint (wsdl @ ''device/wsdl/GetDeviceInformation'') user pass
             ''<tds:GetDeviceInformation/>'' of
        Inl e \<Rightarrow> Inl e
      | Inr resp \<Rightarrow> Inr (extract_tag resp ''Manufacturer'', extract_tag resp ''Model'',
                       extract_tag resp ''FirmwareVersion'', extract_tag resp ''SerialNumber''))"

definition get_media_xaddr ::
  "soap_env \<Rightarrow> nat \<Rightarrow> string \<Rightarrow> string \<Rightarrow> string \<Rightarrow> go_error + string" where
  "get_media_xaddr env k endpoint user pass =
     (case soap_call env k endpoint (wsdl @ ''device/wsdl/GetCapabilities'') user pass
             ''<tds:GetCapabilities><tds:Category>Media</tds:Category></tds:GetCapabilities>'' of
        Inl e \<Rightarrow> Inl e
      | Inr resp \<Rightarrow>
          let a = extract_tag resp ''XAddr''
          in Inr (if a \<noteq> [] then a else replace_first endpoint ''/device_service'' ''/media_service''))"

definition get_profiles ::
  "soap_env \<Rightarrow> nat \<Rightarrow> string \<Rightarrow> string \<Rightarrow> string \<Rightarrow> go_error + onvif_profile list" where
  "get_profiles env k endpoint user pass =
     (case soap_call env k endpoint (wsdl @ ''media/wsdl/GetProfiles'') user pass ''<trt:GetProfiles/>'' of
        Inl e \<Rightarrow> Inl e
      | Inr resp \<Rightarrow> Inr (map read_profile (rx_find_all profile_rx resp)))"

definition stream_uri_body :: "string \<Rightarrow> string" where
  "stream_uri_body token =
     lines_of
       [[], ''    <trt:GetStreamUri>'', ''      <trt:StreamSetup>'',
        ''        <tt:Stream>RTP-Unicast</tt:Stream>'',
        ''        <tt:Transport><tt:Protocol>RTSP</tt:Protocol></tt:Transport>'',
        ''      </trt:StreamSetup>'', ''      <trt:ProfileToken>'' @ token @ ''</trt:ProfileToken>'',
        ''    </trt:GetStreamUri>'']"

definition get_stream_uri ::
  "soap_env \<Rightarrow> nat \<Rightarrow> string \<Rightarrow> string \<Rightarrow> string \<Rightarrow> string \<Rightarrow> go_error + string" where
  "get_stream_uri env k endpoint user pass token =
     (case soap_call env k endpoint (wsdl @ ''media/wsdl/GetStreamUri'') user pass (stream_uri_body token) of
        Inl e \<Rightarrow> Inl e
      | Inr resp \<Rightarrow>
          let uri = extract_tag resp ''Uri''
          in if uri = [] then Inl (ErrNew ''no stream uri returned in SOAP response'')
             else if user \<noteq> [] \<and> \<not> str_contains uri ''@'' \<and> se_parse_url env uri \<noteq> None
             then Inr (se_with_user env uri user pass) else Inr uri)"

definition snapshot_uri_body :: "string \<Rightarrow> string" where
  "snapshot_uri_body token =
     lines_of
       [[], ''    <trt:GetSnapshotUri>'', ''      <trt:ProfileToken>'' @ token @ ''</trt:ProfileToken>'',
        ''    </trt:GetSnapshotUri>'']"

definition get_snapshot_uri ::
  "soap_env \<Rightarrow> nat \<Rightarrow> string \<Rightarrow> string \<Rightarrow> string \<Rightarrow> string \<Rightarrow> go_error + string" where
  "get_snapshot_uri env k endpoint user pass token =
     (case soap_call env k endpoint (wsdl @ ''media/wsdl/GetSnapshotUri'') user pass (snapshot_uri_body token) of
        Inl e \<Rightarrow> Inl e
      | Inr resp \<Rightarrow>
          let uri = extract_tag resp ''Uri''
          in if uri = [] then Inl (ErrNew ''no snapshot uri returned in SOAP response'') else Inr uri)"

section \<open>Snapshots\<close>

definition build_digest_auth_header ::
  "soap_env \<Rightarrow> string \<Rightarrow> string \<Rightarrow> string \<Rightarrow> string \<Rightarrow> string \<Rightarrow> string" where
  "build_digest_auth_header env challenge meth raw user pass =
     (let realm = extract_digest_param challenge ''realm'';
          nonce = extract_digest_param challenge ''nonce'';
          qop = extract_digest_param challenge ''qop'';
          opaque = extract_digest_param challenge ''opaque'';
          uri = (case se_parse_url env raw of None \<Rightarrow> ''/'' | Some u \<Rightarrow> up_request_uri u);
          md5 = se_md5_hex env;
          ha1 = md5 (user @ '':'' @ realm @ '':'' @ pass);
          ha2 = md5 (meth @ '':'' @ uri);
          nc = ''00000001'';
          cnonce = se_cnonce env;
          start = (\<lambda>response. ''Digest username='' @ in_quotes user @ '', realm='' @ in_quotes realm @
            '', nonce='' @ in_quotes nonce @ '', uri='' @ in_quotes uri @ '', response='' @ in_quotes response);
          finish = (\<lambda>header. if opaque \<noteq> [] then header @ '', opaque='' @ in_quotes opaque else header)
      in if str_contains qop ''auth'' then
           finish (start (md5 (ha1 @ '':'' @ nonce @ '':'' @ nc @ '':'' @ cnonce @ '':auth:'' @ ha2)) @
             '', qop=auth, nc='' @ nc @ '', cnonce='' @ in_quotes cnonce)
         else finish (start (md5 (ha1 @ '':'' @ nonce @ '':'' @ ha2))))"

definition ok_body :: "http_result \<Rightarrow> go_error + string" where
  "ok_body r =
     (if hg_status r \<noteq> 200 then Inl (ErrNew (''snapshot request returned HTTP '' @ int_str (hg_status r)))
      else hg_body r)"

definition digest_retry :: "soap_env \<Rightarrow> http_result \<Rightarrow> string \<Rightarrow> string \<Rightarrow> string \<Rightarrow> http_result option" where
  "digest_retry env r url user pass =
     (if hg_status r = 401 \<and> user \<noteq> [] \<and> pass \<noteq> [] \<and>
         has_prefix (to_lower (hg_www_authenticate r)) ''digest'' then
        (case se_get env 1 url (Some (build_digest_auth_header env (hg_www_authenticate r) ''GET'' url user pass)) of
           Inl _ \<Rightarrow> None
         | Inr r2 \<Rightarrow> if hg_status r2 = 200 then Some r2 else None)
      else None)"

definition fetch_snapshot_bytes ::
  "soap_env \<Rightarrow> string \<Rightarrow> string \<Rightarrow> string \<Rightarrow> go_error + string" where
  "fetch_snapshot_bytes env url user pass =
     (case se_get env 0 url
             (if user \<noteq> [] \<and> pass \<noteq> [] then Some (''Basic '' @ b64_encode (user @ '':'' @ pass)) else None) of
        Inl e \<Rightarrow> Inl e
      | Inr r \<Rightarrow>
          (case digest_retry env r url user pass of Some r2 \<Rightarrow> hg_body r2 | None \<Rightarrow> ok_body r))"

section \<open>What the element expression finds\<close>

text \<open>
  The reference: the text of the first opening tag that contains the name, up to letter case, and is
  followed by a text that is not empty and by a closing tag.
\<close>

fun element_text :: "string \<Rightarrow> string \<Rightarrow> string option" where
  "element_text name [] = None"
| "element_text name (c # cs) =
     (let inside = takeWhile (not_byte CHR ''>'') cs;
          after = drop (Suc (length inside)) cs;
          value = takeWhile (not_byte CHR ''<'') after
      in if c = CHR ''<'' \<and> length inside < length cs \<and> str_contains (to_lower inside) (to_lower name) \<and>
            value \<noteq> [] \<and> has_prefix (drop (length value) after) ''</''
         then Some value else element_text name cs)"

declare element_text.simps [simp del]

lemma lower_gt: "lower_char c = CHR ''>'' \<longleftrightarrow> c = CHR ''>''"
proof
  assume l: "lower_char c = CHR ''>''"
  show "c = CHR ''>''"
  proof (cases "65 \<le> (of_char c :: nat) \<and> (of_char c :: nat) \<le> 90")
    case True
    then have "lower_char c = char_of ((of_char c :: nat) + 32)" by (simp add: lower_char_def)
    then have "(of_char (char_of ((of_char c :: nat) + 32)) :: nat) = of_char (CHR ''>'')" using l by simp
    moreover have "(of_char (char_of ((of_char c :: nat) + 32)) :: nat) = of_char c + 32"
      using True by (intro of_char_char_of) linarith
    moreover have "(of_char (CHR ''>'') :: nat) = 62" by simp
    ultimately show ?thesis using True by linarith
  qed (use l in \<open>auto simp: lower_char_def Let_def\<close>)
qed (simp add: lower_char_def)

lemma gt_to_lower: "CHR ''>'' \<in> set (to_lower u) \<longleftrightarrow> CHR ''>'' \<in> set u"
proof -
  have "CHR ''>'' \<in> lower_char ` A \<longleftrightarrow> CHR ''>'' \<in> A" for A
    using lower_gt by (metis imageE image_eqI)
  then show ?thesis by (simp add: to_lower_def)
qed

lemma contains_lower:
  "str_contains (to_lower s) (to_lower name) \<longleftrightarrow> (\<exists>a n b. s = a @ n @ b \<and> to_lower n = to_lower name)"
proof
  assume "str_contains (to_lower s) (to_lower name)"
  then obtain a b where ab: "map lower_char s = a @ to_lower name @ b"
    by (auto simp: str_contains_iff to_lower_def)
  obtain x w where "s = x @ w" and w: "map lower_char w = to_lower name @ b"
    using iffD1 [OF map_eq_append_conv ab] by metis
  moreover obtain y z where "w = y @ z" "map lower_char y = to_lower name"
    using iffD1 [OF map_eq_append_conv w] by metis
  ultimately show "\<exists>a n b. s = a @ n @ b \<and> to_lower n = to_lower name" unfolding to_lower_def by blast
next
  assume "\<exists>a n b. s = a @ n @ b \<and> to_lower n = to_lower name"
  then obtain a n b where "s = a @ n @ b" and n: "to_lower n = to_lower name" by blast
  then have "to_lower s = to_lower a @ to_lower name @ to_lower b"
    unfolding n [symmetric] by (simp add: to_lower_def)
  then show "str_contains (to_lower s) (to_lower name)" unfolding str_contains_iff by blast
qed

lemma list_all_not_byte: "list_all (not_byte c) u \<longleftrightarrow> c \<notin> set u"
  by (auto simp: list_all_iff not_byte_def)

lemma element_run:
  assumes "CHR ''>'' \<notin> set name"
  shows "(g, t) \<in> set (rx_runs (element_rx name) s) \<longleftrightarrow>
    (\<exists>inside v. s = ''<'' @ inside @ ''>'' @ v @ ''</'' @ t \<and> CHR ''>'' \<notin> set inside \<and>
       str_contains (to_lower inside) (to_lower name) \<and> v \<noteq> [] \<and> CHR ''<'' \<notin> set v \<and> g = [v])"
proof -
  have low: "CHR ''>'' \<notin> set u" if "to_lower u = to_lower name" for u
    using assms that gt_to_lower by metis
  have "(g, t) \<in> set (rx_runs (element_rx name) s) \<longleftrightarrow>
    (\<exists>a n b v. s = ''<'' @ (a @ n @ b) @ ''>'' @ v @ ''</'' @ t \<and> CHR ''>'' \<notin> set a \<and>
       to_lower n = to_lower name \<and> CHR ''>'' \<notin> set b \<and> v \<noteq> [] \<and> CHR ''<'' \<notin> set v \<and> g = [v])"
    by (simp add: element_rx_def list_all_not_byte) blast
  also have "\<dots> \<longleftrightarrow> (\<exists>inside v. s = ''<'' @ inside @ ''>'' @ v @ ''</'' @ t \<and> CHR ''>'' \<notin> set inside \<and>
       str_contains (to_lower inside) (to_lower name) \<and> v \<noteq> [] \<and> CHR ''<'' \<notin> set v \<and> g = [v])"
    (is "?l \<longleftrightarrow> ?r")
  proof
    assume ?l
    then obtain a n b v where "s = ''<'' @ (a @ n @ b) @ ''>'' @ v @ ''</'' @ t" "CHR ''>'' \<notin> set a"
      "to_lower n = to_lower name" "CHR ''>'' \<notin> set b" "v \<noteq> []" "CHR ''<'' \<notin> set v" "g = [v]" by blast
    moreover from this have "str_contains (to_lower (a @ n @ b)) (to_lower name)"
      unfolding contains_lower by blast
    moreover have "CHR ''>'' \<notin> set (a @ n @ b)" using calculation low by auto
    ultimately show ?r by blast
  next
    assume ?r
    then obtain inside v where i: "s = ''<'' @ inside @ ''>'' @ v @ ''</'' @ t" "CHR ''>'' \<notin> set inside"
      "str_contains (to_lower inside) (to_lower name)" "v \<noteq> []" "CHR ''<'' \<notin> set v" "g = [v]" by blast
    then obtain a n b where "inside = a @ n @ b" "to_lower n = to_lower name" by (auto simp: contains_lower)
    then show ?l using i by auto
  qed
  finally show ?thesis .
qed

lemma takeWhile_not_byte: "c \<notin> set u \<Longrightarrow> takeWhile (not_byte c) (u @ c # v) = u"
  by (induction u) (auto simp: not_byte_def)

lemma element_text_here:
  assumes "CHR ''>'' \<notin> set name" and "(g, t) \<in> set (rx_runs (element_rx name) s)"
  shows "\<exists>v. g = [v] \<and> element_text name s = Some v"
proof -
  obtain inside v where i: "s = ''<'' @ inside @ ''>'' @ v @ ''</'' @ t" "CHR ''>'' \<notin> set inside"
    "str_contains (to_lower inside) (to_lower name)" "v \<noteq> []" "CHR ''<'' \<notin> set v" "g = [v]"
    using assms(2) unfolding element_run [OF assms(1)] by blast
  have "takeWhile (not_byte CHR ''>'') (inside @ ''>'' @ v @ ''</'' @ t) = inside"
    "takeWhile (not_byte CHR ''<'') (v @ ''</'' @ t) = v"
    using takeWhile_not_byte [OF i(2)] takeWhile_not_byte [OF i(5)] by simp_all
  then show ?thesis using i by (simp add: element_text.simps Let_def has_prefix_def)
qed

lemma element_text_skip:
  assumes "CHR ''>'' \<notin> set name" and "\<And>g t. (g, t) \<notin> set (rx_runs (element_rx name) (c # cs))"
  shows "element_text name (c # cs) = element_text name cs"
proof -
  let ?inside = "takeWhile (not_byte CHR ''>'') cs"
  let ?after = "drop (Suc (length ?inside)) cs"
  let ?content = "takeWhile (not_byte CHR ''<'') ?after"
  have "\<not> (c = CHR ''<'' \<and> length ?inside < length cs \<and> str_contains (to_lower ?inside) (to_lower name) \<and>
      ?content \<noteq> [] \<and> has_prefix (drop (length ?content) ?after) ''</'')" (is "\<not> ?c")
  proof
    assume h: ?c
    have "cs = ?inside @ drop (length ?inside) cs" by (metis takeWhile_dropWhile_id dropWhile_eq_drop)
    moreover have "drop (length ?inside) cs = cs ! length ?inside # ?after"
      using h by (intro Cons_nth_drop_Suc [symmetric]) blast
    moreover have "cs ! length ?inside = CHR ''>''"
      using h nth_length_takeWhile [of "not_byte CHR ''>''" cs] by (simp add: not_byte_def)
    ultimately have cs: "cs = ?inside @ ''>'' @ ?after" by simp
    obtain t where "drop (length ?content) ?after = ''</'' @ t" using h by (auto simp: has_prefix_iff)
    then have after: "?after = ?content @ ''</'' @ t"
      by (metis takeWhile_dropWhile_id dropWhile_eq_drop)
    have "c # cs = ''<'' @ ?inside @ ''>'' @ ?content @ ''</'' @ t"
      using h cs after by simp
    moreover have "CHR ''>'' \<notin> set ?inside" "CHR ''<'' \<notin> set ?content"
      by (metis not_byte_def set_takeWhileD)+
    ultimately have "([?content], t) \<in> set (rx_runs (element_rx name) (c # cs))"
      using h unfolding element_run [OF assms(1)] by blast
    then show False using assms(2) by blast
  qed
  show ?thesis unfolding element_text.simps Let_def if_not_P [OF \<open>\<not> ?c\<close>] by (rule refl)
qed

lemma rx_find_element:
  assumes "CHR ''>'' \<notin> set name"
  shows "map_option fst (rx_find (element_rx name) s) = map_option (\<lambda>v. [v]) (element_text name s)"
proof (induction s)
  case Nil
  have "rx_runs (element_rx name) [] = []" by (rule rx_no_runs) (simp add: element_run [OF assms])
  then show ?case by (simp add: rx_find_Nil element_text.simps)
next
  case (Cons c cs)
  show ?case
  proof (cases "\<exists>g t. (g, t) \<in> set (rx_runs (element_rx name) (c # cs))")
    case True
    then obtain g t where r: "(g, t) \<in> set (rx_runs (element_rx name) (c # cs))" by blast
    obtain v where v: "element_text name (c # cs) = Some v"
      using element_text_here [OF assms r] by blast
    have "g' = [v]" if "(g', t') \<in> set (rx_runs (element_rx name) (c # cs))" for g' t'
      using element_text_here [OF assms that] v by simp
    then show ?thesis using rx_find_only [OF _ r, of "[v]"] v by simp
  next
    case False
    then have "rx_runs (element_rx name) (c # cs) = []" by (intro rx_no_runs) blast
    then show ?thesis using Cons.IH False element_text_skip [OF assms] rx_find_skip by metis
  qed
qed

section \<open>Properties\<close>



end
