(* ===== verification/Onvif.thy ===== *)
theory Onvif
  imports OnvifSoap Prelude "HOL-Library.Word"
begin

text \<open>
  \<^verbatim>\<open>internal/adapters/secondary/onvif\<close>: probing one camera (\<^verbatim>\<open>onvif_adapter.go\<close>) and the search for
  cameras on the local network (\<^verbatim>\<open>ws_discovery.go\<close>). Files the adapter writes are part of the result.
\<close>

section \<open>Probing a camera\<close>

definition device_service :: "string \<Rightarrow> int \<Rightarrow> string" where
  "device_service ip port = ''http://'' @ ip @ '':'' @ int_str port @ ''/onvif/device_service''"

type_synonym device_info = "string \<times> string \<times> string \<times> string"

text \<open>The first port that answers; the calls are numbered from \<open>k\<close>.\<close>

fun try_ports ::
  "soap_env \<Rightarrow> nat \<Rightarrow> string \<Rightarrow> string \<Rightarrow> string \<Rightarrow> int list \<Rightarrow> (int \<times> device_info) option" where
  "try_ports env k ip user pass [] = None"
| "try_ports env k ip user pass (p # ps) =
     (case get_device_information env k (device_service ip p) user pass of
        Inr i \<Rightarrow> Some (p, i)
      | Inl _ \<Rightarrow> try_ports env (Suc k) ip user pass ps)"

definition alternative_ports :: "int list" where
  "alternative_ports = [8899, 8000, 8080]"

definition device_at ::
  "soap_env \<Rightarrow> string \<Rightarrow> int \<Rightarrow> string \<Rightarrow> string \<Rightarrow> go_error + (int \<times> device_info)" where
  "device_at env ip port user pass =
     (case get_device_information env 0 (device_service ip port) user pass of
        Inr i \<Rightarrow> Inr (port, i)
      | Inl e \<Rightarrow>
          (case (if port = 80 then try_ports env 1 ip user pass alternative_ports else None) of
             Some r \<Rightarrow> Inr r
           | None \<Rightarrow> Inl (ErrNew (''failed to connect to ONVIF device service on '' @ ip @ '':'' @
                        int_str port @ '': '' @ error_text e))))"

text \<open>The stream of each profile, and the first of them.\<close>

fun stream_uris ::
  "soap_env \<Rightarrow> nat \<Rightarrow> string \<Rightarrow> string \<Rightarrow> string \<Rightarrow> string \<Rightarrow> onvif_profile list
   \<Rightarrow> onvif_profile list \<times> string" where
  "stream_uris env k media user pass def [] = ([], def)"
| "stream_uris env k media user pass def (p # ps) =
     (case get_stream_uri env k media user pass (op_token p) of
        Inr uri \<Rightarrow>
          if uri \<noteq> [] then
            let (ps', d) = stream_uris env (Suc k) media user pass (if def = [] then uri else def) ps
            in (p\<lparr>op_stream := uri\<rparr> # ps', d)
          else let (ps', d) = stream_uris env (Suc k) media user pass def ps in (p # ps', d)
      | Inl _ \<Rightarrow> let (ps', d) = stream_uris env (Suc k) media user pass def ps in (p # ps', d))"

definition default_rtsp :: "string \<Rightarrow> string \<Rightarrow> string \<Rightarrow> string" where
  "default_rtsp ip user pass =
     (if user \<noteq> [] \<and> pass \<noteq> [] then ''rtsp://'' @ user @ '':'' @ pass @ ''@'' @ ip @ '':554/live/ch0''
      else ''rtsp://'' @ ip @ '':554/live/ch0'')"

definition clean_ip :: "string \<Rightarrow> string" where
  "clean_ip ip = replace_char CHR ''.'' ''_'' ip"

definition jpeg_data :: string where
  "jpeg_data = ''data:image/jpeg;base64,''"

type_synonym writes = "(string \<times> string) list"

text \<open>A snapshot as the URL that holds it, with the two files it is written to.\<close>

definition keep_snapshot :: "string \<Rightarrow> int \<Rightarrow> string \<Rightarrow> string \<times> writes" where
  "keep_snapshot ip port img =
     (jpeg_data @ b64_encode img,
      [(''samples/onvif_'' @ clean_ip ip @ ''_'' @ int_str port @ ''.jpg'', img),
       (''samples/cam_'' @ clean_ip ip @ ''.jpg'', img)])"

definition soap_snapshot ::
  "soap_env \<Rightarrow> string \<Rightarrow> int \<Rightarrow> string \<Rightarrow> string \<Rightarrow> string \<Rightarrow> onvif_profile list \<Rightarrow> string \<times> writes" where
  "soap_snapshot env ip port media user pass ps =
     (case ps of [] \<Rightarrow> ([], [])
      | p # _ \<Rightarrow>
          (case get_snapshot_uri env 6 media user pass (op_token p) of
             Inl _ \<Rightarrow> ([], [])
           | Inr uri \<Rightarrow>
               if uri = [] then ([], [])
               else
                 (case fetch_snapshot_bytes env uri user pass of
                    Inl _ \<Rightarrow> ([], [])
                  | Inr img \<Rightarrow> if img = [] then ([], []) else keep_snapshot ip port img)))"

text \<open>The frame \<^verbatim>\<open>ffmpeg\<close> takes from the stream; an empty output is a failure.\<close>

definition frame_snapshot :: "soap_env \<Rightarrow> string \<Rightarrow> int \<Rightarrow> string \<Rightarrow> string \<times> writes" where
  "frame_snapshot env ip port rtsp =
     (if rtsp = [] then ([], [])
      else case se_frame env rtsp of
             None \<Rightarrow> ([], [])
           | Some img \<Rightarrow> if img = [] then ([], []) else keep_snapshot ip port img)"

definition probe_device ::
  "soap_env \<Rightarrow> string \<Rightarrow> int \<Rightarrow> string \<Rightarrow> string \<Rightarrow> (go_error + onvif_device) \<times> writes" where
  "probe_device env ip given user pass =
     (case device_at env ip (if given \<le> 0 then 80 else given) user pass of
        Inl e \<Rightarrow> (Inl e, [])
      | Inr (port, mfg, model, fw, serial) \<Rightarrow>
          let endpoint = device_service ip port;
              media = (case get_media_xaddr env 4 endpoint user pass of
                         Inr a \<Rightarrow> a
                       | Inl _ \<Rightarrow> ''http://'' @ ip @ '':'' @ int_str port @ ''/onvif/media_service'');
              found = (case get_profiles env 5 media user pass of Inr ps \<Rightarrow> ps | Inl _ \<Rightarrow> []);
              (profiles, first) = stream_uris env 8 media user pass [] found;
              rtsp = (if first = [] then default_rtsp ip user pass else first);
              (snap1, w1) = soap_snapshot env ip port media user pass profiles;
              (snap, w) = (if snap1 = [] \<and> rtsp \<noteq> [] then frame_snapshot env ip port rtsp else (snap1, w1));
              name = mfg @ '' '' @ model
          in (Inr
                \<lparr>od_id = ''onvif_'' @ clean_ip ip @ ''_'' @ int_str port,
                 od_name = (if trim_space name = [] then ''ONVIF Cam '' @ ip else name),
                 od_manufacturer = mfg, od_model = model, od_firmware = fw, od_serial = serial,
                 od_hardware = [], od_ip = ip, od_port = port, od_xaddr = endpoint, od_rtsp = rtsp,
                 od_snapshot = snap, od_profiles = profiles, od_discovered = se_now env\<rparr>, w))"

section \<open>The network's interfaces\<close>

type_synonym ip4 = "8 word list"

record interface =
  if_up :: bool
  if_loopback :: bool
  if_addrs :: "(ip4 \<times> ip4) option list option"

text \<open>
  An address is \<open>None\<close> if it is not an IPv4 network, and the list of addresses is \<open>None\<close> if they
  cannot be read. A mask has as many bytes as its address.
\<close>

definition subnet_broadcast :: "ip4 \<Rightarrow> ip4 \<Rightarrow> ip4" where
  "subnet_broadcast ip ms = map2 (\<lambda>a m. Bit_Operations.or a (Bit_Operations.not m)) ip ms"

definition interface_targets :: "interface \<Rightarrow> (ip4 \<times> ip4) list" where
  "interface_targets i =
     (if \<not> if_up i \<or> if_loopback i then []
      else case if_addrs i of None \<Rightarrow> []
           | Some as \<Rightarrow>
               map (\<lambda>(ip, m). (ip, subnet_broadcast ip m)) (List.map_filter (\<lambda>a. a) as))"

definition any_target :: "ip4 \<times> ip4" where
  "any_target = ([0, 0, 0, 0], [255, 255, 255, 255])"

definition get_active_interfaces :: "interface list option \<Rightarrow> (ip4 \<times> ip4) list" where
  "get_active_interfaces ifaces =
     (case ifaces of
        None \<Rightarrow> [any_target]
      | Some is \<Rightarrow>
          let targets = concat (map interface_targets is)
          in if targets = [] then [any_target] else targets)"

definition ip4_text :: "ip4 \<Rightarrow> string" where
  "ip4_text ip = join_str ''.'' (map (\<lambda>b. nat_str (unat b)) ip)"

definition ws_port :: string where
  "ws_port = '':3702''"

text \<open>The addresses a search is sent to from one interface.\<close>

definition destinations :: "ip4 \<times> ip4 \<Rightarrow> string list" where
  "destinations t =
     [''239.255.255.250'' @ ws_port, ''255.255.255.255'' @ ws_port] @
     (if snd t \<noteq> [255, 255, 255, 255] then [ip4_text (snd t) @ ws_port] else [])"

definition hex_of :: "8 word list \<Rightarrow> string" where
  "hex_of bs = concat (map (\<lambda>b. [hex_digit (unat b div 16), hex_digit (unat b)]) bs)"

definition generate_uuid :: "8 word list \<Rightarrow> string" where
  "generate_uuid b =
     hex_of (take 4 b) @ ''-'' @ hex_of (take 2 (drop 4 b)) @ ''-'' @ hex_of (take 2 (drop 6 b)) @ ''-'' @
     hex_of (take 2 (drop 8 b)) @ ''-'' @ hex_of (drop 10 b)"

text \<open>The two messages of a search, one for video transmitters and one for any device.\<close>

definition ws_head :: "string \<Rightarrow> string list \<Rightarrow> string list" where
  "ws_head uuid names =
     [''<?xml version='' @ in_quotes ''1.0'' @ '' encoding='' @ in_quotes ''UTF-8'' @ ''?>'',
      ''<e:Envelope xmlns:e='' @ in_quotes ''http://www.w3.org/2003/05/soap-envelope'',
      ''            xmlns:w='' @ in_quotes ''http://schemas.xmlsoap.org/ws/2004/08/addressing''] @
     names @
     [''  <e:Header>'', ''    <w:MessageID>uuid:'' @ uuid @ ''</w:MessageID>'',
      ''    <w:To e:mustUnderstand='' @ in_quotes ''true'' @ ''>urn:schemas-xmlsoap-org:ws:2005:04:discovery</w:To>'',
      ''    <w:Action a:mustUnderstand='' @ in_quotes ''true'' @ '' xmlns:a='' @
        in_quotes ''http://www.w3.org/2003/05/soap-envelope'' @
        ''>http://schemas.xmlsoap.org/ws/2005/04/discovery/Probe</w:Action>'',
      ''  </e:Header>'', ''  <e:Body>'']"

definition ws_probe :: "string \<Rightarrow> string" where
  "ws_probe uuid =
     lines_of (ws_head uuid
       [''            xmlns:d='' @ in_quotes ''http://schemas.xmlsoap.org/ws/2005/04/discovery'',
        ''            xmlns:dn='' @ in_quotes ''http://www.onvif.org/ver10/network/wsdl'' @ ''>''] @
       [''    <d:Probe>'', ''      <d:Types>dn:NetworkVideoTransmitter</d:Types>'', ''    </d:Probe>'',
        ''  </e:Body>'', ''</e:Envelope>''])"

definition ws_generic_probe :: "string \<Rightarrow> string" where
  "ws_generic_probe uuid =
     lines_of (ws_head uuid
       [''            xmlns:d='' @ in_quotes ''http://schemas.xmlsoap.org/ws/2005/04/discovery'' @ ''>''] @
       [''    <d:Probe/>'', ''  </e:Body>'', ''</e:Envelope>''])"

text \<open>
  What a search sends, as pairs of address and message: from every interface that can be listened
  on (\<open>listens\<close>, at its own address or at any) both messages to each destination. Both messages
  have the same id on all interfaces.
\<close>

definition search_messages ::
  "interface list option \<Rightarrow> (ip4 \<Rightarrow> bool) \<Rightarrow> 8 word list \<Rightarrow> 8 word list \<Rightarrow> (string \<times> string) list" where
  "search_messages ifaces listens random1 random2 =
     concat (map (\<lambda>t. if listens (fst t) \<or> listens [0, 0, 0, 0]
         then concat (map (\<lambda>d. [(d, ws_probe (generate_uuid random1)), (d, ws_generic_probe (generate_uuid random2))])
                (destinations t))
         else [])
       (get_active_interfaces ifaces))"

section \<open>Answers\<close>

definition hex_val :: "char \<Rightarrow> nat option" where
  "hex_val c =
     (let n = (of_char c :: nat)
      in if 48 \<le> n \<and> n \<le> 57 then Some (n - 48)
         else if 97 \<le> n \<and> n \<le> 102 then Some (n - 87)
         else if 65 \<le> n \<and> n \<le> 70 then Some (n - 55) else None)"

text \<open>\<^verbatim>\<open>url.QueryUnescape\<close>\<close>

fun query_unescape :: "string \<Rightarrow> string option" where
  "query_unescape [] = Some []"
| "query_unescape (c # cs) =
     (if c = CHR ''%'' then
        (case cs of
           a # b # ds \<Rightarrow>
             (case (hex_val a, hex_val b) of
                (Some x, Some y) \<Rightarrow> map_option (Cons (char_of (x * 16 + y))) (query_unescape ds)
              | _ \<Rightarrow> None)
         | _ \<Rightarrow> None)
      else map_option (Cons (if c = CHR ''+'' then CHR '' '' else c)) (query_unescape cs))"

text \<open>What follows the last occurrence of \<open>sub\<close>, if there is one.\<close>

fun after_last :: "string \<Rightarrow> string \<Rightarrow> string option" where
  "after_last sub [] = (if sub = [] then Some [] else None)"
| "after_last sub (c # cs) =
     (case after_last sub cs of
        Some t \<Rightarrow> Some t
      | None \<Rightarrow> if has_prefix (c # cs) sub then Some (drop (length sub) (c # cs)) else None)"

record scope_names =
  sn_name :: string
  sn_model :: string
  sn_mfg :: string

definition read_scope :: "scope_names \<Rightarrow> string \<Rightarrow> scope_names" where
  "read_scope n sc =
     (let d = (case query_unescape sc of Some d \<Rightarrow> d | None \<Rightarrow> [])
      in case after_last ''/name/'' d of
           Some t \<Rightarrow> n\<lparr>sn_name := t\<rparr>
         | None \<Rightarrow>
             (case after_last ''/hardware/'' d of
                Some t \<Rightarrow> n\<lparr>sn_model := t\<rparr>
              | None \<Rightarrow> (case after_last ''/mfr/'' d of Some t \<Rightarrow> n\<lparr>sn_mfg := t\<rparr> | None \<Rightarrow> n)))"

definition read_scopes :: "string \<Rightarrow> scope_names" where
  "read_scopes xml =
     (let n0 = \<lparr>sn_name = ''ONVIF Camera'', sn_model = ''Generic IP Camera'', sn_mfg = ''ONVIF''\<rparr>
      in case rx_find (element_rx ''Scopes'') xml of
           Some (v # _, _) \<Rightarrow> foldl read_scope n0 (str_fields v)
         | _ \<Rightarrow> n0)"

definition answer_port :: "url_parts \<Rightarrow> int" where
  "answer_port u =
     (if up_port u \<noteq> [] then (case atoi (up_port u) of Some p \<Rightarrow> p | None \<Rightarrow> 80)
      else if up_scheme u = ''https'' then 443 else 80)"

text \<open>
  \<^verbatim>\<open>parseProbeMatch\<close>: no device, a device, or a panic where the first of no fields is taken.
  \<open>split_host\<close> is \<^verbatim>\<open>net.SplitHostPort\<close>.
\<close>

definition parse_probe_match ::
  "(string \<Rightarrow> url_parts option) \<Rightarrow> (string \<Rightarrow> string option) \<Rightarrow> gotime \<Rightarrow> string \<Rightarrow> string
   \<Rightarrow> onvif_device option outcome" where
  "parse_probe_match parse_url split_host now xml src =
     (case rx_find (element_rx ''XAddrs'') xml of
        Some (v # _, _) \<Rightarrow>
          (case str_fields v of
             [] \<Rightarrow> Panics
           | f # _ \<Rightarrow>
               let raw = trim_space f
               in (case parse_url raw of
                     None \<Rightarrow> Returns None
                   | Some u \<Rightarrow>
                       let ip = (if up_hostname u = [] \<and> src \<noteq> []
                                 then (case split_host src of Some h \<Rightarrow> h | None \<Rightarrow> src)
                                 else up_hostname u);
                           port = answer_port u;
                           n = read_scopes xml
                       in Returns (Some
                            \<lparr>od_id = ''onvif_'' @ clean_ip ip @ ''_'' @ int_str port,
                             od_name = replace_char CHR ''_'' '' '' (sn_name n),
                             od_manufacturer = sn_mfg n, od_model = sn_model n, od_firmware = [],
                             od_serial = [], od_hardware = [], od_ip = ip, od_port = port, od_xaddr = raw,
                             od_rtsp = [], od_snapshot = [], od_profiles = [], od_discovered = now\<rparr>)))
      | _ \<Rightarrow> Returns None)"

section \<open>Collecting the devices\<close>

text \<open>
  The receivers of all interfaces share the list under a mutex, so the answers are handled one at a
  time, in some order. \<open>parse\<close> is \<^verbatim>\<open>parseProbeMatch\<close> applied to an answer.
\<close>

definition device_key :: "onvif_device \<Rightarrow> string" where
  "device_key d = od_ip d @ '':'' @ od_xaddr d"

definition add_device :: "onvif_device \<Rightarrow> onvif_device list \<Rightarrow> onvif_device list" where
  "add_device d ds = (if device_key d \<in> device_key ` set ds then ds else ds @ [d])"

fun collect_devices ::
  "('a \<Rightarrow> onvif_device option outcome) \<Rightarrow> 'a list \<Rightarrow> onvif_device list \<Rightarrow> onvif_device list outcome" where
  "collect_devices parse [] ds = Returns ds"
| "collect_devices parse (a # as) ds =
     (case parse a of
        Panics \<Rightarrow> Panics
      | Returns None \<Rightarrow> collect_devices parse as ds
      | Returns (Some d) \<Rightarrow> collect_devices parse as (add_device d ds))"

record answer_packet =
  ap_data :: string
  ap_source :: string
  ap_time :: gotime

definition parse_packet ::
  "(string \<Rightarrow> url_parts option) \<Rightarrow> (string \<Rightarrow> string option) \<Rightarrow> answer_packet
   \<Rightarrow> onvif_device option outcome" where
  "parse_packet parse_url split_host a =
     parse_probe_match parse_url split_host (ap_time a) (take 8192 (ap_data a)) (ap_source a)"

definition perform_discovery ::
  "(string \<Rightarrow> url_parts option) \<Rightarrow> (string \<Rightarrow> string option) \<Rightarrow> answer_packet list
   \<Rightarrow> onvif_device list outcome" where
  "perform_discovery parse_url split_host answers =
     collect_devices (parse_packet parse_url split_host) answers []"

section \<open>Where a search goes\<close>

lemma every_search_is_multicast:
  assumes "\<And>ip. listens ip"
  shows "(''239.255.255.250:3702'', ws_probe (generate_uuid a)) \<in> set (search_messages ifaces listens a b)"
proof -
  have "get_active_interfaces ifaces \<noteq> []" by (simp add: get_active_interfaces_def Let_def split: option.split)
  then obtain t ts where "get_active_interfaces ifaces = t # ts" by (cases "get_active_interfaces ifaces") auto
  then show ?thesis using assms by (simp add: search_messages_def destinations_def ws_port_def)
qed

section \<open>Which port answers\<close>

lemma try_ports_Some: "try_ports env k ip user pass ps = Some (p, i) \<Longrightarrow>
    p \<in> set ps \<and> (\<exists>j \<ge> k. get_device_information env j (device_service ip p) user pass = Inr i)"
proof (induction ps arbitrary: k)
  case (Cons q qs)
  show ?case
  proof (cases "get_device_information env k (device_service ip q) user pass")
    case (Inl e)
    then have "try_ports env (Suc k) ip user pass qs = Some (p, i)" using Cons.prems by simp
    then show ?thesis using Cons.IH Suc_leD by (metis list.set_intros(2))
  qed (use Cons.prems in auto)
qed simp

lemma try_ports_None: "try_ports env k ip user pass ps = None \<Longrightarrow> n < length ps \<Longrightarrow>
    \<exists>e. get_device_information env (k + n) (device_service ip (ps ! n)) user pass = Inl e"
proof (induction ps arbitrary: k n)
  case (Cons q qs)
  then show ?case using Cons.IH [of "Suc k" "n - 1"] by (cases n) (auto split: sum.splits)
qed simp

lemma device_at_Inr:
  assumes "device_at env ip port user pass = Inr (p, i)"
  shows "(p = port \<or> port = 80 \<and> p \<in> set alternative_ports) \<and>
    (\<exists>k. get_device_information env k (device_service ip p) user pass = Inr i)"
  using assms unfolding device_at_def
  by (auto split: sum.splits option.splits if_splits dest: try_ports_Some)

lemma device_at_Inl:
  assumes "device_at env ip port user pass = Inl e"
  shows "(\<exists>e. get_device_information env 0 (device_service ip port) user pass = Inl e) \<and>
    (port = 80 \<longrightarrow> (\<forall>n < 3. \<exists>e. get_device_information env (1 + n)
       (device_service ip (alternative_ports ! n)) user pass = Inl e))"
  using assms try_ports_None [of env 1 ip user pass alternative_ports]
  unfolding device_at_def by (auto simp: alternative_ports_def split: sum.splits option.splits if_splits)

lemma probe_device_Inr:
  "device_at env ip (if given \<le> 0 then 80 else given) user pass = Inr (port, mfg, model, fw, serial) \<Longrightarrow>
   \<exists>dev. fst (probe_device env ip given user pass) = Inr dev \<and> od_port dev = port \<and> od_ip dev = ip \<and>
     od_xaddr dev = device_service ip port \<and> od_manufacturer dev = mfg \<and> od_model dev = model \<and>
     od_name dev = (if trim_space (mfg @ '' '' @ model) = [] then ''ONVIF Cam '' @ ip else mfg @ '' '' @ model) \<and>
     od_rtsp dev \<noteq> []"
  by (simp add: probe_device_def Let_def case_prod_beta default_rtsp_def)

lemma probe_device_Inl:
  "fst (probe_device env ip given user pass) = Inl e \<longleftrightarrow>
   device_at env ip (if given \<le> 0 then 80 else given) user pass = Inl e"
  by (auto simp: probe_device_def Let_def case_prod_beta split: sum.split)

section \<open>Answers that are no SOAP\<close>

lemma element_text_no_lt: "CHR ''<'' \<notin> set s \<Longrightarrow> element_text name s = None"
  by (induction s) (auto simp: element_text.simps Let_def)

lemma extract_tag_no_lt: "CHR ''>'' \<notin> set name \<Longrightarrow> CHR ''<'' \<notin> set s \<Longrightarrow> extract_tag s name = []"
  using rx_find_element [of name s]
  by (simp add: extract_tag_def element_text_no_lt)

lemma rx_find_no_lt: "CHR ''<'' \<notin> set s \<Longrightarrow> rx_find profile_rx s = None"
proof (cases "rx_find profile_rx s")
  case (Some m)
  assume no: "CHR ''<'' \<notin> set s"
  obtain g t where m: "m = (g, t)" by fastforce
  obtain pre u where "s = pre @ u" "(g, t) \<in> set (rx_runs profile_rx u)"
    using rx_find_run Some m by blast
  then have "CHR ''<'' \<in> set u" unfolding profile_rx_def by (subst (asm) run_Seq) auto
  then show ?thesis using no \<open>s = pre @ u\<close> by simp
qed simp

lemma no_soap_answers:
  assumes "\<And>k e a x. \<exists>b. se_call env k e a x = Inr b \<and> CHR ''<'' \<notin> set b"
  shows "get_device_information env k e user pass = Inr ([], [], [], [])"
    and "get_profiles env k e user pass = Inr []"
proof -
  obtain b where "soap_call env k e (wsdl @ ''device/wsdl/GetDeviceInformation'') user pass
      ''<tds:GetDeviceInformation/>'' = Inr b" and "CHR ''<'' \<notin> set b"
    using assms unfolding soap_call_def by blast
  then show "get_device_information env k e user pass = Inr ([], [], [], [])"
    by (simp add: get_device_information_def extract_tag_no_lt)
  obtain b where "soap_call env k e (wsdl @ ''media/wsdl/GetProfiles'') user pass ''<trt:GetProfiles/>'' = Inr b"
    and "CHR ''<'' \<notin> set b" using assms unfolding soap_call_def by blast
  then show "get_profiles env k e user pass = Inr []"
    by (simp add: get_profiles_def rx_find_all.simps rx_find_no_lt)
qed

section \<open>The list of devices\<close>

lemma add_device_keys: "distinct (map device_key ds) \<Longrightarrow> distinct (map device_key (add_device d ds))"
  "device_key ` set (add_device d ds) = insert (device_key d) (device_key ` set ds)"
  "set (add_device d ds) \<subseteq> insert d (set ds)"
  by (auto simp: add_device_def)

lemma collect_devices_ok:
  assumes "collect_devices parse as ds = Returns ds'" and "distinct (map device_key ds)"
  shows "distinct (map device_key ds') \<and>
    device_key ` set ds' = device_key ` set ds \<union> {device_key d | d a. a \<in> set as \<and> parse a = Returns (Some d)} \<and>
    set ds' \<subseteq> set ds \<union> {d. \<exists>a \<in> set as. parse a = Returns (Some d)}"
  using assms
proof (induction as arbitrary: ds)
  case (Cons a as)
  show ?case
  proof (cases "parse a")
    case (Returns o1)
    show ?thesis
    proof (cases o1)
      case None
      then show ?thesis using Cons Returns by auto
    next
      case (Some d)
      then have "collect_devices parse as (add_device d ds) = Returns ds'" using Cons.prems(1) Returns by simp
      from Cons.IH [OF this add_device_keys(1) [OF Cons.prems(2)]]
      show ?thesis using add_device_keys(2,3) [of d ds] Some Returns by auto
    qed
  qed (use Cons.prems in simp)
qed simp

lemma collect_devices_panics: "collect_devices parse as ds = Panics \<longleftrightarrow> (\<exists>a \<in> set as. parse a = Panics)"
  by (induction as arbitrary: ds) (auto split: outcome.split option.split)

lemma concat_split_char: "concat (split_char c s) = filter (\<lambda>d. d \<noteq> c) s"
  by (induction s) (auto split: list.split)

lemma concat_nonempty: "concat (filter (\<lambda>w. w \<noteq> []) ws) = concat ws"
  by (induction ws) auto

lemma str_fields_Nil_iff: "str_fields s = [] \<longleftrightarrow> list_all is_space s"
proof -
  have "str_fields s = [] \<longleftrightarrow> concat (str_fields s) = []" by (auto simp: str_fields_def filter_empty_conv)
  also have "\<dots> \<longleftrightarrow> (\<forall>c \<in> set s. is_space c \<or> c = CHR '' '')"
    by (auto simp: str_fields_def concat_nonempty concat_split_char filter_empty_conv)
  also have "\<dots> \<longleftrightarrow> list_all is_space s"
  proof -
    have "is_space CHR '' ''" by (simp add: is_space_def)
    then show ?thesis unfolding list_all_iff by blast
  qed
  finally show ?thesis .
qed

lemma parse_packet_panics: "parse_packet parse_url split_host a = Panics \<longleftrightarrow>
    (\<exists>v. element_text ''XAddrs'' (take 8192 (ap_data a)) = Some v \<and> list_all is_space v)"
proof (cases "element_text ''XAddrs'' (take 8192 (ap_data a))")
  case None
  then have "rx_find (element_rx ''XAddrs'') (take 8192 (ap_data a)) = None"
    using rx_find_element [of "''XAddrs''" "take 8192 (ap_data a)"] by simp
  then show ?thesis by (simp add: parse_packet_def parse_probe_match_def None)
next
  case (Some v)
  then obtain t where "rx_find (element_rx ''XAddrs'') (take 8192 (ap_data a)) = Some ([v], t)"
    using rx_find_element [of "''XAddrs''" "take 8192 (ap_data a)"] by auto
  then show ?thesis unfolding parse_packet_def parse_probe_match_def Some
    by (simp add: str_fields_Nil_iff [symmetric] Let_def split: list.split option.split)
qed

section \<open>Properties\<close>

text \<open>
  C25: A probe names a port that answers: if it finds a device, then its port is the given one (80 if none
  is given) or, if that is 80, one of 8899, 8000 and 8080, its service address is the one of that
  port, and that address answered GetDeviceInformation; if it finds none, then no port it may try
  answered, and no file is written.
\<close>

theorem probe_names_answering_port:
  fixes given :: int
  defines "start \<equiv> if given \<le> 0 then 80 else given"
  shows "case fst (probe_device env ip given user pass) of
     Inr dev \<Rightarrow> (od_port dev = start \<or> start = 80 \<and> od_port dev \<in> {8899, 8000, 8080}) \<and>
       od_xaddr dev = device_service ip (od_port dev) \<and>
       (\<exists>k i. get_device_information env k (od_xaddr dev) user pass = Inr i)
   | Inl _ \<Rightarrow> snd (probe_device env ip given user pass) = [] \<and>
       (\<exists>e. get_device_information env 0 (device_service ip start) user pass = Inl e) \<and>
       (start = 80 \<longrightarrow> (\<forall>n < 3. \<exists>e. get_device_information env (1 + n)
          (device_service ip (alternative_ports ! n)) user pass = Inl e))"
proof (cases "device_at env ip start user pass")
  case (Inl e)
  then have "probe_device env ip given user pass = (Inl e, [])"
    by (simp add: probe_device_def start_def)
  then show ?thesis using device_at_Inl [OF Inl] by simp
next
  case (Inr r)
  obtain port mfg model fw serial where r: "r = (port, mfg, model, fw, serial)" by (cases r)
  obtain dev where d: "fst (probe_device env ip given user pass) = Inr dev" "od_port dev = port"
    "od_xaddr dev = device_service ip port"
    using probe_device_Inr Inr unfolding r start_def by metis
  show ?thesis
    using device_at_Inr [OF Inr [unfolded r]] unfolding d(1) sum.case d(2,3) alternative_ports_def
    by (elim conjE exE) (intro conjI exI; simp)
qed

text \<open>
  Any HTTP server passes for a camera: the status of an answer is never read, so if every call is
  answered with a body in which there is no \<open><\<close> (such as the text of an error 404), the probe
  succeeds on the given port with a device that has no manufacturer and model, no profiles and
  the name ONVIF Cam followed by the address.
\<close>

theorem any_server_is_a_camera:
  assumes "\<And>k e a x. \<exists>b. se_call env k e a x = Inr b \<and> CHR ''<'' \<notin> set b"
  shows "\<exists>dev. fst (probe_device env ip port user pass) = Inr dev \<and>
    od_port dev = (if port \<le> 0 then 80 else port) \<and> od_name dev = ''ONVIF Cam '' @ ip \<and>
    od_manufacturer dev = [] \<and> od_model dev = [] \<and> od_profiles dev = [] \<and> od_rtsp dev = default_rtsp ip user pass"
proof -
  let ?p = "if port \<le> 0 then 80 else port"
  have "device_at env ip ?p user pass = Inr (?p, [], [], [], [])"
    unfolding device_at_def no_soap_answers(1) [OF assms] by simp
  then show ?thesis
    unfolding probe_device_def
    by (simp add: no_soap_answers(2) [OF assms] trim_space_Nil_iff is_space_def Let_def case_prod_beta)
qed

text \<open>
  C26: The search lists every device once: whatever the order in which the answers come in, if it
  returns then no two devices of the result have the same address and service address, the
  devices listed are devices that answered, and every device that answered is listed up to those two.
\<close>

theorem discovery_lists_once:
  assumes "perform_discovery parse_url split_host answers = Returns devices"
  shows "distinct (map device_key devices) \<and>
    (\<forall>d \<in> set devices. \<exists>a \<in> set answers. parse_packet parse_url split_host a = Returns (Some d)) \<and>
    (\<forall>a \<in> set answers. \<forall>d. parse_packet parse_url split_host a = Returns (Some d) \<longrightarrow>
       (\<exists>d' \<in> set devices. device_key d' = device_key d))"
proof -
  note c = collect_devices_ok [OF assms [unfolded perform_discovery_def], simplified]
  have "\<exists>d' \<in> set devices. device_key d' = device_key d"
    if "a \<in> set answers" "parse_packet parse_url split_host a = Returns (Some d)" for a d
  proof -
    have "device_key d \<in> device_key ` set devices" using c that by blast
    then show ?thesis by auto
  qed
  then show ?thesis using c by blast
qed

text \<open>
  One packet ends the program: the search panics exactly if in some answer (of at most 8192 bytes)
  the text of the first element named XAddrs holds only white space, whatever else answers and in
  whatever order. The panic is in a goroutine of its own, where nothing recovers it.
\<close>

theorem discovery_panics_iff:
  "perform_discovery parse_url split_host answers = Panics \<longleftrightarrow>
   (\<exists>a \<in> set answers. \<exists>v. element_text ''XAddrs'' (take 8192 (ap_data a)) = Some v \<and> list_all is_space v)"
  unfolding perform_discovery_def collect_devices_panics parse_packet_panics ..

section \<open>A small network\<close>

definition silent_web :: soap_env where
  "silent_web =
     \<lparr>se_call = (\<lambda>k e a x. Inr ''404 page not found''), se_nonce = (\<lambda>k. ''n''), se_created = (\<lambda>k. ''c''),
      se_sha1 = (\<lambda>x. x), se_md5_hex = (\<lambda>x. x), se_parse_url = (\<lambda>u. None), se_with_user = (\<lambda>u a b. u),
      se_get = (\<lambda>k u a. Inl (ErrNew ''closed'')), se_cnonce = [], se_frame = (\<lambda>u. None), se_now = 5\<rparr>"

theorem probe_names_answering_port_witness:
  "\<exists>dev. fst (probe_device silent_web ''10.0.0.9'' 8080 [] []) = Inr dev \<and> od_port dev = 8080 \<and>
     od_xaddr dev = device_service ''10.0.0.9'' 8080"
proof -
  have "\<exists>b. se_call silent_web k e a x = Inr b \<and> CHR ''<'' \<notin> set b" for k e a x by (simp add: silent_web_def)
  then have "device_at silent_web ''10.0.0.9'' 8080 [] [] = Inr (8080, [], [], [], [])"
    unfolding device_at_def by (simp add: no_soap_answers(1))
  then obtain dev where dev: "fst (probe_device silent_web ''10.0.0.9'' 8080 [] []) = Inr dev"
    using probe_device_Inr [of silent_web "''10.0.0.9''" 8080] by fastforce
  have "od_port dev = 8080 \<and> od_xaddr dev = device_service ''10.0.0.9'' (od_port dev)"
    using probe_names_answering_port [where env = silent_web and ip = "''10.0.0.9''" and given = 8080
        and user = "[]" and pass = "[]"] by (simp add: dev)
  then show ?thesis using dev by simp
qed

theorem any_server_is_a_camera_witness:
  "\<exists>dev. fst (probe_device silent_web ''10.0.0.9'' 8080 [] []) = Inr dev \<and> od_port dev = 8080 \<and>
     od_rtsp dev = ''rtsp://10.0.0.9:554/live/ch0''"
  using any_server_is_a_camera [of silent_web "''10.0.0.9''" 8080 "[]" "[]"]
  by (auto simp: silent_web_def default_rtsp_def)

definition answer_of :: "string \<Rightarrow> answer_packet" where
  "answer_of x = \<lparr>ap_data = ''<d:XAddrs>'' @ x @ ''</d:XAddrs>'', ap_source = ''10.0.0.7:3702'', ap_time = 3\<rparr>"

definition some_url :: "string \<Rightarrow> url_parts option" where
  "some_url u = Some \<lparr>up_scheme = ''http'', up_hostname = u, up_port = [], up_request_uri = ''/'', up_user = None\<rparr>"

lemma answer_address: "x \<in> {''a'', ''b''} \<Longrightarrow> element_text ''XAddrs'' (take 8192 (ap_data (answer_of x))) = Some x"
  by (elim insertE emptyE) (simp_all only: answer_of_def, code_simp+)

theorem discovery_lists_once_witness:
  "\<exists>ds. perform_discovery some_url (\<lambda>h. None) [answer_of ''a'', answer_of ''b'', answer_of ''a''] = Returns ds \<and>
     distinct (map device_key ds)"
proof -
  have "perform_discovery some_url (\<lambda>h. None) [answer_of ''a'', answer_of ''b'', answer_of ''a''] \<noteq> Panics"
    unfolding perform_discovery_def collect_devices_panics parse_packet_panics
    by (simp add: answer_address is_space_def)
  then obtain ds where "perform_discovery some_url (\<lambda>h. None) [answer_of ''a'', answer_of ''b'', answer_of ''a''] = Returns ds"
    using outcome.exhaust by blast
  then show ?thesis using discovery_lists_once by blast
qed

end
