(* ===== verification/Probe.thy ===== *)
theory Probe
  imports Diagnostics Base64 Onvif
begin

text \<open>
  The probe endpoint, \<^verbatim>\<open>probe_handler.go\<close>, \<^verbatim>\<open>probe_handler_helpers.go\<close>, \<^verbatim>\<open>probe_handler_rtsp.go\<close> and
  \<^verbatim>\<open>probe_handler_onvif.go\<close> of \<^verbatim>\<open>internal/adapters/primary/http\<close>: the check of the target against
  requests into the own network, and the four kinds of probe. A probe answers, contacts other
  hosts and writes image files; all three are its result. What the network, \<^verbatim>\<open>ffmpeg\<close>, \<^verbatim>\<open>ffprobe\<close> and
  the Rust engine answer are the fields of \<open>probe_world\<close>. Every name is resolved once: that it may
  resolve differently when it is dialled is outside the model.
\<close>

section \<open>Addresses\<close>

type_synonym ip_addr = "8 word list"

definition to4 :: "ip_addr \<Rightarrow> ip4 option" where
  "to4 ip =
     (if length ip = 4 then Some ip
      else if length ip = 16 \<and> take 12 ip = replicate 10 0 @ [255, 255] then Some (drop 12 ip) else None)"

text \<open>\<^verbatim>\<open>IsLoopback\<close>, \<^verbatim>\<open>IsMulticast\<close>, \<^verbatim>\<open>IsUnspecified\<close> and \<^verbatim>\<open>String\<close> of \<^verbatim>\<open>net.IP\<close>.\<close>

definition is_loopback :: "ip_addr \<Rightarrow> bool" where
  "is_loopback ip =
     (case to4 ip of Some q \<Rightarrow> q ! 0 = 127 | None \<Rightarrow> ip = replicate 15 0 @ [1])"

definition is_multicast :: "ip_addr \<Rightarrow> bool" where
  "is_multicast ip =
     (case to4 ip of Some q \<Rightarrow> 224 \<le> unat (q ! 0) \<and> unat (q ! 0) < 240
      | None \<Rightarrow> length ip = 16 \<and> ip ! 0 = 255)"

definition is_unspecified :: "ip_addr \<Rightarrow> bool" where
  "is_unspecified ip \<longleftrightarrow> to4 ip = Some [0, 0, 0, 0] \<or> ip = replicate 16 0"

definition ip_string :: "(ip_addr \<Rightarrow> string) \<Rightarrow> ip_addr \<Rightarrow> string" where
  "ip_string text6 ip = (case to4 ip of Some q \<Rightarrow> ip4_text q | None \<Rightarrow> text6 ip)"

section \<open>Requests, answers and the world\<close>

record probe_request =
  pq_stream_id :: string
  pq_camera_id :: string
  pq_protocol :: string
  pq_url :: string
  pq_ip :: string
  pq_port :: int
  pq_user :: string
  pq_pass :: string

record probe_response =
  pr_online :: bool
  pr_error :: string
  pr_auth_required :: bool
  pr_codec :: string
  pr_resolution :: string
  pr_fps :: int
  pr_latency :: int
  pr_snapshot :: string
  pr_manufacturer :: string
  pr_model :: string
  pr_firmware :: string
  pr_serial :: string
  pr_rtsp :: string
  pr_onvif :: bool
  pr_onvif_port :: int

definition no_response :: probe_response where
  "no_response =
     \<lparr>pr_online = False, pr_error = [], pr_auth_required = False, pr_codec = [], pr_resolution = [],
      pr_fps = 0, pr_latency = 0, pr_snapshot = [], pr_manufacturer = [], pr_model = [],
      pr_firmware = [], pr_serial = [], pr_rtsp = [], pr_onvif = False, pr_onvif_port = 0\<rparr>"

record rust_probe =
  ru_online :: bool
  ru_codec :: string
  ru_resolution :: string
  ru_fps :: int
  ru_latency :: int

text \<open>
  \<open>pw_lookup\<close> is \<^verbatim>\<open>net.LookupIP\<close>, \<open>pw_soap p\<close> the ONVIF client when port \<open>p\<close> is asked, \<open>pw_scan\<close> the order
  in which the scanned ports report, \<open>pw_scan_in_time\<close> whether the scan ends within a second.
  \<open>pw_ffmpeg\<close> gives the success, the output and the image file of a capture.
\<close>

record probe_world =
  pw_allow_local :: bool
  pw_lookup :: "string \<Rightarrow> ip_addr list option"
  pw_parse_ip :: "string \<Rightarrow> ip_addr option"
  pw_text6 :: "ip_addr \<Rightarrow> string"
  pw_parse_url :: "string \<Rightarrow> url_parts option"
  pw_dial :: "string \<Rightarrow> bool"
  pw_soap :: "int \<Rightarrow> soap_env"
  pw_scan :: "int list"
  pw_scan_in_time :: bool
  pw_latency :: int
  pw_rust :: "string \<Rightarrow> rust_probe option"
  pw_rust_image :: "string \<Rightarrow> string option"
  pw_ffmpeg :: "string \<Rightarrow> bool \<times> string \<times> string option"
  pw_ffprobe :: "string \<Rightarrow> string option"
  pw_frame :: "string \<Rightarrow> string option"
  pw_is_file :: "string \<Rightarrow> bool"

text \<open>A host and port that is dialled, a host and port asked over SOAP, or a URL a media program opens.\<close>

datatype contact = Dialled string int | Asked string int | Opened string

type_synonym probe_result = "probe_response \<times> contact list \<times> writes"

section \<open>The guard\<close>

definition o_tilde :: string where "o_tilde = utf8_C3 181"
definition e_acute :: string where "e_acute = utf8_C3 169"
definition o_acute :: string where "o_acute = utf8_C3 179"

definition blocked_names :: "string list" where
  "blocked_names = [''localhost'', ''127.0.0.1'', ''::1'']"

text \<open>The first address that is refused decides.\<close>

fun check_ips :: "probe_world \<Rightarrow> ip_addr list \<Rightarrow> string option" where
  "check_ips w [] = None"
| "check_ips w (ip # ips) =
     (let s = ip_string (pw_text6 w) ip
      in if s = ''169.254.169.254'' then
           Some (''acesso ao servi'' @ c_cedilla @ ''o de metadados cloud (169.254.169.254) estritamente bloqueado'')
         else if is_loopback ip \<and> \<not> pw_allow_local w then
           Some (''endere'' @ c_cedilla @ ''o IP loopback ('' @ s @ '') bloqueado por seguran'' @ c_cedilla @ ''a'')
         else if is_multicast ip \<or> is_unspecified ip then
           Some (''endere'' @ c_cedilla @ ''o IP inv'' @ a_acute @ ''lido ou n'' @ a_tilde @
                 ''o rote'' @ a_acute @ ''vel ('' @ s @ '')'')
         else check_ips w ips)"

definition resolve :: "probe_world \<Rightarrow> string \<Rightarrow> ip_addr list option" where
  "resolve w host =
     (case pw_lookup w host of Some ips \<Rightarrow> Some ips
      | None \<Rightarrow> map_option (\<lambda>ip. [ip]) (pw_parse_ip w host))"

definition is_blocked_target :: "probe_world \<Rightarrow> string \<Rightarrow> string option" where
  "is_blocked_target w given =
     (let host = trim_space given
      in if host = [] then Some (''endere'' @ c_cedilla @ ''o de destino vazio'')
         else if list_ex (equal_fold host) blocked_names \<and> \<not> pw_allow_local w then
           Some (''requisi'' @ c_cedilla @ o_tilde @ ''es para localhost/loopback bloqueadas por pol'' @
                 i_acute @ ''tica de seguran'' @ c_cedilla @ ''a SSRF'')
         else
           (case resolve w host of
              None \<Rightarrow> Some (''falha ao resolver endere'' @ c_cedilla @ ''o IP de '' @ [CHR 0x27] @ host @ [CHR 0x27])
            | Some ips \<Rightarrow> check_ips w ips))"

definition blocked_response :: "string \<Rightarrow> probe_response" where
  "blocked_response e =
     no_response\<lparr>pr_error := ''Bloqueio de Seguran'' @ c_cedilla @ ''a: '' @ e\<rparr>"

text \<open>The probes go on only if the target passes.\<close>

definition guarded :: "probe_world \<Rightarrow> string \<Rightarrow> probe_result \<Rightarrow> probe_result" where
  "guarded w host go_on =
     (case is_blocked_target w host of Some e \<Rightarrow> (blocked_response e, [], []) | None \<Rightarrow> go_on)"

section \<open>RTMP\<close>

text \<open>\<^verbatim>\<open>fmt.Sscanf(p, "%d", &port)\<close> is only reached with a port.\<close>

definition port_of :: "url_parts \<Rightarrow> int \<Rightarrow> int" where
  "port_of u old = (if up_port u \<noteq> [] then sscanf_into old (up_port u) else old)"

definition join_host_port :: "string \<Rightarrow> int \<Rightarrow> string" where
  "join_host_port host port =
     (if CHR '':'' \<in> set host then ''['' @ host @ '']:'' @ int_str port else host @ '':'' @ int_str port)"

text \<open>The host and port of a request, from its URL if it gives no address.\<close>

definition given_target :: "probe_world \<Rightarrow> probe_request \<Rightarrow> string \<times> int" where
  "given_target w q =
     (if pq_ip q = [] \<and> pq_url q \<noteq> [] then
        (case pw_parse_url w (pq_url q) of
           Some u \<Rightarrow> (up_hostname u, port_of u (pq_port q))
         | None \<Rightarrow> (pq_ip q, pq_port q))
      else (pq_ip q, pq_port q))"

definition dial_rtmp :: "probe_world \<Rightarrow> string \<Rightarrow> int \<Rightarrow> probe_result" where
  "dial_rtmp w host port =
     (if \<not> pw_dial w (join_host_port host port) then
        (no_response\<lparr>pr_latency := pw_latency w,
           pr_error := ''Falha ao conectar na porta RTMP '' @ join_host_port host port @ '': servidor offline''\<rparr>,
         [Dialled host port], [])
      else
        (no_response\<lparr>pr_online := True, pr_latency := pw_latency w, pr_codec := ''H.264'',
           pr_resolution := ''1920x1080'', pr_fps := 30\<rparr>,
         [Dialled host port], []))"

definition probe_rtmp :: "probe_world \<Rightarrow> probe_request \<Rightarrow> probe_result" where
  "probe_rtmp w q =
     (let (host1, port1) = given_target w q;
          host = (if host1 = [] then ''127.0.0.1'' else host1)
      in guarded w host (dial_rtmp w host (if port1 \<le> 0 then 1935 else port1)))"

section \<open>Asking for a camera\<close>

text \<open>\<^verbatim>\<open>ProbeONVIFDevice\<close> of the service, with the adapter configured.\<close>

definition service_probe ::
  "soap_env \<Rightarrow> string \<Rightarrow> int \<Rightarrow> string \<Rightarrow> string \<Rightarrow> (go_error + onvif_device) \<times> writes" where
  "service_probe env ip port user pass =
     (if ip = [] then (Inl (ErrNew ''ip_address is required''), [])
      else probe_device env ip (if port \<le> 0 then 80 else port) user pass)"

definition common_ports :: "int list" where
  "common_ports = [80, 8080, 8899, 5000, 8000, 8001]"

definition scan_port ::
  "probe_world \<Rightarrow> string \<Rightarrow> string \<Rightarrow> string \<Rightarrow> int \<Rightarrow> onvif_device option \<times> contact list \<times> writes" where
  "scan_port w host user pass p =
     (if \<not> pw_dial w (join_host_port host p) then (None, [Dialled host p], [])
      else case service_probe (pw_soap w p) host p user pass of
             (Inl _, ws) \<Rightarrow> (None, [Dialled host p, Asked host p], ws)
           | (Inr d, ws) \<Rightarrow> (Some d, [Dialled host p, Asked host p], ws))"

text \<open>The first report with a device, in the order of \<open>pw_scan\<close>; the other scans go on and still write.\<close>

definition auto_scan ::
  "probe_world \<Rightarrow> string \<Rightarrow> string \<Rightarrow> string \<Rightarrow> onvif_device option \<times> contact list \<times> writes" where
  "auto_scan w host user pass =
     (if host = [] then (None, [], [])
      else
        let rs = map (scan_port w host user pass) (pw_scan w)
        in (case filter (\<lambda>r. fst r \<noteq> None) rs of [] \<Rightarrow> None | r # _ \<Rightarrow> fst r,
            concat (map (fst \<circ> snd) rs), concat (map (snd \<circ> snd) rs)))"

section \<open>What a capture says about the stream\<close>

definition rx_space :: "char \<Rightarrow> bool" where
  "rx_space c \<longleftrightarrow> of_char c \<in> {9, 10, 12, 13, 32 :: nat}"

definition word_char :: "char \<Rightarrow> bool" where
  "word_char c \<longleftrightarrow>
     (let n = (of_char c :: nat)
      in 97 \<le> n \<and> n \<le> 122 \<or> 65 \<le> n \<and> n \<le> 90 \<or> 48 \<le> n \<and> n \<le> 57 \<or> c = CHR ''_'' \<or> c = CHR ''-'')"

definition codec_rx :: rx where
  "codec_rx = Seq (Fold ''Video:'') (Seq (Many rx_space) (Group (Some_of word_char)))"

definition three_or_four :: rx where
  "three_or_four = Seq (Class is_digit) (Seq (Class is_digit) (Seq (Class is_digit) (Opt (Class is_digit))))"

definition size_rx :: rx where
  "size_rx = Seq (Group three_or_four) (Seq (Fold ''x'') (Group three_or_four))"

definition fps_rx :: rx where
  "fps_rx =
     Seq (Group (Seq (Some_of is_digit) (Opt (Seq (Byte CHR ''.'') (Some_of is_digit)))))
       (Seq (Many rx_space) (Alt (Fold ''fps'') (Fold ''tbr'')))"

definition codec_name :: "string \<Rightarrow> string" where
  "codec_name raw =
     (if str_contains raw ''h264'' \<or> str_contains raw ''avc'' then ''H.264''
      else if str_contains raw ''h265'' \<or> str_contains raw ''hevc'' then ''H.265 (HEVC)''
      else if str_contains raw ''mjpeg'' then ''MJPEG''
      else if str_contains raw ''mpeg4'' then ''MPEG-4''
      else to_upper raw)"

definition size_name :: "int \<Rightarrow> int \<Rightarrow> string" where
  "size_name w h =
     (if w = 1280 \<and> h = 720 then ''1280x720 HD''
      else if w = 1920 \<and> h = 1080 then ''1920x1080 Full HD''
      else if w = 2560 \<and> h = 1440 then ''2560x1440 2K''
      else if w = 3840 \<and> h = 2160 then ''3840x2160 4K UHD''
      else int_str w @ ''x'' @ int_str h)"

definition extract_media_info :: "string \<Rightarrow> string \<times> string \<times> int" where
  "extract_media_info out =
     ((case rx_find codec_rx out of Some (c # _, _) \<Rightarrow> codec_name (to_lower c) | _ \<Rightarrow> ''H.264''),
      (case rx_find size_rx out of
         Some (a # b # _, _) \<Rightarrow>
           if atoi_value a > 0 \<and> atoi_value b > 0 then size_name (atoi_value a) (atoi_value b)
           else ''1920x1080 Full HD''
       | _ \<Rightarrow> ''1920x1080 Full HD''),
      (case rx_find fps_rx out of
         Some (f # _, _) \<Rightarrow>
           (case parse_float f of
              Some x \<Rightarrow> if flt (Fin 0) x then f_to_i64 (fadd x (rnd (1 / 2))) else 30
            | None \<Rightarrow> 30)
       | _ \<Rightarrow> 30))"

definition detect_hardware_from_rtsp :: "string \<Rightarrow> string \<Rightarrow> string \<times> string" where
  "detect_hardware_from_rtsp target out =
     (let t = str_contains (to_lower target); o1 = str_contains (to_lower out)
      in if t ''/streaming/channels'' \<or> o1 ''hikvision'' \<or> o1 ''hik_'' then
           (''Hikvision'', ''IP Camera (Hikvision Protocol)'')
         else if t ''cam/realmonitor'' \<or> o1 ''dahua'' \<or> o1 ''intelbras'' then
           (''Intelbras / Dahua'', ''IP Camera (Dahua Protocol)'')
         else if t ''/stream1'' \<or> t ''/stream2'' \<or> o1 ''tapo'' \<or> o1 ''tp-link'' then
           (''TP-Link Tapo'', ''Tapo Smart Cam'')
         else if t ''/h264preview'' \<or> t ''/h265preview'' \<or> o1 ''reolink'' then
           (''Reolink'', ''Reolink IP Camera'')
         else if t ''axis-media'' \<or> o1 ''axis'' then (''Axis Communications'', ''Axis Network Camera'')
         else if o1 ''live555'' then (''Generic RTSP'', ''LIVE555 Streaming Server'')
         else (''Generic RTSP'', ''Network Video Device''))"

section \<open>RTSP\<close>

definition replace_all :: "string \<Rightarrow> string \<Rightarrow> string \<Rightarrow> string" where
  "replace_all s old new = join_str new (split_str s old)"

text \<open>The URL that is opened before the credentials are put in, and the host that is checked.\<close>

definition rtsp_target :: "probe_request \<Rightarrow> string" where
  "rtsp_target q =
     (if pq_url q = [] \<and> pq_ip q \<noteq> [] then
        ''rtsp://'' @ pq_ip q @ '':'' @ int_str (if pq_port q \<le> 0 then 554 else pq_port q) @ ''/live''
      else pq_url q)"

definition rtsp_host :: "probe_world \<Rightarrow> probe_request \<Rightarrow> string" where
  "rtsp_host w q =
     (if rtsp_target q = [] then pq_ip q
      else case pw_parse_url w (rtsp_target q) of
             Some u \<Rightarrow> if up_hostname u \<noteq> [] then up_hostname u else pq_ip q
           | None \<Rightarrow> pq_ip q)"

definition probe_login :: "probe_world \<Rightarrow> probe_request \<Rightarrow> string \<times> string" where
  "probe_login w q =
     (if pq_user q = [] \<and> rtsp_target q \<noteq> [] then
        (case Option.bind (pw_parse_url w (rtsp_target q)) up_user of
           Some up \<Rightarrow> up | None \<Rightarrow> (pq_user q, pq_pass q))
      else (pq_user q, pq_pass q))"

definition opened_url :: "probe_request \<Rightarrow> string" where
  "opened_url q =
     (let t = rtsp_target q;
          t1 = (if pq_user q \<noteq> [] \<and> \<not> str_contains t ''@''
                then replace_first t ''rtsp://'' (''rtsp://'' @ pq_user q @ '':'' @ pq_pass q @ ''@'') else t)
      in replace_all t1 ''%24'' ''$'')"

text \<open>The files a captured image is kept in.\<close>

definition keep_image :: "probe_request \<Rightarrow> string \<Rightarrow> writes" where
  "keep_image q img =
     (let sid = (if pq_stream_id q = [] then pq_camera_id q else pq_stream_id q)
      in (if sid \<noteq> [] then [(path_join [''samples'', path_base sid @ ''.jpg''], img)] else []) @
         [(path_join [''samples'', ''latest_probe.jpg''], img)])"

definition data_url :: "string \<Rightarrow> string" where
  "data_url img = jpeg_data @ b64_encode img"

definition with_device :: "onvif_device option \<Rightarrow> probe_response \<Rightarrow> probe_response" where
  "with_device dev p =
     (case dev of None \<Rightarrow> p
      | Some d \<Rightarrow>
          p\<lparr>pr_onvif := True, pr_onvif_port := od_port d,
            pr_manufacturer := (if pr_manufacturer p = [] then od_manufacturer d else pr_manufacturer p),
            pr_model := (if pr_model p = [] then od_model d else pr_model p),
            pr_firmware := od_firmware d, pr_serial := od_serial d\<rparr>)"

definition with_brand :: "string \<Rightarrow> string \<Rightarrow> probe_response \<Rightarrow> probe_response" where
  "with_brand url out p =
     (if pr_manufacturer p = [] then
        p\<lparr>pr_manufacturer := fst (detect_hardware_from_rtsp url out),
          pr_model := snd (detect_hardware_from_rtsp url out)\<rparr>
      else p)"

definition with_port :: "onvif_device option \<Rightarrow> bool \<Rightarrow> probe_response \<Rightarrow> probe_response" where
  "with_port dev with_url p =
     (case dev of None \<Rightarrow> p
      | Some d \<Rightarrow>
          let p1 = p\<lparr>pr_onvif := True, pr_onvif_port := od_port d\<rparr>
          in if with_url \<and> od_rtsp d \<noteq> [] then p1\<lparr>pr_rtsp := od_rtsp d\<rparr> else p1)"

definition rust_probed :: "probe_world \<Rightarrow> probe_request \<Rightarrow> onvif_device option \<Rightarrow> rust_probe \<Rightarrow> probe_response \<times> writes" where
  "rust_probed w q dev r =
     (let url = opened_url q;
          img = (case pw_rust_image w url of Some d \<Rightarrow> d | None \<Rightarrow> [])
      in (with_brand url []
            (with_device dev
              (no_response\<lparr>pr_online := True, pr_latency := ru_latency r, pr_codec := ru_codec r,
                 pr_resolution := ru_resolution r, pr_fps := ru_fps r,
                 pr_snapshot := (if img = [] then [] else data_url img), pr_rtsp := url\<rparr>)),
          if img = [] then [] else keep_image q img))"

definition captured :: "probe_world \<Rightarrow> probe_request \<Rightarrow> onvif_device option \<Rightarrow> string \<Rightarrow> string \<Rightarrow> probe_response \<times> writes" where
  "captured w q dev out img =
     (let url = opened_url q; (codec, res, fps) = extract_media_info out
      in (with_brand url out
            (with_device dev
              (no_response\<lparr>pr_online := True, pr_latency := pw_latency w, pr_codec := codec,
                 pr_resolution := res, pr_fps := fps, pr_snapshot := data_url img, pr_rtsp := url\<rparr>)),
          keep_image q img))"

definition capture_failed :: "probe_world \<Rightarrow> onvif_device option \<Rightarrow> string \<Rightarrow> string \<Rightarrow> probe_response" where
  "capture_failed w dev host out =
     (let low = to_lower out; base = no_response\<lparr>pr_latency := pw_latency w\<rparr>
      in if str_contains out ''401'' \<or> str_contains low ''unauthorized'' \<or> str_contains out ''Authentication'' then
           with_port dev False
             (base\<lparr>pr_online := True, pr_auth_required := True, pr_codec := ''H.264'',
                pr_resolution := ''1920x1080'', pr_fps := 30,
                pr_error := ''Autentica'' @ c_cedilla @ a_tilde @ ''o RTSP necess'' @ a_acute @
                  ''ria (401 Unauthorized). Verifique usu'' @ a_acute @ ''rio e senha.''\<rparr>)
         else if str_contains out ''404'' \<or> str_contains low ''not found'' then
           with_port dev True
             (base\<lparr>pr_error := ''Caminho do fluxo RTSP n'' @ a_tilde @ ''o encontrado (404 Not Found)''\<rparr>)
         else
           with_port dev True
             (base\<lparr>pr_error := ''Falha ao conectar via RTSP com '' @ host @ '' (timeout ou stream offline)''\<rparr>))"

definition ffmpeg_capture ::
  "probe_world \<Rightarrow> probe_request \<Rightarrow> string \<Rightarrow> onvif_device option \<Rightarrow> probe_response \<times> writes" where
  "ffmpeg_capture w q host dev =
     (case pw_ffmpeg w (opened_url q) of
        (ok, out, file) \<Rightarrow>
          (case file of
             Some img \<Rightarrow>
               if ok \<and> img \<noteq> [] then captured w q dev out img else (capture_failed w dev host out, [])
           | None \<Rightarrow> (capture_failed w dev host out, [])))"

definition rtsp_capture ::
  "probe_world \<Rightarrow> probe_request \<Rightarrow> string \<Rightarrow> onvif_device option \<Rightarrow> probe_response \<times> writes" where
  "rtsp_capture w q host dev =
     (case pw_rust w (opened_url q) of
        Some r \<Rightarrow> if ru_online r then rust_probed w q dev r else ffmpeg_capture w q host dev
      | None \<Rightarrow> ffmpeg_capture w q host dev)"

definition scan_and_capture :: "probe_world \<Rightarrow> probe_request \<Rightarrow> string \<Rightarrow> probe_result" where
  "scan_and_capture w q host =
     (let (user, pass) = probe_login w q;
          (dev, asked, ws1) = auto_scan w host user pass;
          (resp, ws2) = rtsp_capture w q host (if pw_scan_in_time w then dev else None)
      in (resp, asked @ [Opened (opened_url q)], ws1 @ ws2))"

definition probe_rtsp :: "probe_world \<Rightarrow> probe_request \<Rightarrow> probe_result" where
  "probe_rtsp w q =
     (let host = rtsp_host w q
      in if host = [] then
           (no_response\<lparr>pr_error := ''Endere'' @ c_cedilla @ ''o IP ou URL RTSP inv'' @ a_acute @ ''lida''\<rparr>, [], [])
         else guarded w host (scan_and_capture w q host))"

section \<open>ONVIF\<close>

definition profile_codec :: "string \<Rightarrow> string" where
  "profile_codec enc =
     (if enc = [] then ''H.264''
      else if to_upper enc \<in> {''H264'', ''H.264''} then ''H.264''
      else if to_upper enc \<in> {''H265'', ''H.265'', ''HEVC''} then ''H.265 (HEVC)''
      else enc)"

definition main_profile :: "onvif_device \<Rightarrow> string \<times> string \<times> int" where
  "main_profile d =
     (case od_profiles d of
        [] \<Rightarrow> (''H.264'', ''1920x1080 Full HD'', 30)
      | p # _ \<Rightarrow>
          (profile_codec (op_encoding p),
           if op_width p > 0 \<and> op_height p > 0 then size_name (op_width p) (op_height p)
           else ''1920x1080 Full HD'',
           if op_fps p > 0 then op_fps p else 30))"

text \<open>The image of the device is kept under its id and twice under its address.\<close>

definition keep_device_image :: "string \<Rightarrow> onvif_device \<Rightarrow> writes" where
  "keep_device_image ip d =
     (if has_prefix (od_snapshot d) jpeg_data then
        (case b64_decode (trim_prefix (od_snapshot d) jpeg_data) of
           None \<Rightarrow> []
         | Some img \<Rightarrow>
             if img = [] then []
             else [(''samples/'' @ od_id d @ ''.jpg'', img), (''samples/cam_'' @ clean_ip ip @ ''.jpg'', img),
                   (''samples/'' @ clean_ip ip @ ''.jpg'', img)])
      else [])"

definition ask_camera :: "probe_world \<Rightarrow> probe_request \<Rightarrow> string \<Rightarrow> int \<Rightarrow> probe_result" where
  "ask_camera w q ip port =
     (case service_probe (pw_soap w port) ip port (pq_user q) (pq_pass q) of
        (Inl e, ws) \<Rightarrow>
          (no_response\<lparr>pr_latency := pw_latency w,
             pr_error := ''Falha na comunica'' @ c_cedilla @ a_tilde @ ''o ONVIF com '' @ ip @ '':'' @
               int_str port @ '': '' @ error_text e\<rparr>, [Asked ip port], ws)
      | (Inr d, ws) \<Rightarrow>
          let (codec, res, fps) = main_profile d
          in (no_response\<lparr>pr_online := True, pr_latency := pw_latency w, pr_codec := codec,
                pr_resolution := res, pr_fps := fps, pr_snapshot := od_snapshot d,
                pr_manufacturer := od_manufacturer d, pr_model := od_model d,
                pr_firmware := od_firmware d, pr_serial := od_serial d, pr_rtsp := od_rtsp d\<rparr>,
              [Asked ip port], ws @ keep_device_image ip d))"

definition probe_onvif :: "probe_world \<Rightarrow> probe_request \<Rightarrow> probe_result" where
  "probe_onvif w q =
     (let (ip, port1) = given_target w q
      in if ip = [] then
           (no_response\<lparr>pr_error := ''Endere'' @ c_cedilla @ ''o IP ou URL '' @ e_acute @
              '' obrigat'' @ o_acute @ ''rio para probe ONVIF''\<rparr>, [], [])
         else guarded w ip (ask_camera w q ip (if port1 \<le> 0 then 80 else port1)))"

section \<open>Sample files\<close>

definition sample_dirs :: "string list" where
  "sample_dirs = [''samples'', ''/home/hades/Documents/HydraStream/samples'']"

definition video_file :: "string \<Rightarrow> bool" where
  "video_file n \<longleftrightarrow> has_suffix n ''.mp4'' \<or> has_suffix n ''.mkv'' \<or> has_suffix n ''.avi''"

text \<open>The name and the size in the output of \<^verbatim>\<open>ffprobe\<close>.\<close>

definition ffprobe_info :: "string option \<Rightarrow> string \<times> string" where
  "ffprobe_info out =
     (case out of
        None \<Rightarrow> (''H.264'', ''1920x1080 Full HD'')
      | Some text \<Rightarrow>
          let parts = split_char CHR '','' (trim_space text); c = parts ! 0
          in (if c = [] then ''H.264''
              else if str_contains (to_lower c) ''hevc'' \<or> str_contains (to_lower c) ''265'' then ''H.265 (HEVC)''
              else to_upper c,
              if length parts \<ge> 3 \<and> parts ! 1 \<noteq> [] \<and> parts ! 2 \<noteq> [] then parts ! 1 @ ''x'' @ parts ! 2
              else ''1920x1080 Full HD''))"

definition probe_loop_file :: "probe_world \<Rightarrow> probe_request \<Rightarrow> probe_result" where
  "probe_loop_file w q =
     (let raw1 = trim_prefix (pq_url q) ''file://'';
          raw = (if raw1 = [] then pq_ip q else raw1);
          base = path_base raw
      in if raw = [] then
           (no_response\<lparr>pr_error := ''Caminho do arquivo de v'' @ i_acute @ ''deo '' @ e_acute @
              '' obrigat'' @ o_acute @ ''rio''\<rparr>, [], [])
         else if \<not> video_file base \<and> \<not> has_suffix base ''.jpg'' then
           (no_response\<lparr>pr_error := ''Extens'' @ a_tilde @ ''o de arquivo de m'' @ i_acute @ ''dia inv'' @
              a_acute @ ''lida''\<rparr>, [], [])
         else
           (case find (pw_is_file w) (map (\<lambda>d. path_clean (path_join [d, base])) sample_dirs) of
              None \<Rightarrow>
                (no_response\<lparr>pr_error := ''Arquivo n'' @ a_tilde @ ''o encontrado na pasta de amostras: '' @ base\<rparr>,
                 [], [])
            | Some path \<Rightarrow>
                let (codec, res) = ffprobe_info (pw_ffprobe w path);
                    img = (case pw_frame w path of Some d \<Rightarrow> d | None \<Rightarrow> [])
                in (no_response\<lparr>pr_online := True, pr_latency := pw_latency w, pr_codec := codec,
                      pr_resolution := res, pr_fps := 30,
                      pr_snapshot := (if img = [] then [] else data_url img),
                      pr_manufacturer := ''Hydra Video Loop'', pr_model := path_base path,
                      pr_rtsp := ''file://'' @ path\<rparr>, [Opened path], [])))"

text \<open>
  \<^verbatim>\<open>HandleListSamples\<close>: the names and paths of the videos in the first directory that has one. An
  entry is its name and whether it is a directory; a directory that cannot be read is \<open>None\<close>.
\<close>

definition dir_samples :: "(string \<times> bool) list option \<Rightarrow> (string \<times> string) list" where
  "dir_samples es =
     (case es of
        None \<Rightarrow> []
      | Some fs \<Rightarrow>
          map (\<lambda>(n, _). (n, path_join [''samples'', n])) (filter (\<lambda>(n, d). \<not> d \<and> video_file n) fs))"

fun list_samples :: "(string \<Rightarrow> (string \<times> bool) list option) \<Rightarrow> string list \<Rightarrow> (string \<times> string) list" where
  "list_samples read_dir [] = []"
| "list_samples read_dir (d # ds) =
     (if dir_samples (read_dir d) \<noteq> [] then dir_samples (read_dir d) else list_samples read_dir ds)"

section \<open>The endpoint\<close>

definition probe_stream :: "probe_world \<Rightarrow> probe_request \<Rightarrow> probe_result" where
  "probe_stream w q =
     (let p = to_lower (pq_protocol q)
      in if p = ''loop'' \<or> p = ''file'' then probe_loop_file w q
         else if p = ''onvif'' then probe_onvif w q
         else if p = ''rtmp'' then probe_rtmp w q
         else probe_rtsp w q)"

section \<open>Which hosts are contacted\<close>

definition acceptable :: "probe_world \<Rightarrow> ip_addr \<Rightarrow> bool" where
  "acceptable w ip \<longleftrightarrow>
     ip_string (pw_text6 w) ip \<noteq> ''169.254.169.254'' \<and> \<not> is_multicast ip \<and> \<not> is_unspecified ip \<and>
     (is_loopback ip \<longrightarrow> pw_allow_local w)"

lemma check_ips_None: "check_ips w ips = None \<longleftrightarrow> list_all (acceptable w) ips"
  by (induction ips) (auto simp: acceptable_def Let_def)

lemma not_blocked:
  assumes "is_blocked_target w host = None"
  shows "\<exists>ips. resolve w (trim_space host) = Some ips \<and> list_all (acceptable w) ips"
  using assms by (auto simp: is_blocked_target_def Let_def check_ips_None split: if_splits option.splits)

text \<open>The hosts a list of contacts talks to itself, not through a media program.\<close>

fun talks_to :: "contact \<Rightarrow> string option" where
  "talks_to (Dialled h p) = Some h"
| "talks_to (Asked h p) = Some h"
| "talks_to (Opened u) = None"

definition only_checked :: "probe_world \<Rightarrow> contact list \<Rightarrow> bool" where
  "only_checked w cs \<longleftrightarrow> (\<forall>c \<in> set cs. \<forall>h. talks_to c = Some h \<longrightarrow> is_blocked_target w h = None)"

lemma only_checked_Nil [simp]: "only_checked w []"
  by (simp add: only_checked_def)

lemma only_checked_Cons [simp]:
  "only_checked w (c # cs) \<longleftrightarrow> (\<forall>h. talks_to c = Some h \<longrightarrow> is_blocked_target w h = None) \<and> only_checked w cs"
  by (auto simp: only_checked_def)

lemma only_checked_append [simp]: "only_checked w (as @ bs) \<longleftrightarrow> only_checked w as \<and> only_checked w bs"
  by (auto simp: only_checked_def)

lemma scan_checked: "is_blocked_target w host = None \<Longrightarrow> only_checked w (fst (snd (auto_scan w host user pass)))"
  by (auto simp: auto_scan_def scan_port_def only_checked_def Let_def split: sum.splits prod.splits)

lemma guarded_checked:
  "(is_blocked_target w host = None \<Longrightarrow> only_checked w (fst (snd k))) \<Longrightarrow> only_checked w (fst (snd (guarded w host k)))"
  by (simp add: guarded_def split: option.split)

lemma rtmp_checked: "only_checked w (fst (snd (probe_rtmp w q)))"
  by (simp add: probe_rtmp_def Let_def case_prod_beta guarded_checked dial_rtmp_def)

lemma rtsp_checked: "only_checked w (fst (snd (probe_rtsp w q)))"
  using scan_checked [of w "rtsp_host w q"]
  by (simp add: probe_rtsp_def scan_and_capture_def Let_def case_prod_beta guarded_checked)

lemma onvif_checked: "only_checked w (fst (snd (probe_onvif w q)))"
  by (simp add: probe_onvif_def ask_camera_def Let_def case_prod_beta guarded_checked split: sum.split)

lemma loop_checked: "only_checked w (fst (snd (probe_loop_file w q)))"
  by (simp add: probe_loop_file_def Let_def case_prod_beta split: option.split)

section \<open>Which images are written\<close>

definition shows_image :: "string \<Rightarrow> writes \<Rightarrow> bool" where
  "shows_image url ws \<longleftrightarrow>
     url = [] \<and> ws = [] \<or> (\<exists>img. img \<noteq> [] \<and> url = data_url img \<and> (\<forall>(f, c) \<in> set ws. c = img))"

lemma shows_none [simp]: "shows_image [] []"
  by (simp add: shows_image_def)

lemma keep_snapshot_shows: "img \<noteq> [] \<Longrightarrow> shows_image (fst (keep_snapshot ip port img)) (snd (keep_snapshot ip port img))"
  by (auto simp: keep_snapshot_def shows_image_def data_url_def)

lemma soap_snapshot_shows: "shows_image (fst (soap_snapshot env ip port media user pass ps))
    (snd (soap_snapshot env ip port media user pass ps))"
  by (simp add: soap_snapshot_def keep_snapshot_shows split: list.split sum.split)

lemma frame_snapshot_shows: "shows_image (fst (frame_snapshot env ip port rtsp)) (snd (frame_snapshot env ip port rtsp))"
  by (simp add: frame_snapshot_def keep_snapshot_shows split: option.split)

lemma probe_device_shows:
  "case fst (probe_device env ip port user pass) of
     Inl e \<Rightarrow> snd (probe_device env ip port user pass) = []
   | Inr d \<Rightarrow> shows_image (od_snapshot d) (snd (probe_device env ip port user pass))"
  by (simp add: probe_device_def Let_def case_prod_beta soap_snapshot_shows frame_snapshot_shows split: sum.split)

lemma service_probe_shows:
  "service_probe env ip port user pass = (Inl e, ws) \<Longrightarrow> ws = []"
  "service_probe env ip port user pass = (Inr d, ws) \<Longrightarrow> shows_image (od_snapshot d) ws"
  using probe_device_shows [of env ip "if port \<le> 0 then 80 else port" user pass]
  by (auto simp: service_probe_def split: if_splits)

lemma trim_prefix_append: "trim_prefix (p @ s) p = s"
  by (simp add: trim_prefix_def has_prefix_def)

lemma keep_device_shows:
  assumes "shows_image (od_snapshot d) ws"
  shows "shows_image (od_snapshot d) (ws @ keep_device_image ip d)"
proof (cases "od_snapshot d = []")
  case True
  moreover have "\<not> has_prefix [] jpeg_data" by (simp add: has_prefix_def jpeg_data_def)
  ultimately show ?thesis
    using assms by (auto simp: keep_device_image_def shows_image_def data_url_def jpeg_data_def)
next
  case False
  then obtain img where img: "img \<noteq> []" "od_snapshot d = data_url img" "\<forall>(f, c) \<in> set ws. c = img"
    using assms by (auto simp: shows_image_def)
  have d: "b64_decode (trim_prefix (od_snapshot d) jpeg_data) = Some img"
    unfolding img(2) data_url_def trim_prefix_append by (rule b64_roundtrip)
  have "\<forall>(f, c) \<in> set (if P then (if img = [] then [] else [(x, img), (y, img), (z, img)]) else []). c = img"
    for P and x y z :: string by auto
  then have "\<forall>(f, c) \<in> set (keep_device_image ip d). c = img"
    unfolding keep_device_image_def d option.case .
  then have "\<forall>(f, c) \<in> set (ws @ keep_device_image ip d). c = img" using img(3) by auto
  then show ?thesis using img(1,2) unfolding shows_image_def by blast
qed

text \<open>
  The contract of the port \<^verbatim>\<open>ONVIFDiscoverer\<close> that its callers rely on: a probe that fails leaves no
  file, one that finds a device leaves files of the image it shows only.
\<close>

locale camera_prober =
  fixes asks :: "string \<Rightarrow> int \<Rightarrow> string \<Rightarrow> string \<Rightarrow> (go_error + onvif_device) \<times> writes"
  assumes failed: "asks ip port user pass = (Inl e, ws) \<Longrightarrow> ws = []"
    and found: "asks ip port user pass = (Inr d, ws) \<Longrightarrow> shows_image (od_snapshot d) ws"
begin

lemma kept: "asks ip port user pass = (Inr d, ws) \<Longrightarrow> shows_image (od_snapshot d) (ws @ keep_device_image i d)"
  by (rule keep_device_shows [OF found])

lemma shown_image:
  assumes "asks ip port user pass = (Inr d, ws)" and "b64_decode (trim_prefix (od_snapshot d) jpeg_data) = Some img"
    and "has_prefix (od_snapshot d) jpeg_data" and "(f, c) \<in> set ws"
  shows "c = img"
proof -
  obtain im where "od_snapshot d = data_url im" "\<forall>(f, c) \<in> set ws. c = im"
    using found [OF assms(1)] assms(4) by (auto simp: shows_image_def)
  then show ?thesis using assms(2,4) by (auto simp: data_url_def trim_prefix_append b64_roundtrip)
qed

end

interpretation soap: camera_prober "service_probe env" for env
  by unfold_locales (erule service_probe_shows)+

section \<open>Properties\<close>


text \<open>
  The guard can be passed with another address: if the URL of an RTSP probe does not parse or has no
  host (such as file:///etc/passwd), then the address given beside it is checked, and if that
  passes the media program opens the URL, with every %24 turned into a dollar sign.
\<close>

theorem rtsp_opens_unchecked_url:
  assumes "to_lower (pq_protocol q) = ''rtsp''" and "pq_url q \<noteq> []" and "pq_ip q \<noteq> []" and "pq_user q = []"
    and "\<And>u. pw_parse_url w (pq_url q) = Some u \<Longrightarrow> up_hostname u = []"
    and "is_blocked_target w (pq_ip q) = None" and "probe_stream w q = (resp, contacts, ws)"
  shows "Opened (replace_all (pq_url q) ''%24'' ''$'') \<in> set contacts"
proof -
  have t: "rtsp_target q = pq_url q" using assms(2) by (simp add: rtsp_target_def)
  have "rtsp_host w q = pq_ip q"
    using assms(2,5) by (simp add: rtsp_host_def t split: option.split)
  moreover have "opened_url q = replace_all (pq_url q) ''%24'' ''$''" using assms(4) by (simp add: opened_url_def t)
  moreover have "probe_stream w q = probe_rtsp w q" using assms(1) by (simp add: probe_stream_def)
  ultimately show ?thesis
    using assms(3,6,7) by (auto simp: probe_rtsp_def scan_and_capture_def guarded_def Let_def case_prod_beta)
qed

text \<open>
  An ONVIF probe writes the image it shows: every file it leaves, those of the adapter and those the
  handler decodes again from the answer, holds exactly the bytes of the image in the answer, and
  without an image nothing is written.
\<close>

theorem onvif_files_show_snapshot:
  assumes "probe_onvif w q = (resp, contacts, ws)"
  shows "pr_snapshot resp = [] \<and> ws = [] \<or>
    (\<exists>img. img \<noteq> [] \<and> pr_snapshot resp = jpeg_data @ b64_encode img \<and> (\<forall>(f, c) \<in> set ws. c = img))"
proof -
  have "shows_image (pr_snapshot (fst (ask_camera w q ip port))) (snd (snd (ask_camera w q ip port)))" for ip port
  proof -
    obtain r ws where sp: "service_probe (pw_soap w port) ip port (pq_user q) (pq_pass q) = (r, ws)" by fastforce
    show ?thesis
    proof (cases r)
      case (Inl e)
      then show ?thesis using soap.failed [OF sp [unfolded Inl]]
        by (simp add: ask_camera_def sp no_response_def)
    next
      case (Inr d)
      then show ?thesis using soap.kept [OF sp [unfolded Inr]]
        by (simp add: ask_camera_def sp case_prod_beta)
    qed
  qed
  then have "shows_image (pr_snapshot (fst (probe_onvif w q))) (snd (snd (probe_onvif w q)))"
    by (simp add: probe_onvif_def Let_def case_prod_beta guarded_def no_response_def blocked_response_def
        split: option.split)
  then show ?thesis using assms by (simp add: shows_image_def data_url_def)
qed

section \<open>Concrete probes\<close>

definition public_host :: string where
  "public_host = ''8.8.8.8''"

definition small_world :: probe_world where
  "small_world =
     \<lparr>pw_allow_local = False, pw_lookup = (\<lambda>h. if h = public_host then Some [[8, 8, 8, 8]] else None),
      pw_parse_ip = (\<lambda>h. None), pw_text6 = (\<lambda>ip. []),
      pw_parse_url = (\<lambda>u. Some \<lparr>up_scheme = ''file'', up_hostname = [], up_port = [], up_request_uri = u,
        up_user = None\<rparr>),
      pw_dial = (\<lambda>a. True), pw_soap = (\<lambda>p. silent_web), pw_scan = common_ports, pw_scan_in_time = True,
      pw_latency = 1, pw_rust = (\<lambda>u. None), pw_rust_image = (\<lambda>u. None),
      pw_ffmpeg = (\<lambda>u. (False, [], None)), pw_ffprobe = (\<lambda>u. None), pw_frame = (\<lambda>u. None),
      pw_is_file = (\<lambda>p. False)\<rparr>"

definition ask :: "string \<Rightarrow> string \<Rightarrow> string \<Rightarrow> probe_request" where
  "ask protocol url ip =
     \<lparr>pq_stream_id = [], pq_camera_id = [], pq_protocol = protocol, pq_url = url, pq_ip = ip, pq_port = 0,
      pq_user = [], pq_pass = []\<rparr>"

lemma public_passes: "is_blocked_target small_world public_host = None"
proof -
  have "trim_space public_host = public_host" "public_host \<noteq> []" unfolding public_host_def by code_simp+
  moreover have "\<not> list_ex (equal_fold public_host) blocked_names"
    unfolding public_host_def blocked_names_def by code_simp
  moreover have "resolve small_world public_host = Some [[8, 8, 8, 8]]"
    by (simp add: resolve_def small_world_def)
  moreover have "check_ips small_world [[8, 8, 8, 8]] = None"
  proof -
    have "ip4_text [8, 8, 8, 8] = ''8.8.8.8''" by code_simp
    moreover have "[8, 8, 8, 8] \<noteq> replicate 16 (0 :: 8 word)"
    proof
      assume "[8, 8, 8, 8] = replicate 16 (0 :: 8 word)"
      then have "length [8, 8, 8, 8 :: 8 word] = length (replicate 16 (0 :: 8 word))" by (rule arg_cong)
      then show False unfolding length_replicate by simp
    qed
    ultimately show ?thesis unfolding check_ips_None
      by (simp add: acceptable_def ip_string_def to4_def is_multicast_def is_unspecified_def is_loopback_def)
  qed
  ultimately show ?thesis by (simp add: is_blocked_target_def Let_def del: check_ips.simps)
qed


theorem rtsp_opens_unchecked_url_witness:
  "Opened ''file:///etc/passwd'' \<in> set (fst (snd (probe_stream small_world (ask ''RTSP'' ''file:///etc/passwd'' public_host))))"
proof -
  have "to_lower ''RTSP'' = ''rtsp''" "replace_all ''file:///etc/passwd'' ''%24'' ''$'' = ''file:///etc/passwd''"
    by code_simp+
  moreover obtain resp contacts ws where
    "probe_stream small_world (ask ''RTSP'' ''file:///etc/passwd'' public_host) = (resp, contacts, ws)"
    by (metis prod.collapse)
  ultimately show ?thesis
    using rtsp_opens_unchecked_url [of "ask ''RTSP'' ''file:///etc/passwd'' public_host" small_world resp contacts ws]
      public_passes by (simp add: ask_def small_world_def public_host_def)
qed

lemma guard_ignores_soap: "is_blocked_target (w\<lparr>pw_soap := f\<rparr>) host = is_blocked_target w host"
proof -
  have "check_ips (w\<lparr>pw_soap := f\<rparr>) ips = check_ips w ips" for ips by (induction ips) (simp_all add: Let_def)
  moreover have "resolve (w\<lparr>pw_soap := f\<rparr>) h = resolve w h" for h by (simp add: resolve_def split: option.split)
  ultimately show ?thesis by (simp add: is_blocked_target_def Let_def split: option.split)
qed

definition camera_world :: probe_world where
  "camera_world = small_world\<lparr>pw_soap := (\<lambda>p. silent_web\<lparr>se_frame := (\<lambda>u. Some ''J'')\<rparr>)\<rparr>"

theorem onvif_files_show_snapshot_witness:
  "snd (snd (probe_onvif camera_world (ask ''onvif'' [] public_host))) \<noteq> [] \<and>
   (\<exists>img. img \<noteq> [] \<and> pr_snapshot (fst (probe_onvif camera_world (ask ''onvif'' [] public_host))) =
      jpeg_data @ b64_encode img)"
proof -
  let ?env = "silent_web\<lparr>se_frame := (\<lambda>u. Some ''J'')\<rparr>"
  have "\<exists>b. se_call ?env k e a x = Inr b \<and> CHR ''<'' \<notin> set b" for k e a x by (simp add: silent_web_def)
  note no_soap = no_soap_answers [OF this]
  have "snd (service_probe ?env public_host 80 [] []) \<noteq> []"
    by (simp add: service_probe_def probe_device_def device_at_def no_soap Let_def case_prod_beta
        frame_snapshot_def soap_snapshot_def keep_snapshot_def default_rtsp_def public_host_def)
  moreover have "is_blocked_target camera_world public_host = None"
    using public_passes by (simp add: camera_world_def guard_ignores_soap)
  ultimately have "snd (snd (probe_onvif camera_world (ask ''onvif'' [] public_host))) \<noteq> []"
    by (simp add: probe_onvif_def given_target_def ask_def guarded_def ask_camera_def camera_world_def
        public_host_def case_prod_beta split: sum.split)
  then show ?thesis
    using onvif_files_show_snapshot [of camera_world "ask ''onvif'' [] public_host"] by (metis prod.collapse)
qed

end
