(* ===== verification/Snapshot.thy ===== *)
theory Snapshot
  imports Probe
begin

text \<open>
  \<^verbatim>\<open>stream_handler_snapshot.go\<close> of \<^verbatim>\<open>internal/adapters/primary/http\<close>: the current picture of a stream,
  from the files other programs keep writing, from a running reader, or from the camera. What is
  seen of the files is an argument, with a number for every look, since they change in between; the
  pictures written and the URLs opened are part of the result.
\<close>

section \<open>A frame of an MJPEG stream\<close>

definition soi :: string where "soi = map char_of [255, 216 :: nat]"
definition eoi :: string where "eoi = map char_of [255, 217 :: nat]"

definition frame_capacity :: nat where
  "frame_capacity = 512 * 1024"

text \<open>
  The reading loop of \<^verbatim>\<open>extractFrameFromLocalMJPEG\<close>: \<open>chunks\<close> are what the successive reads would
  return (the last one before an error or the end), \<open>buf\<close> what has been read and \<open>start\<close> the
  place of the start marker once it has been seen.
\<close>

fun frame_loop :: "nat \<Rightarrow> string \<Rightarrow> nat option \<Rightarrow> string list \<Rightarrow> string option" where
  "frame_loop cap buf start [] = None"
| "frame_loop cap buf start (c # cs) =
     (if cap \<le> length buf then None
      else
        let got = take (cap - length buf) c;
            buf' = buf @ got;
            start' = (if got \<noteq> [] \<and> start = None then str_index buf' soi else start)
        in case start' of
             None \<Rightarrow> frame_loop cap buf' None cs
           | Some i \<Rightarrow>
               (case (if got \<noteq> [] then str_index (drop (i + 2) buf') eoi else None) of
                  None \<Rightarrow> frame_loop cap buf' (Some i) cs
                | Some e \<Rightarrow> Some (take (e + 4) (drop i buf'))))"

definition extract_frame :: "string list \<Rightarrow> string option" where
  "extract_frame chunks = frame_loop frame_capacity [] None chunks"

text \<open>The specification: from the first start marker to the first end marker behind it.\<close>

definition first_frame :: "string \<Rightarrow> string option" where
  "first_frame s =
     (case str_index s soi of
        None \<Rightarrow> None
      | Some i \<Rightarrow>
          (case str_index (drop (i + 2) s) eoi of
             None \<Rightarrow> None
           | Some e \<Rightarrow> Some (take (e + 4) (drop i s))))"

section \<open>The standby picture\<close>

type_synonym rgba = "8 word \<times> 8 word \<times> 8 word \<times> 8 word"

definition standby_pixels :: "rgba list list" where
  "standby_pixels =
     map (\<lambda>y. map (\<lambda>x. if x mod 40 = 0 \<or> y mod 40 = 0 then (20, 28, 42, 255) else (11, 14, 20, 255))
       [0 ..< 640]) [0 ..< 360 :: nat]"

section \<open>Choosing the picture\<close>

text \<open>
  \<open>sx_look n f\<close> is what the \<open>n\<close>-th look at a file finds: its content and how long ago it was
  changed. \<open>sx_h264\<close> and \<open>sx_mjpeg\<close> say whether a bridge or a reader of the stream runs, \<open>sx_chunks\<close>
  is what the reader's stream sends, \<open>sx_capture\<close> the picture the Rust engine takes and \<open>sx_ffmpeg\<close>
  the success of a capture by \<^verbatim>\<open>ffmpeg\<close>.
\<close>

record snapshot_world =
  sx_database :: "string \<Rightarrow> bool"
  sx_query :: "string \<Rightarrow> string \<Rightarrow> string option"
  sx_look :: "nat \<Rightarrow> string \<Rightarrow> (string \<times> duration) option"
  sx_h264 :: bool
  sx_mjpeg :: bool
  sx_chunks :: "string list"
  sx_capture :: "string \<Rightarrow> string option"
  sx_ffmpeg :: "string \<Rightarrow> bool"
  sx_parse_url :: "string \<Rightarrow> url_parts option"
  sx_soap :: soap_env
  sx_jpeg :: "rgba list list \<Rightarrow> string"

definition camera_query :: "string \<Rightarrow> string" where
  "camera_query base =
     ''SELECT rtsp_url FROM cameras WHERE id = '' @ [CHR 0x27] @ base @ [CHR 0x27] @
     '' AND (is_active = 1 OR is_active IS NULL) LIMIT 1;''"

definition database_paths :: "string list" where
  "database_paths = [''../hydravms/hydravms.db'', ''hydravms.db'']"

text \<open>The first database that answers a query with something; \<open>there\<close> says which files exist.\<close>

fun first_url :: "(string \<Rightarrow> bool) \<Rightarrow> (string \<Rightarrow> string \<Rightarrow> string option) \<Rightarrow> string \<Rightarrow> string list \<Rightarrow> string" where
  "first_url there query q [] = []"
| "first_url there query q (db # dbs) =
     (if \<not> there db then first_url there query q dbs
      else case query db q of
             None \<Rightarrow> first_url there query q dbs
           | Some out \<Rightarrow> if trim_space out \<noteq> [] then trim_space out else first_url there query q dbs)"

definition database_url :: "snapshot_world \<Rightarrow> string \<Rightarrow> string" where
  "database_url x base = first_url (sx_database x) (sx_query x) (camera_query base) database_paths"

lemma no_database_url [simp]: "(\<And>db. \<not> there db) \<Longrightarrow> first_url there query q dbs = []"
  by (induction dbs) simp_all

definition sample_path :: "string \<Rightarrow> string" where
  "sample_path base = path_clean (path_join [''samples'', base @ ''.jpg''])"

definition latest_probe :: string where
  "latest_probe = path_join [''samples'', ''latest_probe.jpg'']"

definition is_real :: "string \<Rightarrow> bool" where
  "is_real img \<longleftrightarrow> length img > 20000"

text \<open>The file a bridge keeps writing, if one of four pairs of looks finds it fresh.\<close>

fun fresh_file :: "snapshot_world \<Rightarrow> string \<Rightarrow> nat list \<Rightarrow> string option" where
  "fresh_file x f [] = None"
| "fresh_file x f (k # ks) =
     (case sx_look x (2 * k) f of
        Some (_, age) \<Rightarrow>
          if age < 3 * second then
            (case sx_look x (2 * k + 1) f of
               Some (img, _) \<Rightarrow> if img \<noteq> [] then Some img else fresh_file x f ks
             | None \<Rightarrow> fresh_file x f ks)
          else fresh_file x f ks
      | None \<Rightarrow> fresh_file x f ks)"

definition bridge_picture :: "snapshot_world \<Rightarrow> string \<Rightarrow> string option" where
  "bridge_picture x f = (if sx_h264 x then fresh_file x f [0, 1, 2, 3] else None)"

definition reader_picture :: "snapshot_world \<Rightarrow> string option" where
  "reader_picture x =
     (if \<not> sx_mjpeg x then None
      else case extract_frame (sx_chunks x) of
             Some img \<Rightarrow> if img \<noteq> [] then Some img else None | None \<Rightarrow> None)"

text \<open>The file as it is, if it holds a real picture at both looks.\<close>

definition cached_picture :: "snapshot_world \<Rightarrow> bool \<Rightarrow> string \<Rightarrow> string option" where
  "cached_picture x refresh f =
     (if refresh then None
      else case sx_look x 8 f of
             Some (img, _) \<Rightarrow>
               if is_real img then
                 (case sx_look x 9 f of Some (data, _) \<Rightarrow> if data \<noteq> [] then Some data else None | None \<Rightarrow> None)
               else None
           | None \<Rightarrow> None)"

text \<open>Without a real picture, that of the last probe if it is at most two minutes old.\<close>

definition probe_picture :: "snapshot_world \<Rightarrow> string \<Rightarrow> string option" where
  "probe_picture x f =
     (if case sx_look x 10 f of None \<Rightarrow> True | Some (img, _) \<Rightarrow> \<not> is_real img then
        (case sx_look x 11 latest_probe of
           Some (img, _) \<Rightarrow>
             if is_real img then
               (case sx_look x 12 latest_probe of
                  Some (_, age) \<Rightarrow> if age < 120 * second then Some img else None
                | None \<Rightarrow> None)
             else None
         | None \<Rightarrow> None)
      else None)"

definition engine_may_capture :: "string \<Rightarrow> bool" where
  "engine_may_capture url \<longleftrightarrow>
     has_prefix (to_lower url) ''rtsp://'' \<and> \<not> str_contains url ''localhost:'' \<and> \<not> str_contains url ''127.0.0.1:''"

definition engine_picture :: "snapshot_world \<Rightarrow> string \<Rightarrow> string option" where
  "engine_picture x url =
     (if engine_may_capture url then
        (case sx_capture x url of Some img \<Rightarrow> if is_real img then Some img else None | None \<Rightarrow> None)
      else None)"

definition urls_to_try :: "string \<Rightarrow> string \<Rightarrow> string list" where
  "urls_to_try base url =
     (if str_contains url ''localhost:8554'' then [] else [url]) @
     [''rtsp://localhost:8554/'' @ base @ ''_sub'', ''rtsp://localhost:8554/'' @ base]"

text \<open>The first URL \<^verbatim>\<open>ffmpeg\<close> makes a real picture of, and the URLs it opens until then.\<close>

fun ffmpeg_picture :: "snapshot_world \<Rightarrow> nat \<Rightarrow> string \<Rightarrow> string list \<Rightarrow> string option \<times> string list" where
  "ffmpeg_picture x k f [] = (None, [])"
| "ffmpeg_picture x k f (u # us) =
     (case (if sx_ffmpeg x u then sx_look x k f else None) of
        Some (img, _) \<Rightarrow>
          if is_real img then (Some img, [u])
          else let (r, opened) = ffmpeg_picture x (Suc k) f us in (r, u # opened)
      | None \<Rightarrow> let (r, opened) = ffmpeg_picture x (Suc k) f us in (r, u # opened))"

definition left_picture :: "snapshot_world \<Rightarrow> string \<Rightarrow> string option" where
  "left_picture x f =
     (case sx_look x 16 f of Some (img, _) \<Rightarrow> if is_real img then Some img else None | None \<Rightarrow> None)"

text \<open>Asking the camera itself: the picture, and the files the adapter writes meanwhile.\<close>

definition camera_host :: "snapshot_world \<Rightarrow> string \<Rightarrow> (string \<times> string \<times> string) option" where
  "camera_host x url =
     (case sx_parse_url x url of
        None \<Rightarrow> None
      | Some u \<Rightarrow>
          if up_hostname u = [] \<or> up_hostname u = ''127.0.0.1'' \<or> up_hostname u = ''localhost'' then None
          else (case up_user u of Some (n, p) \<Rightarrow> Some (up_hostname u, n, p)
                | None \<Rightarrow> Some (up_hostname u, [], [])))"

definition camera_picture :: "snapshot_world \<Rightarrow> string \<Rightarrow> string option \<times> writes" where
  "camera_picture x url =
     (case camera_host x url of
        None \<Rightarrow> (None, [])
      | Some (host, user, pass) \<Rightarrow>
          (case service_probe (sx_soap x) host 80 user pass of
             (Inl _, ws) \<Rightarrow> (None, ws)
           | (Inr d, ws) \<Rightarrow>
               (if has_prefix (od_snapshot d) jpeg_data then
                  (case b64_decode (trim_prefix (od_snapshot d) jpeg_data) of
                     Some img \<Rightarrow> if is_real img then Some img else None | None \<Rightarrow> None)
                else None, ws)))"

definition standby :: "snapshot_world \<Rightarrow> string" where
  "standby x = sx_jpeg x standby_pixels"

text \<open>The last resorts: the camera, or the standby picture. Whatever is sent is also written.\<close>

definition last_resort :: "snapshot_world \<Rightarrow> string \<Rightarrow> string \<Rightarrow> string \<times> writes" where
  "last_resort x f url =
     (case camera_picture x url of
        (Some img, ws) \<Rightarrow> (img, ws @ [(f, img)])
      | (None, ws) \<Rightarrow> (standby x, ws @ [(f, standby x)]))"

definition is_asked :: "snapshot_world \<Rightarrow> string \<Rightarrow> contact list" where
  "is_asked x url = (case camera_host x url of Some (h, _) \<Rightarrow> [Asked h 80] | None \<Rightarrow> [])"

text \<open>
  The picture of a stream with a source: the picture, the contacts and the files written, by the
  server or by the program that took the picture.
\<close>

definition take_picture :: "snapshot_world \<Rightarrow> bool \<Rightarrow> string \<Rightarrow> string \<Rightarrow> string \<times> contact list \<times> writes" where
  "take_picture x refresh base url =
     (let f = sample_path base
      in case bridge_picture x f of
           Some img \<Rightarrow> (img, [], [])
         | None \<Rightarrow>
        (case reader_picture x of
           Some img \<Rightarrow> (img, [], [(f, img)])
         | None \<Rightarrow>
        (case cached_picture x refresh f of
           Some img \<Rightarrow> (img, [], [])
         | None \<Rightarrow>
        (case probe_picture x f of
           Some img \<Rightarrow> (img, [], [(f, img)])
         | None \<Rightarrow>
             let engine = (if engine_may_capture url then [Opened url] else [])
             in case engine_picture x url of
                  Some img \<Rightarrow> (img, engine, [(f, img)])
                | None \<Rightarrow>
                    let (shot, opened) = ffmpeg_picture x 13 f (urls_to_try base url);
                        tried = engine @ map Opened opened
                    in case shot of
                         Some img \<Rightarrow> (img, tried, [(f, img)])
                       | None \<Rightarrow>
                           (case left_picture x f of
                              Some img \<Rightarrow> (img, tried, [])
                            | None \<Rightarrow>
                                let (img, ws) = last_resort x f url
                                in (img, tried @ is_asked x url, ws))))))"

text \<open>A world in which nothing can be seen.\<close>

definition dark_world :: snapshot_world where
  "dark_world =
     \<lparr>sx_database = (\<lambda>d. False), sx_query = (\<lambda>d q. None), sx_look = (\<lambda>k f. None), sx_h264 = False,
      sx_mjpeg = False, sx_chunks = [], sx_capture = (\<lambda>u. None), sx_ffmpeg = (\<lambda>u. False),
      sx_parse_url = (\<lambda>u. None), sx_soap = silent_web, sx_jpeg = (\<lambda>p. ''grey'')\<rparr>"

section \<open>Chunks do not matter\<close>

lemma has_prefix_grows: "has_prefix p sub \<Longrightarrow> has_prefix (p @ q) sub"
  by (auto simp: has_prefix_iff)

lemma no_late_prefix: "\<not> has_prefix p sub \<Longrightarrow> length sub \<le> length p \<Longrightarrow> \<not> has_prefix (p @ q) sub"
  by (auto simp: has_prefix_def)

lemma str_index_grows: "str_index p sub = Some i \<Longrightarrow> str_index (p @ q) sub = Some i"
proof (induction p arbitrary: i)
  case Nil
  then show ?case by (cases q) (auto simp: has_prefix_def split: if_splits)
next
  case (Cons c p)
  show ?case
  proof (cases "has_prefix (c # p) sub")
    case True
    then show ?thesis using Cons.prems has_prefix_grows [OF True, of q] by simp
  next
    case False
    then obtain k where k: "str_index p sub = Some k" "i = Suc k" using Cons.prems by auto
    then have "length sub \<le> length (c # p)" using str_index_bound [OF k(1)] by simp
    then have "\<not> has_prefix (c # (p @ q)) sub" using no_late_prefix [OF False] by simp
    then show ?thesis using Cons.IH [OF k(1)] k(2) by simp
  qed
qed

lemma markers: "length soi = 2" "length eoi = 2" "soi \<noteq> []"
  by (simp_all add: soi_def eoi_def)

lemma first_frame_grows:
  assumes "first_frame s = Some f"
  shows "first_frame (s @ t) = Some f"
proof -
  obtain i e where i: "str_index s soi = Some i" "str_index (drop (i + 2) s) eoi = Some e"
    "f = take (e + 4) (drop i s)"
    using assms by (auto simp: first_frame_def split: option.splits)
  have b: "i + 2 \<le> length s" "e + 2 \<le> length s - (i + 2)"
    using str_index_bound [OF i(1)] str_index_bound [OF i(2)] by (simp_all add: markers)
  have "str_index (drop (i + 2) (s @ t)) eoi = Some e"
    using str_index_grows [OF i(2)] b(1) by simp
  moreover have "take (e + 4) (drop i (s @ t)) = f" using b i(3) by simp
  ultimately show ?thesis using str_index_grows [OF i(1)] by (simp add: first_frame_def)
qed

lemma frame_loop_first:
  "start = str_index buf soi \<Longrightarrow> first_frame buf = None \<Longrightarrow> length buf \<le> cap \<Longrightarrow>
   frame_loop cap buf start chunks = first_frame (take cap (buf @ concat chunks))"
proof (induction chunks arbitrary: buf start)
  case (Cons c cs)
  show ?case
  proof (cases "cap \<le> length buf")
    case False
    define got where "got = take (cap - length buf) c"
    define buf' where "buf' = buf @ got"
    have full: "take cap (buf @ concat (c # cs)) = take cap (buf' @ concat cs)"
      using False by (cases "length c \<le> cap - length buf") (simp_all add: buf'_def got_def)
    have len: "length buf' \<le> cap" using False by (simp add: buf'_def got_def)
    define start' where "start' = (if got \<noteq> [] \<and> start = None then str_index buf' soi else start)"
    have start: "start' = str_index buf' soi"
      using Cons.prems(1) str_index_grows [of buf soi _ got]
      by (cases start) (auto simp: start'_def buf'_def)
    have step: "frame_loop cap buf start (c # cs) =
      (case start' of
         None \<Rightarrow> frame_loop cap buf' None cs
       | Some i \<Rightarrow>
           (case (if got \<noteq> [] then str_index (drop (i + 2) buf') eoi else None) of
              None \<Rightarrow> frame_loop cap buf' (Some i) cs
            | Some e \<Rightarrow> Some (take (e + 4) (drop i buf'))))"
      using False by (simp only: frame_loop.simps Let_def got_def buf'_def start'_def if_False)
    show ?thesis
    proof (cases "first_frame buf'")
      case None
      note no_frame = None
      have "frame_loop cap buf start (c # cs) = frame_loop cap buf' start' cs"
      proof (cases start')
        case None
        then show ?thesis using step by simp
      next
        case (Some i)
        then have "str_index (drop (i + 2) buf') eoi = None"
          using start no_frame by (auto simp: first_frame_def split: option.splits)
        then show ?thesis using step Some by simp
      qed
      then show ?thesis using Cons.IH [OF start None len] full by simp
    next
      case (Some f)
      then obtain i e where i: "start' = Some i" "str_index (drop (i + 2) buf') eoi = Some e"
        "f = take (e + 4) (drop i buf')"
        using start by (auto simp: first_frame_def split: option.splits)
      have "got \<noteq> []" using Some Cons.prems(2) by (auto simp: buf'_def)
      then have "frame_loop cap buf start (c # cs) = Some f"
        using step i by simp
      moreover have "first_frame (take cap (buf' @ concat cs)) = Some f"
        using first_frame_grows [OF Some] len by simp
      ultimately show ?thesis using full by simp
    qed
  qed (use Cons.prems in simp)
qed simp

section \<open>What is left on disk\<close>

text \<open>An image of the camera that is shown is the one its adapter wrote.\<close>

lemma camera_picture_writes:
  "camera_picture x url = (Some img, ws) \<Longrightarrow> (f, c) \<in> set ws \<Longrightarrow> c = img"
  by (auto simp: camera_picture_def dest: soap.shown_image
      split: option.splits prod.splits sum.splits if_splits)

lemma last_resort_writes:
  "snd (last_resort x f url) \<noteq> [] \<and> last (snd (last_resort x f url)) = (f, fst (last_resort x f url))"
  by (simp add: last_resort_def split: prod.split option.split)

section \<open>Properties\<close>

text \<open>
  C24: A frame does not depend on how the stream arrives: whatever the sizes of the chunks, the
  frame taken from the running reader is that from the first start marker to the first end marker
  behind it in the first 512 KiB of the stream, and there is none if they hold no such pair.
\<close>

theorem frame_ignores_chunks:
  "extract_frame chunks = first_frame (take frame_capacity (concat chunks))"
  unfolding extract_frame_def
  using frame_loop_first [of None "[]" frame_capacity chunks] markers(3) by (simp add: first_frame_def)

text \<open>
  C31: The picture shown is the picture kept: whichever way a picture is found, nothing is written, or the
  last file written is that of the stream and holds exactly the picture that is sent; if the way is
  the camera's own picture, every other file written on it holds that picture too.
\<close>

theorem picture_sent_is_kept:
  assumes "take_picture x refresh base url = (img, contacts, ws)"
  shows "(ws = [] \<or> last ws = (sample_path base, img)) \<and> (\<forall>(f, c) \<in> set ws. c = img \<or> img = standby x)"
proof -
  let ?f = "sample_path base"
  have one: "(ws = [] \<or> last ws = (?f, img)) \<and> (\<forall>(f, c) \<in> set ws. c = img \<or> img = standby x)"
    if "ws = [] \<or> ws = [(?f, img)]" using that by auto
  have resort: "(ws = [] \<or> last ws = (?f, img)) \<and> (\<forall>(f, c) \<in> set ws. c = img \<or> img = standby x)"
    if "last_resort x ?f url = (img, ws)"
    using that camera_picture_writes [of x url]
    by (auto simp: last_resort_def split: prod.splits option.splits)
  have "(ws = [] \<or> ws = [(?f, img)]) \<or> last_resort x ?f url = (img, ws)"
    using assms unfolding take_picture_def
    by (auto simp: Let_def case_prod_beta split: option.splits)
  then show ?thesis using one resort by blast
qed

theorem picture_sent_is_kept_witness:
  "fst (take_picture dark_world False ''cam1'' []) = ''grey'' \<and>
   last (snd (snd (take_picture dark_world False ''cam1'' []))) = (sample_path ''cam1'', ''grey'')"
proof -
  have t: "last_resort dark_world f [] = (''grey'', [(f, ''grey'')])" for f
    by (simp add: last_resort_def camera_picture_def camera_host_def dark_world_def standby_def)
  have "bridge_picture dark_world f = None" "reader_picture dark_world = None"
    "cached_picture dark_world False f = None" "probe_picture dark_world f = None"
    "engine_picture dark_world [] = None" "fst (ffmpeg_picture dark_world k f us) = None"
    "left_picture dark_world f = None" for f k us
    by (induction us arbitrary: k) (simp_all add: bridge_picture_def reader_picture_def cached_picture_def
        probe_picture_def engine_picture_def left_picture_def dark_world_def case_prod_beta)
  then have "fst (take_picture dark_world False ''cam1'' []) = ''grey''"
    "snd (snd (take_picture dark_world False ''cam1'' [])) \<noteq> []"
    by (simp_all add: take_picture_def t Let_def case_prod_beta)
  then show ?thesis using picture_sent_is_kept by (metis prod.collapse)
qed

end
