(* ===== verification/Hardware.thy ===== *)
theory Hardware
  imports Gpu
begin

text \<open>
  \<^verbatim>\<open>GetCompleteHardwareTelemetry\<close> of \<^verbatim>\<open>internal/adapters/secondary/gpu/detector.go\<close> and the records of
  \<^verbatim>\<open>internal/domain/telemetry.go\<close> it fills: the host, the memory of the Go runtime, the GPU and the
  shared memory. What the machine reports is the record \<open>machine\<close>.
\<close>

section \<open>Records\<close>

record host_hardware =
  ho_hostname :: string
  ho_os :: string
  ho_arch :: string
  ho_cores :: int
  ho_goroutines :: int
  ho_total_ram :: float64
  ho_used_ram :: float64
  ho_ram_pct :: float64

record memory_telemetry =
  mt_alloc :: float64
  mt_total_alloc :: float64
  mt_sys :: float64
  mt_heap_alloc :: float64
  mt_heap_sys :: float64
  mt_num_gc :: "32 word"
  mt_gc_pause :: float64

record hardware_telemetry =
  hd_host :: host_hardware
  hd_memory :: memory_telemetry
  hd_gpu :: gpu_telemetry
  hd_shm :: shm_telemetry
  hd_timestamp :: gotime

text \<open>
  \<^verbatim>\<open>runtime.MemStats\<close>: the pauses of the last 256 collections are in an array that is reused in a
  circle.
\<close>

record mem_stats =
  ms_alloc :: "64 word"
  ms_total_alloc :: "64 word"
  ms_sys :: "64 word"
  ms_heap_alloc :: "64 word"
  ms_heap_sys :: "64 word"
  ms_num_gc :: "32 word"
  ms_pause_ns :: "64 word list"

record machine =
  ma_hostname :: string
  ma_os :: string
  ma_arch :: string
  ma_cores :: int
  ma_goroutines :: int
  ma_meminfo :: "string option"
  ma_mem_stats :: mem_stats
  ma_gpu_query :: "string option"
  ma_statfs :: "statfs option"

section \<open>The memory of the host\<close>

text \<open>
  \<^verbatim>\<open>fmt.Sscanf(line, "MemTotal: %f kB", &v)\<close>: the space of the format stands for one or more spaces,
  \<^verbatim>\<open>%f\<close> takes the longest beginning that looks like a number, and what follows is compared only
  after the variable is set. Of the notations for numbers the hexadecimal one and digits separated
  by underscores are left out; the kernel writes neither.
\<close>

definition sign_of :: "string \<Rightarrow> string" where
  "sign_of s = (if has_prefix s ''-'' \<or> has_prefix s ''+'' then take 1 s else [])"

definition exponent_token :: "string \<Rightarrow> string" where
  "exponent_token s =
     (if has_prefix (to_lower s) ''e'' then
        let r = tl s; sg = sign_of r
        in hd s # sg @ takeWhile is_digit (drop (length sg) r)
      else [])"

definition float_token :: "string \<Rightarrow> string" where
  "float_token s =
     (let sg = sign_of s;
          r = drop (length sg) s;
          whole = takeWhile is_digit r;
          r1 = dropWhile is_digit r;
          frac = (if has_prefix r1 ''.'' then CHR ''.'' # takeWhile is_digit (tl r1) else []);
          r2 = (if has_prefix r1 ''.'' then dropWhile is_digit (tl r1) else r1)
      in if has_prefix (to_lower s) ''nan'' then take 3 s
         else if has_prefix (to_lower r) ''inf'' then sg @ take 3 r
         else sg @ whole @ frac @ exponent_token r2)"

definition scan_float :: "string \<Rightarrow> string \<Rightarrow> float64 option" where
  "scan_float label line =
     (case drop (length label) line of
        [] \<Rightarrow> None
      | c # rest \<Rightarrow>
          if is_space c then parse_float (float_token (dropWhile is_space rest)) else None)"

definition set_scanned :: "float64 option \<Rightarrow> float64 \<Rightarrow> float64" where
  "set_scanned new old = (case new of None \<Rightarrow> old | Some x \<Rightarrow> x)"

text \<open>One line of \<^verbatim>\<open>/proc/meminfo\<close>; the pair is (total, available).\<close>

definition meminfo_line :: "string \<Rightarrow> float64 \<times> float64 \<Rightarrow> float64 \<times> float64" where
  "meminfo_line line kb =
     (if has_prefix line ''MemTotal:'' then
        (set_scanned (scan_float ''MemTotal:'' line) (fst kb), snd kb)
      else if has_prefix line ''MemAvailable:'' then
        (fst kb, set_scanned (scan_float ''MemAvailable:'' line) (snd kb))
      else kb)"

definition meminfo_kb :: "string \<Rightarrow> float64 \<times> float64" where
  "meminfo_kb content = fold meminfo_line (split_char newline content) (Fin 0, Fin 0)"

text \<open>Total and used memory in MB and the percentage in use.\<close>

definition ram_of_kb :: "float64 \<times> float64 \<Rightarrow> float64 \<times> float64 \<times> float64" where
  "ram_of_kb kb =
     (if flt (Fin 0) (fst kb) then
        let total = fround (fdiv (fst kb) (rnd 1024));
            used = fround (fdiv (fsub (fst kb) (snd kb)) (rnd 1024))
        in (total, used, one_decimal_pct (fdiv used total))
      else (Fin 0, Fin 0, Fin 0))"

definition host_ram :: "string option \<Rightarrow> float64 \<times> float64 \<times> float64" where
  "host_ram content =
     (case content of None \<Rightarrow> (Fin 0, Fin 0, Fin 0) | Some c \<Rightarrow> ram_of_kb (meminfo_kb c))"

definition host_hardware_of :: "machine \<Rightarrow> host_hardware" where
  "host_hardware_of m =
     (let (total, used, pct) = host_ram (ma_meminfo m)
      in \<lparr>ho_hostname = (if ma_hostname m = [] then ''localhost'' else ma_hostname m),
          ho_os = ma_os m, ho_arch = ma_arch m, ho_cores = ma_cores m,
          ho_goroutines = ma_goroutines m, ho_total_ram = total, ho_used_ram = used,
          ho_ram_pct = pct\<rparr>)"

section \<open>The memory of the runtime\<close>

definition tenth_mb :: "64 word \<Rightarrow> float64" where
  "tenth_mb w =
     fdiv (fround (fmul (fdiv (f_of_int (uint w)) (rnd (1024 * 1024))) (rnd 10))) (rnd 10)"

definition pause_ms :: "64 word \<Rightarrow> float64" where
  "pause_ms w = fdiv (fround (fmul (fdiv (f_of_int (uint w)) (rnd 1000000)) (rnd 100))) (rnd 100)"

text \<open>\<^verbatim>\<open>(m.NumGC+255)%256\<close>, in 32 bits.\<close>

definition pause_slot :: "32 word \<Rightarrow> nat" where
  "pause_slot n = unat ((n + 255) mod 256)"

definition memory_telemetry_of :: "mem_stats \<Rightarrow> memory_telemetry" where
  "memory_telemetry_of m =
     \<lparr>mt_alloc = tenth_mb (ms_alloc m), mt_total_alloc = tenth_mb (ms_total_alloc m),
      mt_sys = tenth_mb (ms_sys m), mt_heap_alloc = tenth_mb (ms_heap_alloc m),
      mt_heap_sys = tenth_mb (ms_heap_sys m), mt_num_gc = ms_num_gc m,
      mt_gc_pause = pause_ms (ms_pause_ns m ! pause_slot (ms_num_gc m))\<rparr>"

section \<open>The report\<close>

text \<open>The variant for Windows of \<^verbatim>\<open>GetSHMTelemetry\<close> (\<^verbatim>\<open>shm_windows.go\<close>) answers constants.\<close>

definition windows_shm_telemetry :: shm_telemetry where
  "windows_shm_telemetry =
     \<lparr>sh_mount = ''Windows SharedMemory'', sh_total = 4294967296, sh_used = 524288000,
      sh_free = 3770679296, sh_occupancy = rnd (122 / 10),
      sh_ring_status = ''ONLINE (Win32 Named Memory)'', sh_lock_free = True\<rparr>"

lemma windows_shm_adds_up:
  "sh_used windows_shm_telemetry + sh_free windows_shm_telemetry = sh_total windows_shm_telemetry"
  by (simp add: windows_shm_telemetry_def)

definition get_complete_hardware_telemetry :: "machine \<Rightarrow> gotime \<Rightarrow> hardware_telemetry" where
  "get_complete_hardware_telemetry m now =
     \<lparr>hd_host = host_hardware_of m, hd_memory = memory_telemetry_of (ma_mem_stats m),
      hd_gpu = gpu_query (ma_gpu_query m), hd_shm = get_shm_telemetry (ma_statfs m),
      hd_timestamp = now\<rparr>"

text \<open>
  \<^verbatim>\<open>encoding/json\<close> has no text for an infinity or a NaN: a report with one of them is not written at
  all (the handlers ignore the error).
\<close>

definition json_number :: "float64 \<Rightarrow> bool" where
  "json_number x \<longleftrightarrow> (case x of Fin a \<Rightarrow> True | _ \<Rightarrow> False)"

definition hardware_numbers :: "hardware_telemetry \<Rightarrow> float64 list" where
  "hardware_numbers h =
     [ho_total_ram (hd_host h), ho_used_ram (hd_host h), ho_ram_pct (hd_host h),
      mt_alloc (hd_memory h), mt_total_alloc (hd_memory h), mt_sys (hd_memory h),
      mt_heap_alloc (hd_memory h), mt_heap_sys (hd_memory h), mt_gc_pause (hd_memory h),
      gt_total (hd_gpu h), gt_used (hd_gpu h), gt_free (hd_gpu h), gt_vram_pct (hd_gpu h),
      gt_gpu_util (hd_gpu h), gt_mem_util (hd_gpu h), gt_temp (hd_gpu h), gt_power (hd_gpu h),
      sh_occupancy (hd_shm h)]"

definition hardware_writable :: "hardware_telemetry \<Rightarrow> bool" where
  "hardware_writable h \<longleftrightarrow> list_all json_number (hardware_numbers h)"

section \<open>The slot of the last pause\<close>

text \<open>
  The index into the array of 256 pauses never leaves it, whatever the 32-bit count of collections
  is, and after the first collection it is the slot of the latest one.
\<close>

theorem pause_slot_of_last_collection:
  "pause_slot n < 256 \<and> (pause_slot (n + 1) = unat n mod 256)"
proof
  have "unat ((n + 255) mod 256) = unat (n + 255) mod 256" by (simp add: unat_mod_distrib)
  then show "pause_slot n < 256" by (simp add: pause_slot_def)
  have "(n + 1) + 255 = n + 256" by simp
  then have "unat ((n + 1 + 255) mod 256) = ((256 + unat n) mod 2 ^ 32) mod 256"
    by (simp add: unat_mod_distrib unat_word_ariths)
  also have "\<dots> = (256 + unat n) mod 256" by (intro mod_mod_cancel) simp
  finally show "pause_slot (n + 1) = unat n mod 256" by (simp add: pause_slot_def)
qed

section \<open>The percentage of memory in use\<close>

lemma fround_mono: "a \<le> b \<Longrightarrow> 0 \<le> a \<Longrightarrow> of_int \<lfloor>a + 1 / 2\<rfloor> \<le> (of_int \<lfloor>b + 1 / 2\<rfloor> :: rat)"
  by (intro of_int_le_iff [THEN iffD2] floor_mono) simp

lemma rnd_upto:
  assumes "0 \<le> r" and "r \<le> b" and "rnd b = Fin b"
  shows "\<exists>a. rnd r = Fin a \<and> 0 \<le> a \<and> a \<le> b"
  using rnd_between [of 0 r b] assms by auto

text \<open>
  With a total of at least half a megabyte and no more memory available than there is, the report
  is consistent: what is in use is no more than the total and the percentage is from 0 to 100.
\<close>

theorem ram_percent_bounds:
  assumes "meminfo_kb content = (Fin t, Fin a)" and "512 \<le> t" and "t \<le> 2 ^ 52" and "0 \<le> a" and "a \<le> t"
    and "rnd t = Fin t"
  shows "\<exists>total used pct. host_ram (Some content) = (Fin total, Fin used, Fin pct) \<and>
    1 \<le> total \<and> 0 \<le> used \<and> used \<le> total \<and> 0 \<le> pct \<and> pct \<le> 100"
proof -
  obtain d where d: "rnd (t - a) = Fin d" "0 \<le> d" "d \<le> t"
    using rnd_upto [of "t - a" t] assms by auto
  have top: "rnd (2 ^ 52) = Fin (2 ^ 52)" by (rule rnd_repr [of _ 1 52]) (simp_all add: max_float_def)
  obtain q where q: "rnd (t / 1024) = Fin q" "0 \<le> q"
    using rnd_upto [of "t / 1024" "2 ^ 52"] assms top by auto
  have half: "rnd (1 / 2) = Fin (1 / 2)" by code_simp
  then have q1: "1 / 2 \<le> q" using rnd_mono [of "1 / 2" "t / 1024", OF _ half q(1)] assms(2) by simp
  obtain u where u: "rnd (d / 1024) = Fin u" "0 \<le> u"
    using rnd_upto [of "d / 1024" "2 ^ 52"] d assms(3) top by auto
  have uq: "u \<le> q" using rnd_mono [of "d / 1024" "t / 1024", OF _ u(1) q(1)] d(3) by simp
  define total where "total = (of_int \<lfloor>q + 1 / 2\<rfloor> :: rat)"
  define used where "used = (of_int \<lfloor>u + 1 / 2\<rfloor> :: rat)"
  have ut: "0 \<le> used" "used \<le> total" "1 \<le> total"
    using fround_mono [OF uq u(2)] u(2) q1 by (simp_all add: used_def total_def)
  have "fin_in 0 1 (fdiv (Fin used) (Fin total))" using ut by (auto intro!: fin_in_rnd)
  then have "fin_in 0 100 (one_decimal_pct (fdiv (Fin used) (Fin total)))" by (rule one_decimal_bounds)
  then obtain pct where pct: "one_decimal_pct (fdiv (Fin used) (Fin total)) = Fin pct" "0 \<le> pct" "pct \<le> 100"
    by (auto simp: fin_in_def)
  have "fsub (Fin t) (Fin a) = Fin d" using d(1) by (simp add: fsub_def)
  then have "host_ram (Some content) = (Fin total, Fin used, Fin pct)"
    using assms(1,2) q(1,2) u(1,2) pct(1)
    by (simp add: host_ram_def ram_of_kb_def Let_def total_def used_def)
  then show ?thesis using ut pct by blast
qed

lemma hardware_writable_ram: "hardware_writable h \<Longrightarrow> json_number (ho_ram_pct (hd_host h))"
  by (simp add: hardware_writable_def hardware_numbers_def)

text \<open>
  A machine that reports less than half a megabyte: the total is rounded to zero and then divided
  by, so the percentage is not a number and the whole report cannot be written.
\<close>

theorem tiny_memory_no_report:
  assumes "ma_meminfo m = Some content" and "meminfo_kb content = (Fin t, Fin a)"
    and "0 < t" and "t < 512" and "rnd (t / 1024) = Fin (t / 1024)"
  shows "\<not> hardware_writable (get_complete_hardware_telemetry m now)"
proof -
  have "\<lfloor>t / 1024 + 1 / 2\<rfloor> = 0" using assms(3,4) by (simp add: floor_eq_iff)
  then have z: "fround (fdiv (Fin t) (rnd 1024)) = Fin 0" using assms(3,5) by simp
  have "\<not> json_number (one_decimal_pct (fdiv x (Fin 0)))" for x
  proof (cases x)
    case (Fin b)
    then show ?thesis by (simp add: one_decimal_pct_def json_number_def)
  qed (simp_all add: one_decimal_pct_def json_number_def)
  then have "\<not> json_number (snd (snd (host_ram (Some content))))"
    using assms(2,3) z by (simp add: host_ram_def ram_of_kb_def Let_def)
  then have "\<not> json_number (ho_ram_pct (hd_host (get_complete_hardware_telemetry m now)))"
    by (simp add: get_complete_hardware_telemetry_def host_hardware_of_def assms(1) split_beta)
  then show ?thesis using hardware_writable_ram by blast
qed

section \<open>Concrete reports\<close>

definition sample_meminfo :: string where
  "sample_meminfo = ''MemTotal:        2048 kB'' @ [newline] @ ''MemFree: 7 kB'' @ [newline] @
     ''MemAvailable:   1024 kB'' @ [newline]"

lemmas parse_digits = parse_float_def has_prefix_def parse_unsigned_float_def Let_def is_digit_def
  digit_val_def to_lower_def lower_char_def parse_exponent_def decimal_value_def digits_val_def

lemma sample_meminfo_lines:
  "split_char newline sample_meminfo =
     [''MemTotal:        2048 kB'', ''MemFree: 7 kB'', ''MemAvailable:   1024 kB'', []]"
  by code_simp

lemma scanned_lines:
  "scan_float ''MemTotal:'' ''MemTotal:        2048 kB'' = parse_float ''2048''"
  "scan_float ''MemAvailable:'' ''MemAvailable:   1024 kB'' = parse_float ''1024''"
  "scan_float ''MemTotal:'' ''MemTotal: 256 kB'' = parse_float ''256''"
  by (simp_all add: scan_float_def is_space_def float_token_def Let_def sign_of_def has_prefix_def
      is_digit_def digit_val_def to_lower_def lower_char_def exponent_token_def)

lemma parsed_sizes:
  "parse_float ''2048'' = Some (Fin 2048)" "parse_float ''1024'' = Some (Fin 1024)"
  "parse_float ''256'' = Some (Fin 256)"
  by (simp_all add: parse_digits)

lemma sample_meminfo_kb: "meminfo_kb sample_meminfo = (Fin 2048, Fin 1024)"
  by (simp add: meminfo_kb_def sample_meminfo_lines meminfo_line_def has_prefix_def scanned_lines
      parsed_sizes set_scanned_def)

theorem ram_percent_bounds_witness:
  "\<exists>total used pct. host_ram (Some sample_meminfo) = (Fin total, Fin used, Fin pct) \<and>
     used \<le> total \<and> pct \<le> 100"
  using ram_percent_bounds [OF sample_meminfo_kb] by auto

definition tiny_meminfo :: string where
  "tiny_meminfo = ''MemTotal: 256 kB''"

definition sample_machine :: machine where
  "sample_machine =
     \<lparr>ma_hostname = ''edge-1'', ma_os = ''linux'', ma_arch = ''amd64'', ma_cores = 4, ma_goroutines = 9,
      ma_meminfo = Some tiny_meminfo,
      ma_mem_stats = \<lparr>ms_alloc = 0, ms_total_alloc = 0, ms_sys = 0, ms_heap_alloc = 0, ms_heap_sys = 0,
        ms_num_gc = 0, ms_pause_ns = replicate 256 0\<rparr>,
      ma_gpu_query = None, ma_statfs = None\<rparr>"

lemma tiny_meminfo_kb: "meminfo_kb tiny_meminfo = (Fin 256, Fin 0)"
proof -
  have "split_char newline tiny_meminfo = [''MemTotal: 256 kB'']" by code_simp
  then show ?thesis
    by (simp add: meminfo_kb_def meminfo_line_def has_prefix_def scanned_lines parsed_sizes set_scanned_def)
qed

theorem tiny_memory_no_report_witness:
  "\<not> hardware_writable (get_complete_hardware_telemetry sample_machine 0)"
proof -
  have "rnd (256 / 1024) = Fin (256 / 1024)" by code_simp
  then show ?thesis
    using tiny_memory_no_report [of sample_machine tiny_meminfo 256 0, OF _ tiny_meminfo_kb]
    by (simp add: sample_machine_def)
qed

end
