(* ===== verification/HttpBase.thy ===== *)
theory HttpBase
  imports Auth Whep Diagnostics Telemetry Snapshot Hardware
begin

text \<open>
  What the HTTP handlers of \<^verbatim>\<open>internal/adapters/primary/http\<close> share: what a handler can answer, the
  checks of ids and URLs, and the parts of the standard library the handlers decode requests with
  (JSON decoding, URL parsing, time parsing, multipart forms), which are arguments. Headers are
  not modelled except where a value of the domain is sent in one.
\<close>

section \<open>Answers\<close>

record publish_response =
  pb_stream_id :: string
  pb_status :: string
  pb_publish_url :: string
  pb_wsp_url :: string
  pb_shm_path :: string
  pb_fanout_mode :: string
  pb_created_at :: string

datatype answer =
    AStreams "stream list" int int int string
  | AStream stream
  | AIngest ingest_stats
  | AHealthy string
  | AAnomaly string app_error
  | ADiagnostics "app_error list"
  | AFragmentCreated fragment
  | AFragments string "fragment list"
  | AContent string fragment bytes
  | ASdp whep_answer
  | AWhepInfo "(string \<times> string) list"
  | APublished publish_response
  | AChaos chaos_result
  | ALogs log_query_result
  | AHealth system_health
  | AErrors error_summary
  | AUnified system_health hardware_telemetry error_summary
  | AHardware hardware_telemetry
  | APanel control_panel
  | ATopology cluster_topology
  | AInfo system_info
  | AProbe probe_response
  | ADevices "onvif_device list"
  | ADevice onvif_device
  | ASamples "(string \<times> string) list"
  | AImage string
  | AError app_error
  | AText string
  | ADescriptor "(string \<times> string) list" "(string \<times> string) list"
  | AEmpty

text \<open>
  An error of \<^verbatim>\<open>http.Error\<close> with its message, an answer, a call of one of the handlers that serve
  media and files (those do not touch the state of the service; the media bridges are theory
  MediaBridge), a panic that \<^verbatim>\<open>net/http\<close> recovers, or one that ends the program because it is in
  another goroutine.
\<close>

datatype handover =
    Mjpeg stream
  | H264Start string
  | H264Stop string
  | ServeFile string
  | Elsewhere string

datatype reply =
    Refused int string
  | Answered int answer
  | Handed handover
  | Aborted
  | Killed

fun reply_status :: "reply \<Rightarrow> int option" where
  "reply_status (Refused c m) = Some c"
| "reply_status (Answered c a) = Some c"
| "reply_status (Handed h) = None"
| "reply_status Aborted = None"
| "reply_status Killed = None"

section \<open>Decoding\<close>

record multipart =
  mp_value :: "string \<Rightarrow> string"
  mp_file :: "(bytes \<times> string) option"

record import_body =
  ib_stream_id :: string
  ib_name :: string
  ib_tenant_id :: string
  ib_source_url :: string
  ib_ingest_fps :: float64

record log_body =
  lb_level :: string
  lb_component :: string
  lb_message :: string
  lb_details :: details

record http_env =
  en_url_scheme :: "string \<Rightarrow> string option"
  en_decode_stream :: "string \<Rightarrow> stream option"
  en_decode_consumer :: "string \<Rightarrow> (float64 \<times> string) option"
  en_decode_fragment :: "string \<Rightarrow> (fragment \<times> string) option"
  en_decode_publish :: "string \<Rightarrow> string"
  en_decode_import :: "string \<Rightarrow> import_body option"
  en_decode_chaos :: "string \<Rightarrow> chaos_injection option"
  en_decode_log :: "string \<Rightarrow> log_body option"
  en_decode_probe :: "string \<Rightarrow> probe_request option"
  en_decode_onvif :: "string \<Rightarrow> onvif_request option"
  en_multipart :: "http_request \<Rightarrow> multipart option"
  en_parse_time :: "string \<Rightarrow> string \<Rightarrow> gotime option"
  en_format_time :: "gotime \<Rightarrow> string"
  en_variable :: "string \<Rightarrow> string"
  en_split_host :: "string \<Rightarrow> string option"

text \<open>
  What the clock, the operating system and other services answer while one request is served:
  \<open>io_order\<close> and \<open>io_frag_order\<close> are the orders in which maps are iterated, \<open>io_upstream\<close> the WHEP
  upstream, \<open>io_random\<close> the random bytes of a session id, \<open>io_write\<close> the outcome of a file write,
  \<open>io_files\<close> the files there are, \<open>io_probe_image\<close> whether the last probe left a readable image,
  \<open>io_sample_file\<close> whether a path of the sample directories is a file and \<open>io_read_dir\<close> their entries. \<open>io_probe\<close> and
  \<open>io_snapshot\<close> are what the network and the media programs answer to a probe and to a request for a
  picture, \<open>io_packets\<close> the packets that come back from a search for cameras,
  \<open>io_machine\<close> what the machine reports of itself.
\<close>

record inputs =
  io_clock :: "nat \<Rightarrow> gotime"
  io_order :: "string list"
  io_frag_order :: "string list"
  io_upstream :: "string \<Rightarrow> string \<Rightarrow> upstream_reply option"
  io_random :: bytes
  io_smi :: "string option"
  io_statfs :: "statfs option"
  io_write :: write_result
  io_files :: "string \<rightharpoonup> bytes"
  io_probe_image :: bool
  io_sample_file :: "string \<Rightarrow> bool"
  io_panel :: panel_env
  io_host :: host_env
  io_u64 :: "float64 \<Rightarrow> 64 word"
  io_elapsed :: int
  io_read_dir :: "string \<Rightarrow> (string \<times> bool) list option"
  io_probe :: probe_world
  io_snapshot :: snapshot_world
  io_packets :: "answer_packet list"
  io_machine :: machine

text \<open>The clock after the first \<open>n\<close> readings, and the bytes of a string.\<close>

definition later :: "nat \<Rightarrow> (nat \<Rightarrow> gotime) \<Rightarrow> nat \<Rightarrow> gotime" where
  "later n clock i = clock (n + i)"

definition str_bytes :: "string \<Rightarrow> bytes" where
  "str_bytes s = map of_char s"

section \<open>Ids and URLs\<close>

definition id_char :: "char \<Rightarrow> bool" where
  "id_char c \<longleftrightarrow>
     (let n = (of_char c :: nat)
      in 97 \<le> n \<and> n \<le> 122 \<or> 65 \<le> n \<and> n \<le> 90 \<or> 48 \<le> n \<and> n \<le> 57 \<or> c = CHR ''_'' \<or> c = CHR ''-'')"

definition is_valid_stream_id :: "string \<Rightarrow> bool" where
  "is_valid_stream_id s \<longleftrightarrow> 1 \<le> length s \<and> length s \<le> 64 \<and> list_all id_char s"

definition is_valid_source_url :: "http_env \<Rightarrow> string \<Rightarrow> bool" where
  "is_valid_source_url env raw \<longleftrightarrow>
     has_prefix raw ''synthetic://'' \<or>
     (case en_url_scheme env raw of None \<Rightarrow> False
      | Some sc \<Rightarrow> to_lower sc \<in> {''rtsp'', ''rtmp'', ''http'', ''https'', ''file''})"

lemma valid_id_plain: "is_valid_stream_id s \<Longrightarrow> plain_name s \<and> s \<noteq> [] \<and> path_base s = s"
proof -
  assume v: "is_valid_stream_id s"
  have "\<not> id_char CHR ''/''" "\<not> id_char CHR ''*''" "\<not> id_char CHR ''?''"
    by (simp_all add: id_char_def)
  then have "plain_name s" using v by (auto simp: plain_name_def is_valid_stream_id_def list_all_iff)
  moreover from v have "s \<noteq> []" by (auto simp: is_valid_stream_id_def)
  ultimately show ?thesis by (simp add: path_base_plain plain_name_def)
qed

section \<open>Roles\<close>

definition cross_tenant :: "caller \<Rightarrow> bool" where
  "cross_tenant c \<longleftrightarrow> ca_role c = ''superadmin'' \<or> ca_role c = ''system''"

definition can_write :: "caller \<Rightarrow> bool" where
  "can_write c \<longleftrightarrow> ca_role c \<in> {''admin'', ''operator'', ''superadmin'', ''system''}"

definition can_manage :: "caller \<Rightarrow> bool" where
  "can_manage c \<longleftrightarrow> ca_role c \<in> {''admin'', ''operator'', ''superadmin''}"

definition forbidden_roles :: string where
  "forbidden_roles = ''forbidden: insufficient role permissions''"

text \<open>The tenant a write is stored under (streams and fragments alike).\<close>

definition stamp_tenant :: "caller \<Rightarrow> string \<Rightarrow> string" where
  "stamp_tenant c given =
     (if \<not> cross_tenant c then ca_tenant c else if given = [] then ca_tenant c else given)"

end
