(* ===== verification/HttpWhep.thy ===== *)
theory HttpWhep
  imports HttpBase
begin

text \<open>
  \<^verbatim>\<open>internal/adapters/primary/http/whep_handler.go\<close>: the WHEP endpoints. The same dispatcher serves
  the authenticated \<^verbatim>\<open>/api/v1/streams/{id}/whep\<close> and the public \<^verbatim>\<open>/whep\<close>.
\<close>

section \<open>Handlers\<close>

definition handle_post_offer ::
  "inputs \<Rightarrow> http_request \<Rightarrow> string \<Rightarrow> service \<Rightarrow> reply \<times> service" where
  "handle_post_offer io r stream_id s =
     (if stream_id = [] then (Refused 400 ''stream_id required'', s)
      else
        (case hq_body r of
           None \<Rightarrow> (Refused 400 ''SDP offer body required'', s)
         | Some offer \<Rightarrow>
             if offer = [] then (Refused 400 ''SDP offer body required'', s)
             else
               (case whep_offer (io_upstream io) (io_random io) (io_clock io) stream_id offer s of
                  (Inl e, s') \<Rightarrow>
                    (if e = ErrInvalidWHEPOffer then Refused 400 (error_text e)
                     else Refused 500 (''failed to negotiate WHEP: '' @ error_text e), s')
                | (Inr a, s') \<Rightarrow> (Answered 201 (ASdp a), s'))))"

definition handle_patch_candidate ::
  "http_request \<Rightarrow> string \<Rightarrow> string \<Rightarrow> service \<Rightarrow> reply \<times> service" where
  "handle_patch_candidate r stream_id sid s =
     (case hq_body r of
        None \<Rightarrow> (Refused 400 ''invalid candidate body'', s)
      | Some body \<Rightarrow>
          (case whep_patch stream_id sid body s of
             (Inl e, s') \<Rightarrow>
               (if e = ErrWHEPSessionNotFound then Refused 404 ''session not found''
                else Refused 500 (error_text e), s')
           | (Inr _, s') \<Rightarrow> (Answered 204 AEmpty, s')))"

definition handle_delete_session ::
  "inputs \<Rightarrow> string \<Rightarrow> string \<Rightarrow> service \<Rightarrow> reply \<times> service" where
  "handle_delete_session io stream_id sid s =
     (case whep_delete (io_clock io 0) stream_id sid s of
        (Inl e, s') \<Rightarrow>
          (if e = ErrWHEPSessionNotFound then Refused 404 ''session not found''
           else Refused 500 (error_text e), s')
      | (Inr _, s') \<Rightarrow> (Answered 200 (AText ''session_terminated''), s'))"

definition handle_get_info :: "string \<Rightarrow> reply" where
  "handle_get_info stream_id =
     Answered 200 (AWhepInfo
       [(''protocol'', ''WHEP''), (''version'', ''RFC draft''), (''stream_id'', stream_id),
        (''endpoint'', ''/api/v1/streams/'' @ stream_id @ ''/whep''), (''status'', ''ready'')])"

definition dispatch_whep ::
  "inputs \<Rightarrow> http_request \<Rightarrow> string \<Rightarrow> string list \<Rightarrow> service \<Rightarrow> reply \<times> service" where
  "dispatch_whep io r stream_id sub s =
     (if hq_method r = ''OPTIONS'' then (Answered 200 AEmpty, s)
      else if length sub \<ge> 2 \<and> sub ! 0 = ''sessions'' then
        (let sid = path_base (sub ! 1)
         in if hq_method r = ''PATCH'' then handle_patch_candidate r stream_id sid s
            else if hq_method r = ''DELETE'' then handle_delete_session io stream_id sid s
            else (Refused 405 ''method not allowed on session'', s))
      else if hq_method r = ''POST'' then handle_post_offer io r stream_id s
      else if hq_method r = ''GET'' then (handle_get_info stream_id, s)
      else (Refused 405 ''method not allowed'', s))"

definition first_nonempty :: "string list \<Rightarrow> string" where
  "first_nonempty xs = (case filter (\<lambda>x. x \<noteq> []) xs of [] \<Rightarrow> [] | x # _ \<Rightarrow> x)"

definition handle_root_whep :: "inputs \<Rightarrow> http_request \<Rightarrow> service \<Rightarrow> reply \<times> service" where
  "handle_root_whep io r s =
     (let parts = split_char CHR ''/'' (trim_prefix (trim_prefix (hq_path r) ''/whep'') ''/'');
          stream_id = first_nonempty
            [if hd parts \<noteq> [] then path_base (hd parts) else [],
             hq_query r ''stream'', hq_query r ''channel'', hq_query r ''stream_id'']
      in dispatch_whep io r stream_id (tl parts) s)"

section \<open>What a WHEP request can change\<close>

text \<open>Everything but the WHEP sessions and the log is as before.\<close>

definition same_but_whep :: "service \<Rightarrow> service \<Rightarrow> bool" where
  "same_but_whep s s' \<longleftrightarrow> s' = s\<lparr>sv_whep := sv_whep s', sv_log := sv_log s'\<rparr>"

lemma same_but_whep_refl [simp]: "same_but_whep s s"
  by (simp add: same_but_whep_def)

lemma same_but_whep_ops:
  "same_but_whep s (snd (whep_offer upstream rand clock stream_id offer s))"
  "same_but_whep s (snd (whep_patch stream_id sid data s))"
  "same_but_whep s (snd (whep_delete now stream_id sid s))"
  by (simp_all add: same_but_whep_def whep_offer_def whep_patch_def whep_delete_def svc_log_def Let_def
      split: option.split prod.split)

lemma same_but_whepD:
  assumes "same_but_whep s s'"
  shows "svc_stream s' = svc_stream s" "svc_session s' = svc_session s" "sv_frags s' = sv_frags s"
proof -
  have "s' = s\<lparr>sv_whep := sv_whep s', sv_log := sv_log s'\<rparr>" using assms by (simp add: same_but_whep_def)
  then obtain w l where "s' = s\<lparr>sv_whep := w, sv_log := l\<rparr>" by blast
  then show "svc_stream s' = svc_stream s" "svc_session s' = svc_session s" "sv_frags s' = sv_frags s"
    by (simp_all add: svc_stream_def svc_session_def fun_eq_iff)
qed

lemma snd_case_result [simp]:
  "snd (case p of (Inl e, s') \<Rightarrow> (f e, s') | (Inr a, s') \<Rightarrow> (g a, s')) = snd p"
  by (simp split: prod.split sum.split)

lemma same_but_whep_handlers [simp]:
  "same_but_whep s (snd (handle_post_offer io r stream_id s))"
  "same_but_whep s (snd (handle_patch_candidate r stream_id sid s))"
  "same_but_whep s (snd (handle_delete_session io stream_id sid s))"
  by (simp_all add: handle_post_offer_def handle_patch_candidate_def handle_delete_session_def
      same_but_whep_ops split: option.split)

lemma same_but_whep_dispatch: "same_but_whep s (snd (dispatch_whep io r stream_id sub s))"
  by (simp add: dispatch_whep_def Let_def)

lemma same_but_whep_root: "same_but_whep s (snd (handle_root_whep io r s))"
  by (simp add: handle_root_whep_def Let_def same_but_whep_dispatch)

end
