(* ===== verification/HttpFragments.thy ===== *)
theory HttpFragments
  imports HttpBase
begin

text \<open>
  \<^verbatim>\<open>internal/adapters/primary/http/fragment_handler.go\<close>: upload, listing and download of recording
  fragments. A download answers the whole content; range requests are left to \<^verbatim>\<open>http.ServeContent\<close>.
\<close>

section \<open>Query times\<close>

definition rfc3339 :: string where
  "rfc3339 = ''2006-01-02T15:04:05Z07:00''"

definition query_layouts :: "string list" where
  "query_layouts = [rfc3339, ''2006-01-02T15:04:05'', ''2006-01-02 15:04:05'', ''2006-01-02'']"

text \<open>\<^verbatim>\<open>time.Unix(sec, 0)\<close>\<close>

definition time_unix :: "int \<Rightarrow> gotime" where
  "time_unix sec = i64 (sec + 62135596800) * second"

definition parse_query_time :: "http_env \<Rightarrow> string \<Rightarrow> gotime" where
  "parse_query_time env s =
     (if s = [] then 0
      else case find (\<lambda>l. en_parse_time env l s \<noteq> None) query_layouts of
             Some l \<Rightarrow> the (en_parse_time env l s)
           | None \<Rightarrow>
               (case sscanf_int s of
                  Some sec \<Rightarrow> if sec > 1000000000 then time_unix sec else 0
                | None \<Rightarrow> 0))"

section \<open>Upload\<close>

text \<open>\<^verbatim>\<open>ParseFloat\<close> reports a decimal number that is too large; the infinities it parses have no digits.\<close>

definition form_duration :: "string \<Rightarrow> float64" where
  "form_duration s =
     (case parse_float s of
        None \<Rightarrow> Fin 0
      | Some x \<Rightarrow> if list_ex is_digit s \<and> x \<in> {Infty False, Infty True} then Fin 0 else x)"

definition form_time :: "http_env \<Rightarrow> string \<Rightarrow> gotime" where
  "form_time env s = (if s = [] then 0 else case en_parse_time env rfc3339 s of Some t \<Rightarrow> t | None \<Rightarrow> 0)"

definition first_of :: "string \<Rightarrow> string \<Rightarrow> string" where
  "first_of a b = (if a = [] then b else a)"

definition read_form :: "http_env \<Rightarrow> multipart \<Rightarrow> string \<Rightarrow> fragment \<times> bytes" where
  "read_form env m stream_id =
     (let v = mp_value m;
          f = zero_fragment\<lparr>fr_id := v ''id'',
                fr_stream_id := first_of stream_id (first_of (v ''stream_id'') (v ''camera_id'')),
                fr_tenant_id := v ''tenant_id'', fr_recording_mode := v ''recording_mode'',
                fr_codec := v ''codec'', fr_content_type := v ''content_type'',
                fr_duration := form_duration (v ''duration_seconds''),
                fr_start := form_time env (v ''start_time''), fr_end := form_time env (v ''end_time'')\<rparr>
      in case mp_file m of
           None \<Rightarrow> (f, [])
         | Some (content, ctype) \<Rightarrow>
             (if fr_content_type f = [] \<and> ctype \<noteq> [] then f\<lparr>fr_content_type := ctype\<rparr> else f, content))"

definition max_upload :: nat where
  "max_upload = 100 * 2 ^ 20"

text \<open>A JSON body replaces the fragment built from the URL, its stream id included.\<close>

definition read_raw :: "http_env \<Rightarrow> http_request \<Rightarrow> string \<Rightarrow> fragment \<times> bytes" where
  "read_raw env r stream_id =
     (let q = hq_query r;
          f = zero_fragment\<lparr>
                fr_stream_id := first_of stream_id (first_of (q ''stream_id'') (q ''camera_id'')),
                fr_tenant_id := q ''tenant_id'', fr_recording_mode := q ''recording_mode'',
                fr_codec := q ''codec'', fr_content_type := hq_content_type r,
                fr_duration := form_duration (q ''duration_seconds'')\<rparr>
      in case hq_body r of
           None \<Rightarrow> (f, [])
         | Some full \<Rightarrow>
             let body = take max_upload full
             in if body = [] then (f, [])
                else if str_contains (fr_content_type f) ''application/json'' then
                  (case en_decode_fragment env body of
                     None \<Rightarrow> (f, []) | Some (g, content) \<Rightarrow> (g, str_bytes content))
                else (f, str_bytes body))"

definition read_upload :: "http_env \<Rightarrow> http_request \<Rightarrow> string \<Rightarrow> (fragment \<times> bytes) option" where
  "read_upload env r stream_id =
     (if has_prefix (hq_content_type r) ''multipart/form-data''
      then map_option (\<lambda>m. read_form env m stream_id) (en_multipart env r)
      else Some (read_raw env r stream_id))"

definition handle_upload_fragment ::
  "http_env \<Rightarrow> inputs \<Rightarrow> http_request \<Rightarrow> caller \<Rightarrow> string \<Rightarrow> service \<Rightarrow> reply \<times> service" where
  "handle_upload_fragment env io r c stream_id s =
     (if \<not> can_write c then (Refused 403 forbidden_roles, s)
      else
        (case read_upload env r stream_id of
           None \<Rightarrow> (Refused 400 ''failed to parse multipart form'', s)
         | Some (f, content) \<Rightarrow>
             if \<not> is_valid_stream_id (fr_stream_id f) then (Refused 400 ''invalid stream_id'', s)
             else
               (case validate_fragment (io_clock io 0) (io_clock io 1)
                       (f\<lparr>fr_tenant_id := stamp_tenant c (fr_tenant_id f)\<rparr>) of
                  (Some e, _) \<Rightarrow> (Refused 400 (error_text e), s)
                | (None, g) \<Rightarrow>
                    (case save_recording_fragment (later 2 (io_clock io)) (en_format_time env) (io_write io)
                            (io_files io) g content s of
                       (Some e, _, s') \<Rightarrow> (Refused 500 (''failed to save fragment: '' @ error_text e), s')
                     | (None, h, s') \<Rightarrow> (Answered 201 (AFragmentCreated h), s')))))"

section \<open>Listing and download\<close>

definition handle_list_fragments ::
  "http_env \<Rightarrow> inputs \<Rightarrow> http_request \<Rightarrow> string \<Rightarrow> service \<Rightarrow> reply \<times> service" where
  "handle_list_fragments env io r stream_id s =
     (let start = parse_query_time env (hq_query r ''start'');
          stop = parse_query_time env (hq_query r ''end'');
          limit = (if hq_query r ''limit'' = [] then 50 else sscanf_into 50 (hq_query r ''limit''))
      in (Answered 200 (AFragments stream_id
            (list_recording_fragments (io_frag_order io) stream_id start stop limit s)), s))"

definition hides_fragment :: "caller \<Rightarrow> fragment \<Rightarrow> bool" where
  "hides_fragment c f \<longleftrightarrow> \<not> cross_tenant c \<and> fr_tenant_id f \<noteq> [] \<and> fr_tenant_id f \<noteq> ca_tenant c"

text \<open>The files on disk are those of the fragment repository; every one of them is a regular file.\<close>

definition file_on_disk :: "service \<Rightarrow> string \<Rightarrow> bytes option" where
  "file_on_disk s path =
     (case sv_frags s of None \<Rightarrow> None | Some fr \<Rightarrow> if path = [] then None else fg_files fr path)"

definition handle_fragment_by_id ::
  "http_request \<Rightarrow> caller \<Rightarrow> string \<Rightarrow> string \<Rightarrow> service \<Rightarrow> reply \<times> service" where
  "handle_fragment_by_id r c stream_id fid s =
     (case get_recording_fragment stream_id fid s of
        Inl e \<Rightarrow> (if e = ErrFragmentNotFound then Refused 404 ''fragment not found''
                  else Refused 500 (error_text e), s)
      | Inr (f, content) \<Rightarrow>
          if hides_fragment c f then (Refused 404 ''fragment not found'', s)
          else if hq_method r = ''DELETE'' then
            (if ca_role c \<noteq> ''admin'' \<and> ca_role c \<noteq> ''superadmin'' then (Refused 403 forbidden_roles, s)
             else (Answered 204 AEmpty, s))
          else if hq_method r \<noteq> ''GET'' \<and> hq_method r \<noteq> ''HEAD''
          then (Refused 405 ''method not allowed'', s)
          else
            let ctype = (if fr_content_type f = [] then ''video/mp4'' else fr_content_type f)
            in (case file_on_disk s (fr_path f) of
                  Some file \<Rightarrow> (Answered 200 (AContent ctype f file), s)
                | None \<Rightarrow>
                    if content \<noteq> [] then (Answered 200 (AContent ctype f content), s)
                    else (Refused 404 ''fragment data unavailable'', s)))"

section \<open>Dispatch\<close>

definition handle_stream_fragments ::
  "http_env \<Rightarrow> inputs \<Rightarrow> http_request \<Rightarrow> caller \<Rightarrow> string \<Rightarrow> string list \<Rightarrow> service \<Rightarrow> reply \<times> service" where
  "handle_stream_fragments env io r c stream_id sub s =
     (if sub \<noteq> [] \<and> hd sub \<noteq> [] then handle_fragment_by_id r c stream_id (path_base (hd sub)) s
      else if hq_method r = ''GET'' then handle_list_fragments env io r stream_id s
      else if hq_method r = ''POST'' then handle_upload_fragment env io r c stream_id s
      else (Refused 405 ''method not allowed'', s))"

definition handle_recordings_ingest ::
  "http_env \<Rightarrow> inputs \<Rightarrow> http_request \<Rightarrow> caller \<Rightarrow> service \<Rightarrow> reply \<times> service" where
  "handle_recordings_ingest env io r c s =
     (if hq_method r \<noteq> ''POST''
      then (Refused 405 ''method not allowed, use POST to upload fragments'', s)
      else handle_upload_fragment env io r c
             (first_of (hq_query r ''stream_id'') (hq_query r ''camera_id'')) s)"

section \<open>What an accepted upload leaves\<close>

lemma clean_valid_id: "is_valid_stream_id s \<Longrightarrow> clean_name s = s"
proof -
  assume v: "is_valid_stream_id s"
  have s: "s \<noteq> []" "CHR ''/'' \<notin> set s" "path_base s = s"
    using valid_id_plain [OF v] by (auto simp: plain_name_def)
  have "\<not> id_char CHR ''.''" by (simp add: id_char_def)
  then have "s \<noteq> ''.''" "s \<noteq> ''..''" using v by (auto simp: is_valid_stream_id_def)
  moreover have "split_char CHR ''/'' s = [s]" using s by (simp add: split_char_plain)
  moreover have "\<not> has_prefix s ''/''" using s by (auto simp: has_prefix_iff)
  ultimately have "path_clean s = s" using s by (simp add: path_clean_def Let_def)
  then show ?thesis using s by (simp add: clean_name_def)
qed

lemma validate_fragment_tenant:
  "validate_fragment now1 now2 f = (None, g) \<Longrightarrow>
     fr_tenant_id g = (if fr_tenant_id f = [] then default_tenant else fr_tenant_id f)"
  by (auto simp: validate_fragment_def Let_def dest!: check_duration_frame
      split: if_splits prod.splits option.splits)

lemma save_recording_ok:
  assumes "save_recording_fragment clock ft wr files frag content s = (None, h, s')"
  obtains g fr0 fr where "validate_fragment (clock 0) (clock 1) frag = (None, g)"
    and "frag_save (clock 2) (clock 3) (clock 4) wr g content fr0 = (None, h, fr)"
    and "fr0 = (case sv_frags s of Some x \<Rightarrow> x | None \<Rightarrow> new_fragment_repository ''recordings'' files)"
    and "sv_frags s' = Some fr" and "sv_repo s' = sv_repo s"
  using assms
  by (cases "sv_frags s") (auto simp: save_recording_fragment_def Let_def split: prod.splits option.splits if_splits)

lemma upload_accepted:
  assumes "handle_upload_fragment env io r c stream_id s = (Answered n (AFragmentCreated h), s')"
  obtains f content g fr0 fr now1 now2 now3 where "can_write c"
    and "read_upload env r stream_id = Some (f, content)" and "is_valid_stream_id (fr_stream_id f)"
    and "fr_stream_id g = fr_stream_id f" and "fr_path g = fr_path f"
    and "fr_tenant_id g = (let t = stamp_tenant c (fr_tenant_id f) in if t = [] then default_tenant else t)"
    and "frag_save now1 now2 now3 (io_write io) g content fr0 = (None, h, fr)"
    and "fr0 = (case sv_frags s of Some x \<Rightarrow> x | None \<Rightarrow> new_fragment_repository ''recordings'' (io_files io))"
    and "sv_frags s' = Some fr" and "sv_repo s' = sv_repo s" and "n = 201"
proof -
  obtain f content g1 where a: "can_write c" "read_upload env r stream_id = Some (f, content)"
      "is_valid_stream_id (fr_stream_id f)"
      "validate_fragment (io_clock io 0) (io_clock io 1)
         (f\<lparr>fr_tenant_id := stamp_tenant c (fr_tenant_id f)\<rparr>) = (None, g1)"
      "save_recording_fragment (later 2 (io_clock io)) (en_format_time env) (io_write io) (io_files io)
         g1 content s = (None, h, s')" "n = 201"
    using assms
    by (auto simp: handle_upload_fragment_def split: if_splits option.splits prod.splits)
  obtain g fr0 fr where b:
      "validate_fragment (later 2 (io_clock io) 0) (later 2 (io_clock io) 1) g1 = (None, g)"
      "frag_save (later 2 (io_clock io) 2) (later 2 (io_clock io) 3) (later 2 (io_clock io) 4)
         (io_write io) g content fr0 = (None, h, fr)"
      "fr0 = (case sv_frags s of Some x \<Rightarrow> x | None \<Rightarrow> new_fragment_repository ''recordings'' (io_files io))"
      "sv_frags s' = Some fr" "sv_repo s' = sv_repo s"
    by (rule save_recording_ok [OF a(5)])
  show ?thesis
    using validate_fragment_frame [OF a(4)] validate_fragment_frame [OF b(1)]
      validate_fragment_tenant [OF a(4)] validate_fragment_tenant [OF b(1)]
    by (intro that [OF a(1,2,3) _ _ _ b(2) b(3,4,5) a(6)]) (simp_all add: Let_def default_tenant_def)
qed

text \<open>The uploader sees what was uploaded: the stored content, or the file the client named.\<close>

lemma upload_download:
  assumes "handle_upload_fragment env io r c stream_id s = (Answered n (AFragmentCreated h), s')"
    and "read_upload env r stream_id = Some (f, content)"
    and "ca_tenant c \<noteq> []" and "hq_method q = ''GET''"
  shows "fr_stream_id h = fr_stream_id f"
    and "content \<noteq> [] \<Longrightarrow> handle_fragment_by_id q c (fr_stream_id h) (fr_id h) s' =
      (Answered 200 (AContent (fr_content_type h) h content), s')"
    and "content = [] \<Longrightarrow> fr_path f \<noteq> [] \<Longrightarrow>
      fg_files (case sv_frags s of Some x \<Rightarrow> x | None \<Rightarrow> new_fragment_repository ''recordings'' (io_files io))
        (fr_path f) = Some file \<Longrightarrow>
      handle_fragment_by_id q c (fr_stream_id h) (fr_id h) s' =
      (Answered 200 (AContent (fr_content_type h) h file), s')"
    and "\<not> cross_tenant c \<Longrightarrow> fr_tenant_id h = ca_tenant c"
proof -
  obtain g fr0 fr now1 now2 now3 where a: "is_valid_stream_id (fr_stream_id f)"
      "fr_stream_id g = fr_stream_id f" "fr_path g = fr_path f"
      "fr_tenant_id g = (let t = stamp_tenant c (fr_tenant_id f) in if t = [] then default_tenant else t)"
      "frag_save now1 now2 now3 (io_write io) g content fr0 = (None, h, fr)"
      "fr0 = (case sv_frags s of Some x \<Rightarrow> x | None \<Rightarrow> new_fragment_repository ''recordings'' (io_files io))"
      "sv_frags s' = Some fr"
    by (rule upload_accepted [OF assms(1)]) (use assms(2) in simp)
  have clean: "clean_name (fr_stream_id g) = fr_stream_id g" by (simp add: a(1,2) clean_valid_id)
  note saved = frag_saved [OF a(5) clean]
  show sid: "fr_stream_id h = fr_stream_id f" using saved(1) a(2) by simp
  have tenant: "fr_tenant_id h = (let t = stamp_tenant c (fr_tenant_id f) in if t = [] then default_tenant else t)"
    using saved(4) a(4) by (simp add: Let_def default_tenant_def)
  then show own: "\<not> cross_tenant c \<Longrightarrow> fr_tenant_id h = ca_tenant c"
    using assms(3) by (simp add: stamp_tenant_def)
  have shown: "\<not> hides_fragment c h" using own by (auto simp: hides_fragment_def)
  have get: "get_recording_fragment (fr_stream_id h) (fr_id h) s' =
      Inr (h, case fg_files fr (fr_path h) of None \<Rightarrow> [] | Some d \<Rightarrow> d)"
    using saved(6) by (simp add: get_recording_fragment_def a(7))
  have disk: "file_on_disk s' (fr_path h) = fg_files fr (fr_path h)"
    using saved(2) by (simp add: file_on_disk_def a(7))
  show "handle_fragment_by_id q c (fr_stream_id h) (fr_id h) s' =
      (Answered 200 (AContent (fr_content_type h) h content), s')" if "content \<noteq> []"
    using saved(7) [OF that] shown saved(3) assms(4) by (simp add: handle_fragment_by_id_def get disk)
  show "handle_fragment_by_id q c (fr_stream_id h) (fr_id h) s' =
      (Answered 200 (AContent (fr_content_type h) h file), s')"
    if "content = []" "fr_path f \<noteq> []"
      "fg_files (case sv_frags s of Some x \<Rightarrow> x | None \<Rightarrow> new_fragment_repository ''recordings'' (io_files io))
        (fr_path f) = Some file"
  proof -
    have "file_on_disk s' (fr_path h) = Some file" using saved(8) that a(3,6) disk by simp
    then show ?thesis using shown saved(3) assms(4) by (simp add: handle_fragment_by_id_def get)
  qed
qed

section \<open>Properties\<close>


text \<open>
  A client can read any file of the server: an upload without content whose JSON names a storage
  path is accepted as it is, and the download of that fragment answers the content of that file.
\<close>

theorem upload_reads_any_file:
  assumes "handle_upload_fragment env io r c stream_id s = (Answered n (AFragmentCreated h), s')"
    and "read_upload env r stream_id = Some (f, [])" and "fr_path f \<noteq> []"
    and "fg_files (case sv_frags s of Some x \<Rightarrow> x
         | None \<Rightarrow> new_fragment_repository ''recordings'' (io_files io)) (fr_path f) = Some file"
    and "ca_tenant c \<noteq> []" and "hq_method q = ''GET''"
  shows "handle_fragment_by_id q c (fr_stream_id h) (fr_id h) s' =
    (Answered 200 (AContent (fr_content_type h) h file), s')"
  using upload_download(3) [OF assms(1,2,5,6)] assms(3,4) by blast

text \<open>
  Deleting a fragment does nothing: DELETE answers 204 to an admin of the fragment's tenant, and
  the fragment and its content are still there, for the next download and in the repository.
\<close>

theorem fragment_delete_keeps:
  assumes "get_recording_fragment stream_id fid s = Inr (f, content)"
    and "ca_role c = ''admin''" and "fr_tenant_id f = ca_tenant c" and "hq_method r = ''DELETE''"
    and "content \<noteq> []" and "hq_method q = ''GET''" and "handle_fragment_by_id r c stream_id fid s = (a, s')"
  shows "a = Answered 204 AEmpty \<and> get_recording_fragment stream_id fid s' = Inr (f, content) \<and>
    (\<exists>ct. handle_fragment_by_id q c stream_id fid s' = (Answered 200 (AContent ct f content), s'))"
proof -
  have "\<not> hides_fragment c f" using assms(3) by (simp add: hides_fragment_def)
  then have a: "a = Answered 204 AEmpty" "s' = s"
    using assms(1,2,4,7) by (simp_all add: handle_fragment_by_id_def)
  obtain fr where fr: "sv_frags s = Some fr" "frag_find stream_id fid fr = Inr (f, content)"
    using assms(1) by (auto simp: get_recording_fragment_def split: option.splits)
  have "file_on_disk s (fr_path f) = Some content"
    using fr assms(5) by (auto simp: file_on_disk_def frag_find_eq split: option.splits if_splits)
  then show ?thesis
    using assms(1,6) \<open>\<not> hides_fragment c f\<close> by (simp add: a handle_fragment_by_id_def Let_def)
qed

section \<open>Concrete requests\<close>

text \<open>An environment that decodes every fragment body to \<open>f\<close> with the data \<open>d\<close>.\<close>

definition json_env :: "fragment \<Rightarrow> string \<Rightarrow> http_env" where
  "json_env f d =
     \<lparr>en_url_scheme = (\<lambda>u. Some ''rtsp''), en_decode_stream = (\<lambda>b. None),
      en_decode_consumer = (\<lambda>b. None), en_decode_fragment = (\<lambda>b. Some (f, d)),
      en_decode_publish = (\<lambda>b. b), en_decode_import = (\<lambda>b. None), en_decode_chaos = (\<lambda>b. None),
      en_decode_log = (\<lambda>b. None), en_decode_probe = (\<lambda>b. None),
      en_decode_onvif = (\<lambda>b. None), en_multipart = (\<lambda>r. None), en_parse_time = (\<lambda>l s. None),
      en_format_time = (\<lambda>t. []), en_variable = (\<lambda>v. []), en_split_host = (\<lambda>h. None)\<rparr>"

definition json_post :: http_request where
  "json_post =
     \<lparr>hq_method = ''POST'', hq_path = [], hq_api_key = [], hq_authorization = [], hq_query = (\<lambda>k. []),
      hq_remote = [], hq_content_type = ''application/json'', hq_body = Some ''x'', hq_host = []\<rparr>"

lemma json_post_path: "json_post = json_post\<lparr>hq_path := []\<rparr>"
  by (simp add: json_post_def)

definition plain_io :: inputs where
  "plain_io =
     \<lparr>io_clock = (\<lambda>i. 8), io_order = [''cam1''], io_frag_order = [''f1''], io_upstream = no_upstream,
      io_random = sixteen, io_smi = None, io_statfs = None, io_write = WriteOk, io_files = Map.empty,
      io_probe_image = False, io_sample_file = (\<lambda>p. True), io_panel = no_env,
      io_host = \<lparr>he_hostname = [], he_addrs = [], he_arch = [], he_os = [], he_cores = 4, he_alloc = 0\<rparr>,
      io_u64 = (\<lambda>x. 0), io_elapsed = 0, io_read_dir = (\<lambda>d. None), io_probe = small_world,
      io_snapshot = dark_world, io_packets = [], io_machine = sample_machine\<rparr>"

definition alpha_operator :: caller where
  "alpha_operator = \<lparr>ca_tenant = ''alpha'', ca_user = ''u'', ca_role = ''operator''\<rparr>"

definition alpha_admin :: caller where
  "alpha_admin = alpha_operator\<lparr>ca_role := ''admin''\<rparr>"

lemma alpha_callers [simp]:
  "ca_tenant alpha_operator = ''alpha''" "ca_role alpha_operator = ''operator''"
  "ca_tenant alpha_admin = ''alpha''" "ca_role alpha_admin = ''admin''"
  "\<not> cross_tenant alpha_operator" "can_write alpha_operator"
  by (simp_all add: alpha_operator_def alpha_admin_def cross_tenant_def can_write_def)

definition recording_service :: service where
  "recording_service = empty_service\<lparr>sv_frags := Some passwd_repo\<rparr>"

lemma recording_frags: "sv_frags recording_service = Some passwd_repo"
  by (simp add: recording_service_def)

definition alpha_validated :: "string \<Rightarrow> fragment" where
  "alpha_validated p = sample_validated\<lparr>fr_tenant_id := ''alpha'', fr_path := p\<rparr>"

lemma alpha_validated_simps [simp]:
  "fr_stream_id (alpha_validated p) = ''cam''" "fr_path (alpha_validated p) = p"
  "fr_tenant_id (alpha_validated p) = ''alpha''"
  by (simp_all add: alpha_validated_def)

lemma alpha_validate:
  "validate_fragment 8 8 (sample_fragment\<lparr>fr_path := p, fr_tenant_id := ''alpha''\<rparr>) = (None, alpha_validated p)"
  by (simp add: validate_fragment_def sample_fragment_def sample_validated_def zero_fragment_def
      trim_cam check_duration_def fle_def Let_def settle_times_def fill_media_def time_sub_def
      alpha_validated_def)

lemma alpha_revalidate: "validate_fragment now1 now2 (alpha_validated p) = (None, alpha_validated p)"
proof (rule validate_fragment_stable)
  show "fragment_ok (alpha_validated p)" using validate_fragment_ok [OF alpha_validate] by simp
  show "\<not> fle (fr_duration (alpha_validated p)) (Fin 0)"
    using validate_fragment_duration [OF alpha_validate] .
qed (simp_all add: alpha_validated_def sample_validated_def sample_fragment_def)

lemma valid_cam: "is_valid_stream_id ''cam''"
  by (simp add: is_valid_stream_id_def id_char_def)

lemma read_json:
  "read_upload (json_env f d) (json_post\<lparr>hq_path := q\<rparr>) stream_id = Some (f, str_bytes d)"
proof -
  have "take max_upload ''x'' = ''x''" by (simp add: max_upload_def)
  moreover have "\<not> has_prefix ''application/json'' ''multipart/form-data''"
    by (simp add: has_prefix_def)
  moreover have "str_contains ''application/json'' ''application/json''"
    by (simp add: str_contains_iff) (metis append_Nil append_Nil2)
  ultimately show ?thesis by (simp add: read_upload_def read_raw_def json_post_def json_env_def)
qed

lemmas read_json_post = read_json [where q = "[]", folded json_post_path]

lemma json_upload:
  assumes "sv_frags s = Some passwd_repo" and "read_upload env r stream_id = Some (sample_fragment\<lparr>fr_path := p\<rparr>, d)"
  shows "\<exists>h s'. handle_upload_fragment env plain_io r alpha_operator stream_id s =
    (Answered 201 (AFragmentCreated h), s')"
proof -
  have "fr_stream_id (sample_fragment\<lparr>fr_path := p\<rparr>) = ''cam''"
    by (simp add: sample_fragment_def zero_fragment_def)
  then show ?thesis
    by (simp add: handle_upload_fragment_def assms valid_cam stamp_tenant_def plain_io_def
        alpha_validate save_recording_fragment_def alpha_revalidate frag_save_def clean_cam Let_def)
qed


theorem upload_reads_any_file_witness:
  "\<exists>h s'. handle_fragment_by_id (json_post\<lparr>hq_method := ''GET''\<rparr>) alpha_operator (fr_stream_id h) (fr_id h) s' =
       (Answered 200 (AContent (fr_content_type h) h [114, 111, 111, 116]), s')"
proof -
  obtain h s' where u: "handle_upload_fragment (json_env (sample_fragment\<lparr>fr_path := ''/etc/passwd''\<rparr>) [])
      plain_io json_post alpha_operator ''cam'' recording_service = (Answered 201 (AFragmentCreated h), s')"
    using json_upload [OF recording_frags read_json_post] by blast
  have r: "read_upload (json_env (sample_fragment\<lparr>fr_path := ''/etc/passwd''\<rparr>) []) json_post ''cam'' =
      Some (sample_fragment\<lparr>fr_path := ''/etc/passwd''\<rparr>, [])"
    by (simp add: read_json_post str_bytes_def)
  have passwd: "fg_files (case sv_frags recording_service of Some x \<Rightarrow> x
      | None \<Rightarrow> new_fragment_repository ''recordings'' (io_files plain_io)) ''/etc/passwd'' =
      Some [114, 111, 111, 116]"
    by (simp add: recording_service_def passwd_repo_def new_fragment_repository_def)
  show ?thesis
    using upload_reads_any_file [OF u r, of _ "json_post\<lparr>hq_method := ''GET''\<rparr>"] passwd by auto
qed

theorem fragment_delete_keeps_witness:
  "get_recording_fragment ''cam'' ''f1'' (snd (handle_fragment_by_id (json_post\<lparr>hq_method := ''DELETE''\<rparr>)
     (alpha_admin\<lparr>ca_tenant := default_tenant\<rparr>) ''cam'' ''f1''
     (empty_service\<lparr>sv_frags := Some (snd (snd (frag_save 7 8 9 WriteOk sample_fragment [1, 2]
        (new_fragment_repository [] Map.empty))))\<rparr>))) = Inr (sample_saved [1, 2], [1, 2])"
  (is "get_recording_fragment _ _ (snd (handle_fragment_by_id ?r ?c _ _ ?s)) = _")
proof -
  have g: "get_recording_fragment ''cam'' ''f1'' ?s = Inr (sample_saved [1, 2], [1, 2])"
    by (simp add: get_recording_fragment_def sample_save frag_find_def sample_saved_def)
  have t: "fr_tenant_id (sample_saved [1, 2]) = ca_tenant ?c"
    by (simp add: sample_saved_def sample_validated_def)
  show ?thesis
    using fragment_delete_keeps [OF g _ t _ _ _ prod.collapse [symmetric], of ?r "json_post\<lparr>hq_method := ''GET''\<rparr>"] by simp
qed

end
