(* ===== verification/HttpTelemetry.thy ===== *)
theory HttpTelemetry
  imports HttpFragments
begin

text \<open>
  \<^verbatim>\<open>telemetry_handler.go\<close>, \<^verbatim>\<open>stream_handler_telemetry.go\<close> and \<^verbatim>\<open>diagnostics_handler.go\<close> of
  \<^verbatim>\<open>internal/adapters/primary/http\<close>: health, logs, errors, diagnostics, dashboard, topology and chaos.
\<close>

section \<open>Health, errors and logs\<close>

text \<open>A panic in a handler is caught by \<^verbatim>\<open>net/http\<close>; the state it left stays.\<close>

fun answer_outcome :: "int \<Rightarrow> ('a \<Rightarrow> answer) \<Rightarrow> 'a outcome \<times> service \<Rightarrow> reply \<times> service" where
  "answer_outcome code f (Returns x, s) = (Answered code (f x), s)"
| "answer_outcome code f (Panics, s) = (Aborted, s)"

definition health_code :: "system_health \<Rightarrow> int" where
  "health_code h = (if hl_status h = ''unhealthy'' then 503 else 200)"

definition handle_health :: "inputs \<Rightarrow> service \<Rightarrow> reply \<times> service" where
  "handle_health io s =
     (case get_health (io_clock io 0) (io_clock io 1) (io_order io) (io_smi io) s of
        (Returns h, s') \<Rightarrow> (Answered (health_code h) (AHealth h), s')
      | (Panics, s') \<Rightarrow> (Aborted, s'))"

definition handle_healthz :: reply where
  "handle_healthz = Answered 200 (AText ''OK'')"

definition handle_readyz :: reply where
  "handle_readyz = Answered 200 (AText ''READY'')"

definition handle_errors :: "service \<Rightarrow> reply" where
  "handle_errors s = Answered 200 (AErrors (svc_error_summary s))"

definition log_filter_of :: "http_env \<Rightarrow> http_request \<Rightarrow> log_filter" where
  "log_filter_of env r =
     \<lparr>lf_level = hq_query r ''level'', lf_component = hq_query r ''component'',
      lf_since = form_time env (hq_query r ''since''),
      lf_limit = (case atoi (hq_query r ''limit'') of None \<Rightarrow> 0 | Some l \<Rightarrow> l)\<rparr>"

definition handle_logs :: "http_env \<Rightarrow> inputs \<Rightarrow> http_request \<Rightarrow> service \<Rightarrow> reply \<times> service" where
  "handle_logs env io r s =
     (if hq_method r = ''GET'' then (Answered 200 (ALogs (get_logs (log_filter_of env r) s)), s)
      else if hq_method r = ''POST'' then
        (case hq_body r of
           None \<Rightarrow> (Refused 400 ''invalid JSON'', s)
         | Some body \<Rightarrow>
             (case en_decode_log env body of
                None \<Rightarrow> (Refused 400 ''invalid JSON'', s)
              | Some b \<Rightarrow>
                  if lb_message b = [] then (Refused 400 ''message is required'', s)
                  else
                    let compo = first_of (lb_component b) ''custom'';
                        level = first_of (lb_level b) LogLevelInfo
                    in (Answered 201 (AText ''logged''),
                        s\<lparr>sv_log := record_log (io_clock io 0) level compo (lb_message b) (lb_details b)
                                      (sv_log s)\<rparr>)))
      else (Refused 405 ''method not allowed'', s))"

section \<open>Hardware and the combined report\<close>

definition get_hardware_telemetry :: "machine \<Rightarrow> gotime \<Rightarrow> hardware_telemetry" where
  "get_hardware_telemetry m now = get_complete_hardware_telemetry m now"

text \<open>
  \<^verbatim>\<open>json.NewEncoder(w).Encode\<close> of a report: the status has been decided before, and of a report with a
  number that JSON cannot write nothing is sent.
\<close>

definition encoded :: "hardware_telemetry \<Rightarrow> answer \<Rightarrow> answer" where
  "encoded hw a = (if hardware_writable hw then a else AEmpty)"

definition handle_hardware :: "inputs \<Rightarrow> reply" where
  "handle_hardware io =
     (let hw = get_hardware_telemetry (io_machine io) (io_clock io 0)
      in Answered 200 (encoded hw (AHardware hw)))"

definition get_unified_telemetry ::
  "inputs \<Rightarrow> service \<Rightarrow> (system_health \<times> hardware_telemetry \<times> error_summary) outcome \<times> service" where
  "get_unified_telemetry io s =
     (case get_health (io_clock io 0) (io_clock io 1) (io_order io) (io_smi io) s of
        (Returns h, s') \<Rightarrow>
          (Returns (h, get_hardware_telemetry (io_machine io) (io_clock io 2), svc_error_summary s'), s')
      | (Panics, s') \<Rightarrow> (Panics, s'))"

definition handle_unified_telemetry :: "inputs \<Rightarrow> service \<Rightarrow> reply \<times> service" where
  "handle_unified_telemetry io s =
     answer_outcome 200 (\<lambda>(h, hw, e). encoded hw (AUnified h hw e)) (get_unified_telemetry io s)"

section \<open>The descriptor\<close>

definition root_fields :: "(string \<times> string) list" where
  "root_fields =
     [(''service'', ''hydrastream-dataplane''),
      (''description'', ''HydraStream Zero-Copy Video Ingest, RFC 2326 TCP Demuxing & Media Relay Data Plane''),
      (''status'', ''online''), (''version'', ''1.0.0'')]"

definition root_endpoints :: "(string \<times> string) list" where
  "root_endpoints =
     [(''health'', ''/api/v1/health''), (''healthz'', ''/healthz''), (''readyz'', ''/readyz''),
      (''telemetry'', ''/api/v1/telemetry''), (''hardware'', ''/api/v1/telemetry/hardware''),
      (''logs'', ''/api/v1/telemetry/logs''), (''errors'', ''/api/v1/telemetry/errors''),
      (''stats'', ''/api/v1/telemetry/stats''), (''streams'', ''/api/v1/streams''),
      (''onvif_discover'', ''/api/v1/onvif/discover''), (''onvif_probe'', ''/api/v1/onvif/probe''),
      (''cluster_topology'', ''/api/v1/cluster/topology''), (''swagger_ui'', ''/swagger/''),
      (''swagger_json'', ''/swagger/doc.json'')]"

definition handle_root :: "http_request \<Rightarrow> reply" where
  "handle_root r =
     (if hq_path r \<noteq> ''/'' then Refused 404 ''404 page not found''
      else Answered 200 (ADescriptor root_fields root_endpoints))"

section \<open>Diagnostics\<close>

definition handle_system_diagnostics :: "inputs \<Rightarrow> http_request \<Rightarrow> reply" where
  "handle_system_diagnostics io r =
     (if hq_method r \<noteq> ''GET'' then Refused 405 ''method not allowed''
      else Answered 200 (ADiagnostics
             (get_system_diagnostics (io_clock io 0) (io_clock io 1) (io_smi io) (io_statfs io))))"

definition stream_not_found_error :: "gotime \<Rightarrow> string \<Rightarrow> app_error" where
  "stream_not_found_error now sid =
     \<lparr>ae_code = ''STREAM_NOT_FOUND'', ae_subsystem = ''ingest'', ae_stream_id = sid,
      ae_message = ''O fluxo de v'' @ i_acute @ ''deo solicitado n'' @ a_tilde @
        ''o foi encontrado no sistema.'',
      ae_severity = ''WARNING'', ae_details = [], ae_action = [], ae_timestamp = now\<rparr>"

text \<open>The stream id is read from the path once more, after trimming slashes at both ends.\<close>

definition trim_slashes :: "string \<Rightarrow> string" where
  "trim_slashes s = trim_left_func (\<lambda>c. c = CHR ''/'') (trim_right_func (\<lambda>c. c = CHR ''/'') s)"

definition handle_stream_diagnostics :: "inputs \<Rightarrow> http_request \<Rightarrow> service \<Rightarrow> reply" where
  "handle_stream_diagnostics io r s =
     (if hq_method r \<noteq> ''GET'' then Refused 405 ''method not allowed''
      else
        let parts = split_char CHR ''/'' (trim_slashes (hq_path r))
        in if length parts < 4 \<or> parts ! 0 \<noteq> ''api'' \<or> parts ! 1 \<noteq> ''v1'' \<or> parts ! 2 \<noteq> ''streams''
           then Refused 400 ''invalid path''
           else
             let sid = parts ! 3
             in case get_stream_diagnostics (io_clock io 0) (io_smi io) sid s of
                  Inl e \<Rightarrow> Answered 404 (AError (stream_not_found_error (io_clock io 1) sid))
                | Inr (Some a) \<Rightarrow> Answered 200 (AAnomaly sid a)
                | Inr None \<Rightarrow> Answered 200 (AHealthy sid))"

section \<open>Dashboard, topology, system and chaos\<close>

definition handle_control_panel :: "inputs \<Rightarrow> service \<Rightarrow> reply \<times> service" where
  "handle_control_panel io s =
     answer_outcome 200 APanel (get_control_panel (io_panel io) (io_clock io) (io_order io) s)"

definition handle_cluster_topology :: "inputs \<Rightarrow> http_request \<Rightarrow> service \<Rightarrow> reply \<times> service" where
  "handle_cluster_topology io r s =
     answer_outcome 200 ATopology
       (get_cluster_topology (io_host io) (io_order io) (io_smi io) (hq_query r ''stream_id'') s)"

definition handle_system_info :: "inputs \<Rightarrow> service \<Rightarrow> reply" where
  "handle_system_info io s = Answered 200 (AInfo (get_system_info (io_clock io 0) (io_smi io) s))"

definition handle_chaos_inject :: "http_env \<Rightarrow> inputs \<Rightarrow> http_request \<Rightarrow> reply" where
  "handle_chaos_inject env io r =
     (if hq_method r \<noteq> ''POST'' then Refused 405 ''POST required''
      else case Option.bind (hq_body r) (en_decode_chaos env) of
             None \<Rightarrow> Refused 400 ''invalid JSON''
           | Some ch \<Rightarrow>
               (case inject_chaos (io_u64 io) (io_clock io 0) (io_elapsed io) (Some ch) of
                  Inl e \<Rightarrow> Refused 500 (error_text e)
                | Inr res \<Rightarrow> Answered 200 (AChaos res)))"

definition handle_chaos_reset :: "http_request \<Rightarrow> service \<Rightarrow> reply \<times> service" where
  "handle_chaos_reset r s =
     (if hq_method r \<noteq> ''POST'' then (Refused 405 ''POST required'', s)
      else (Answered 200 (AText ''reset''), reset_chaos s))"

end
