(* ===== verification/HttpProbe.thy ===== *)
theory HttpProbe
  imports HttpBase
begin

text \<open>
  The handlers that ask cameras and look at sample files: \<^verbatim>\<open>HandleProbeStream\<close>, \<^verbatim>\<open>HandleListSamples\<close>,
  \<^verbatim>\<open>HandleDiscover\<close> and \<^verbatim>\<open>HandleProbe\<close> of \<^verbatim>\<open>onvif_handler.go\<close>, and \<^verbatim>\<open>handleSnapshot\<close>. The operations behind
  them are theories Probe, Onvif and Snapshot; here they meet the requests and the state of the
  service, of which they change the sample files only.
\<close>

section \<open>The sample files\<close>

text \<open>The name of a file that lies directly in the directory of samples.\<close>

definition sample_name :: "string \<Rightarrow> string option" where
  "sample_name f =
     (if has_prefix f ''samples/'' \<and> CHR ''/'' \<notin> set (drop 8 f) then Some (drop 8 f) else None)"

definition wrote :: "writes \<Rightarrow> service \<Rightarrow> service" where
  "wrote ws s = s\<lparr>sv_samples := sv_samples s \<union> set (List.map_filter (sample_name \<circ> fst) ws)\<rparr>"

section \<open>Probes\<close>

definition handle_probe_stream :: "http_env \<Rightarrow> inputs \<Rightarrow> http_request \<Rightarrow> service \<Rightarrow> reply \<times> service" where
  "handle_probe_stream env io r s =
     (if hq_method r \<noteq> ''POST'' then (Refused 405 ''method not allowed'', s)
      else
        (case Option.bind (hq_body r) (en_decode_probe env) of
           None \<Rightarrow> (Refused 400 ''invalid JSON body'', s)
         | Some q \<Rightarrow>
             let (resp, _, ws) = probe_stream (io_probe io) q
             in (Answered 200 (AProbe resp), wrote ws s)))"

definition handle_list_samples :: "inputs \<Rightarrow> reply" where
  "handle_list_samples io = Answered 200 (ASamples (list_samples (io_read_dir io) sample_dirs))"

definition handle_discover :: "http_env \<Rightarrow> inputs \<Rightarrow> http_request \<Rightarrow> reply" where
  "handle_discover env io r =
     (if hq_method r \<noteq> ''GET'' then Refused 405 ''method not allowed''
      else
        (case perform_discovery (pw_parse_url (io_probe io)) (en_split_host env) (io_packets io) of
           Returns devices \<Rightarrow> Answered 200 (ADevices devices)
         | Panics \<Rightarrow> Killed))"

definition asked_camera :: "inputs \<Rightarrow> onvif_request \<Rightarrow> soap_env" where
  "asked_camera io q = pw_soap (io_probe io) (if oq_port q \<le> 0 then 80 else oq_port q)"

definition handle_onvif_probe :: "http_env \<Rightarrow> inputs \<Rightarrow> http_request \<Rightarrow> service \<Rightarrow> reply \<times> service" where
  "handle_onvif_probe env io r s =
     (if hq_method r \<noteq> ''POST'' then (Refused 405 ''method not allowed'', s)
      else
        (case Option.bind (hq_body r) (en_decode_onvif env) of
           None \<Rightarrow> (Refused 400 ''invalid request body'', s)
         | Some q \<Rightarrow>
             (case service_probe (asked_camera io q) (oq_ip q) (oq_port q) (oq_user q) (oq_pass q) of
                (Inl e, ws) \<Rightarrow> (Refused 502 (error_text e), wrote ws s)
              | (Inr d, ws) \<Rightarrow> (Answered 200 (ADevice d), wrote ws s))))"

section \<open>Snapshots\<close>

definition snapshot_url :: "inputs \<Rightarrow> http_request \<Rightarrow> string \<Rightarrow> service \<Rightarrow> string" where
  "snapshot_url io r sid s =
     (let given = hq_query r ''url'';
          stored = (case get_stream sid s of Inl e \<Rightarrow> [] | Inr st \<Rightarrow> st_source_url st)
      in if given \<noteq> [] then given
         else if stored \<noteq> [] then stored
         else database_url (io_snapshot io) (path_base sid))"

definition is_refresh :: "http_request \<Rightarrow> bool" where
  "is_refresh r \<longleftrightarrow> hq_query r ''refresh'' = ''true'' \<or> hq_query r ''force'' = ''true''"

definition handle_snapshot :: "inputs \<Rightarrow> http_request \<Rightarrow> string \<Rightarrow> service \<Rightarrow> reply \<times> service" where
  "handle_snapshot io r sid s =
     (let base = path_base sid; x = io_snapshot io; url = snapshot_url io r sid s
      in if \<not> has_prefix (sample_path base) ''samples'' then (Refused 400 ''invalid path'', s)
         else if url = [] then
           (Answered 200 (AImage (standby x)), s\<lparr>sv_samples := remove_samples base (sv_samples s)\<rparr>)
         else
           let (img, _, ws) = take_picture x (is_refresh r) base url
           in (Answered 200 (AImage img), wrote ws s))"

section \<open>The file of a stream\<close>

lemma clean_two:
  assumes "CHR ''/'' \<notin> set f" and "f \<noteq> []" and "f \<noteq> ''.''" and "f \<noteq> ''..''"
  shows "path_clean (''samples/'' @ f) = ''samples/'' @ f"
proof -
  have "split_char CHR ''/'' (''samples'' @ CHR ''/'' # f) = ''samples'' # split_char CHR ''/'' f"
    by (rule split_char_join) simp
  then have "split_char CHR ''/'' (''samples/'' @ f) = [''samples'', f]"
    using assms(1) by (simp add: split_char_single)
  then show ?thesis using assms by (simp add: path_clean_def has_prefix_def)
qed

lemma sample_path_plain:
  assumes "CHR ''/'' \<notin> set base"
  shows "sample_path base = ''samples/'' @ base @ ''.jpg''"
proof -
  let ?f = "base @ ''.jpg''"
  have "length ?f \<ge> 4" by simp
  then have f: "CHR ''/'' \<notin> set ?f" "?f \<noteq> []" "?f \<noteq> ''.''" "?f \<noteq> ''..''" using assms by auto
  note c = clean_two [OF f]
  have "path_join [''samples'', ?f] = path_clean (''samples/'' @ ?f)" by (simp add: path_join_def)
  then show ?thesis unfolding sample_path_def using c by simp
qed

lemma sample_path_valid:
  assumes "is_valid_stream_id sid"
  shows "path_base sid = sid" and "has_prefix (sample_path sid) ''samples''"
    and "sample_path sid = ''samples/'' @ sid @ ''.jpg''"
  using valid_id_plain [OF assms] sample_path_plain [of sid]
  by (simp_all add: plain_name_def has_prefix_def)

lemma wrote_Nil [simp]: "wrote [] s = s"
  by (simp add: wrote_def List.map_filter_def)

lemma no_soap_device:
  assumes "\<And>k e a x. \<exists>b. se_call env k e a x = Inr b \<and> CHR ''<'' \<notin> set b"
  shows "\<exists>d. fst (probe_device env ip (if port \<le> 0 then 80 else port) user pass) = Inr d \<and> od_ip d = ip"
proof -
  let ?p = "if port \<le> 0 then 80 else port"
  have "device_at env ip ?p user pass = Inr (?p, [], [], [], [])"
    unfolding device_at_def no_soap_answers(1) [OF assms] by simp
  then show ?thesis using probe_device_Inr [of env ip ?p user pass ?p] by auto
qed

section \<open>Only the samples change\<close>

definition same_but_samples :: "service \<Rightarrow> service \<Rightarrow> bool" where
  "same_but_samples s s' \<longleftrightarrow> s' = s\<lparr>sv_samples := sv_samples s'\<rparr>"

lemma same_but_samples_refl [simp]: "same_but_samples s s"
  by (simp add: same_but_samples_def)

lemma same_but_samples_update [simp]: "same_but_samples s (s\<lparr>sv_samples := f\<rparr>)"
  by (simp add: same_but_samples_def)

lemma same_but_samples_wrote [simp]: "same_but_samples s (wrote ws s)"
  by (simp add: wrote_def)

lemma same_but_samplesD:
  assumes "same_but_samples s s'"
  shows "sv_repo s' = sv_repo s" "sv_ingestor s' = sv_ingestor s" "sv_frags s' = sv_frags s"
    "sv_whep s' = sv_whep s"
  using arg_cong [OF assms [unfolded same_but_samples_def], of sv_repo]
    arg_cong [OF assms [unfolded same_but_samples_def], of sv_ingestor]
    arg_cong [OF assms [unfolded same_but_samples_def], of sv_frags]
    arg_cong [OF assms [unfolded same_but_samples_def], of sv_whep] by simp_all

lemma camera_handlers_same:
  "same_but_samples s (snd (handle_probe_stream env io r s))"
  "same_but_samples s (snd (handle_onvif_probe env io r s))"
  "same_but_samples s (snd (handle_snapshot io r sid s))"
  by (simp_all add: handle_probe_stream_def handle_onvif_probe_def handle_snapshot_def Let_def
      split: option.split prod.split sum.split)

section \<open>What the handlers do without a guard\<close>

text \<open>
  Looking at an unknown picture deletes others: a request for the snapshot of an id without a source
  (no stream, no \<^verbatim>\<open>url\<close> in the query, no camera in the databases) is answered with the standby picture
  and deletes every sample file whose name has that id anywhere before \<^verbatim>\<open>.jpg\<close>, whosever stream
  it belongs to.
\<close>

lemma unknown_snapshot_purge:
  assumes "is_valid_stream_id sid" and "svc_stream s sid = None" and "hq_query r ''url'' = []"
    and "\<And>db. sx_database (io_snapshot io) db = False"
    and "CHR ''/'' \<notin> \<Union> (set ` sv_samples s)" and "handle_snapshot io r sid s = (a, s')"
  shows "a = Answered 200 (AImage (standby (io_snapshot io))) \<and>
    sv_samples s' = {f \<in> sv_samples s. \<not> (\<exists>u v. f = u @ sid @ v @ ''.jpg'')}"
proof -
  note p = sample_path_valid [OF assms(1)]
  have "sid \<noteq> []" using assms(1) by (auto simp: is_valid_stream_id_def)
  then have "snapshot_url io r sid s = []"
    using assms(2-4) by (simp add: snapshot_url_def get_stream_eq database_url_def)
  then have "handle_snapshot io r sid s = (Answered 200 (AImage (standby (io_snapshot io))),
      s\<lparr>sv_samples := remove_samples sid (sv_samples s)\<rparr>)"
    using p(2) by (simp add: handle_snapshot_def p(1))
  then have a: "a = Answered 200 (AImage (standby (io_snapshot io)))" "sv_samples s' = remove_samples sid (sv_samples s)"
    using assms(6) by auto
  have "CHR ''/'' \<notin> set f" if "f \<in> sv_samples s" for f using assms(5) that by auto
  then have "f \<in> remove_samples sid (sv_samples s) \<longleftrightarrow>
      f \<in> sv_samples s \<and> \<not> (\<exists>u v. f = u @ sid @ v @ ''.jpg'')" for f
    by (rule remove_samples_iff [OF conjunct1 [OF valid_id_plain [OF assms(1)]]])
  then show ?thesis using a by auto
qed

text \<open>
  The ONVIF endpoint asks any host: \<^verbatim>\<open>/api/v1/onvif/probe\<close> has no guard, so a host that the probe
  endpoint refuses (a loopback address, say) is asked all the same, and if the HTTP server there
  answers every call with a body without \<open><\<close>, it is reported as a camera on that host.
\<close>

lemma onvif_probe_unguarded:
  assumes "hq_method r = ''POST''" and "Option.bind (hq_body r) (en_decode_onvif env) = Some q" and "oq_ip q \<noteq> []"
    and "is_blocked_target (io_probe io) (oq_ip q) = Some e"
    and "\<And>k u a x. \<exists>b. se_call (asked_camera io q) k u a x = Inr b \<and> CHR ''<'' \<notin> set b"
    and "Option.bind (hq_body r) (en_decode_probe env) = Some p" and "to_lower (pq_protocol p) = ''onvif''"
    and "pq_ip p = oq_ip q"
  shows "(\<exists>d. fst (handle_onvif_probe env io r s) = Answered 200 (ADevice d) \<and> od_ip d = oq_ip q) \<and>
    handle_probe_stream env io r s = (Answered 200 (AProbe (blocked_response e)), s)"
proof
  obtain d where "fst (service_probe (asked_camera io q) (oq_ip q) (oq_port q) (oq_user q) (oq_pass q)) = Inr d"
      "od_ip d = oq_ip q"
    using no_soap_device [OF assms(5), of "oq_ip q" "oq_port q" "oq_user q" "oq_pass q"] assms(3)
    by (auto simp: service_probe_def)
  then show "\<exists>d. fst (handle_onvif_probe env io r s) = Answered 200 (ADevice d) \<and> od_ip d = oq_ip q"
    using assms(1,2) by (auto simp: handle_onvif_probe_def split: prod.split sum.split)
  have "probe_stream (io_probe io) p = (blocked_response e, [], [])"
    using assms(3,4,7,8)
    by (simp add: probe_stream_def probe_onvif_def given_target_def guarded_def Let_def)
  then show "handle_probe_stream env io r s = (Answered 200 (AProbe (blocked_response e)), s)"
    using assms(1,6) by (simp add: handle_probe_stream_def)
qed

end
