(* ===== verification/HttpStreams.thy ===== *)
theory HttpStreams
  imports HttpWhep HttpTelemetry HttpProbe
begin

text \<open>
  \<^verbatim>\<open>internal/adapters/primary/http/stream_handler.go\<close>: the collection of streams and a single stream
  with its sub-resources.
\<close>

section \<open>The collection\<close>

definition tenant_filter :: "http_request \<Rightarrow> caller \<Rightarrow> string" where
  "tenant_filter r c =
     (if cross_tenant c \<and> hq_query r ''tenant'' \<noteq> [] then hq_query r ''tenant''
      else if ca_role c = ''superadmin'' \<and> hq_query r ''all'' = ''true'' then []
      else ca_tenant c)"

definition query_int :: "int \<Rightarrow> string \<Rightarrow> int" where
  "query_int unset s = (if s = [] then unset else sscanf_into unset s)"

definition handle_list_streams :: "inputs \<Rightarrow> http_request \<Rightarrow> caller \<Rightarrow> service \<Rightarrow> reply \<times> service" where
  "handle_list_streams io r c s =
     (let page = query_int 1 (hq_query r ''page'');
          limit = query_int 10 (hq_query r ''limit'');
          sort_by = hq_query r ''sort_by''
      in answer_outcome 200 (\<lambda>(sts, n). AStreams sts n page limit sort_by)
           (list_streams (io_order io) (hq_query r ''search'') (tenant_filter r c) sort_by page limit s))"

text \<open>The image of the last probe becomes the first snapshot of a stream that has none.\<close>

definition adopt_probe_image :: "inputs \<Rightarrow> string \<Rightarrow> service \<Rightarrow> service" where
  "adopt_probe_image io sid s =
     (let target = path_base sid @ ''.jpg''
      in if target \<notin> sv_samples s \<and> io_probe_image io
         then s\<lparr>sv_samples := insert target (sv_samples s)\<rparr> else s)"

definition handle_create_stream ::
  "http_env \<Rightarrow> inputs \<Rightarrow> http_request \<Rightarrow> caller \<Rightarrow> service \<Rightarrow> reply \<times> service" where
  "handle_create_stream env io r c s =
     (if \<not> can_write c then (Refused 403 forbidden_roles, s)
      else
        (case Option.bind (hq_body r) (en_decode_stream env) of
           None \<Rightarrow> (Refused 400 ''invalid JSON body'', s)
         | Some st \<Rightarrow>
             if \<not> is_valid_stream_id (st_stream_id st)
             then (Refused 400 ''invalid stream_id: must be alphanumeric (1-64 chars)'', s)
             else if \<not> is_valid_source_url env (st_source_url st)
             then (Refused 400 ''invalid source_url: protocol not allowed'', s)
             else if st_substream_url st \<noteq> [] \<and> \<not> is_valid_source_url env (st_substream_url st)
             then (Refused 400 ''invalid substream_url: protocol not allowed'', s)
             else
               (case register_stream (io_clock io)
                       (st\<lparr>st_tenant_id := stamp_tenant c (st_tenant_id st)\<rparr>) s of
                  (Some e, _, s') \<Rightarrow> (Refused 400 (error_text e), s')
                | (None, st', s') \<Rightarrow>
                    (Answered 201 (AStream st'), adopt_probe_image io (st_stream_id st') s'))))"

definition handle_streams ::
  "http_env \<Rightarrow> inputs \<Rightarrow> http_request \<Rightarrow> caller \<Rightarrow> service \<Rightarrow> reply \<times> service" where
  "handle_streams env io r c s =
     (if hq_method r = ''GET'' then handle_list_streams io r c s
      else if hq_method r = ''POST'' then handle_create_stream env io r c s
      else (Refused 405 ''method not allowed'', s))"

section \<open>One stream\<close>

definition check_ownership :: "caller \<Rightarrow> string \<Rightarrow> service \<Rightarrow> go_error + stream" where
  "check_ownership c sid s =
     (case get_stream sid s of
        Inl e \<Rightarrow> Inl e
      | Inr st \<Rightarrow> if \<not> cross_tenant c \<and> st_tenant_id st \<noteq> ca_tenant c then Inl ErrStreamNotFound
                 else Inr st)"

definition when_owned ::
  "caller \<Rightarrow> string \<Rightarrow> service \<Rightarrow> (stream \<Rightarrow> reply \<times> service) \<Rightarrow> reply \<times> service" where
  "when_owned c sid s k =
     (case check_ownership c sid s of
        Inl e \<Rightarrow> (Refused 404 ''stream not found'', s) | Inr st \<Rightarrow> k st)"

definition show_ingest :: "inputs \<Rightarrow> string \<Rightarrow> service \<Rightarrow> reply" where
  "show_ingest io sid s =
     (case svc_ingest_stats (io_clock io 0) sid s of
        Inl e \<Rightarrow> (if e = ErrStreamNotFound then Refused 404 ''stream ingest session not found''
                  else Refused 500 (error_text e))
      | Inr stats \<Rightarrow> Answered 200 (AIngest stats))"

definition patch_consumer ::
  "http_env \<Rightarrow> inputs \<Rightarrow> http_request \<Rightarrow> string \<Rightarrow> string \<Rightarrow> service \<Rightarrow> reply \<times> service" where
  "patch_consumer env io r sid atype s =
     (case Option.bind (hq_body r) (en_decode_consumer env) of
        None \<Rightarrow> (Refused 400 ''invalid JSON'', s)
      | Some (fps, fmt) \<Rightarrow>
          (case svc_update_consumer (io_clock io) sid atype fps fmt s of
             (Some e, s') \<Rightarrow> (Refused 400 (error_text e), s')
           | (None, s') \<Rightarrow> (Answered 200 (AText ''updated''), s')))"

definition remove_stream :: "inputs \<Rightarrow> string \<Rightarrow> service \<Rightarrow> reply \<times> service" where
  "remove_stream io sid s =
     (case delete_stream (io_clock io) sid s of
        (Some e, s') \<Rightarrow>
          (if e = ErrStreamNotFound then Refused 404 ''stream not found'' else Refused 500 (error_text e), s')
      | (None, s') \<Rightarrow> (Answered 204 AEmpty, s'))"

definition denied :: string where
  "denied = ''forbidden: insufficient permissions''"

definition mjpeg_stream :: "string \<Rightarrow> service \<Rightarrow> stream" where
  "mjpeg_stream sid s =
     (case get_stream sid s of Inl e \<Rightarrow> zero_stream\<lparr>st_stream_id := sid\<rparr> | Inr st \<Rightarrow> st)"

text \<open>The handler after the stream id has been taken off the path: \<open>ps\<close> are the parts that follow it.\<close>

definition stream_resource ::
  "http_env \<Rightarrow> inputs \<Rightarrow> http_request \<Rightarrow> caller \<Rightarrow> string \<Rightarrow> string list \<Rightarrow> service \<Rightarrow> reply \<times> service" where
  "stream_resource env io r c sid ps s =
     (let n = length ps; p = (if n \<ge> 1 then ps ! 0 else []); q = (if n \<ge> 2 then ps ! 1 else [])
      in if n \<ge> 1 \<and> (p = ''snapshot'' \<or> p = ''snapshot.jpg'') then handle_snapshot io r sid s
         else if n \<ge> 1 \<and> p = ''mjpeg'' then (Handed (Mjpeg (mjpeg_stream sid s)), s)
         else if n \<ge> 1 \<and> p = ''stats'' then
           when_owned c sid s (\<lambda>st. (Answered 200 (AStream st), s))
         else if n \<ge> 1 \<and> p = ''ingest'' then when_owned c sid s (\<lambda>_. (show_ingest io sid s, s))
         else if n \<ge> 1 \<and> p = ''diagnostics'' then
           when_owned c sid s (\<lambda>_. (handle_stream_diagnostics io r s, s))
         else if n \<ge> 2 \<and> p = ''recordings'' \<and> q = ''fragments'' then
           when_owned c sid s (\<lambda>_. handle_stream_fragments env io r c sid (drop 2 ps) s)
         else if n \<ge> 1 \<and> p = ''whep'' then dispatch_whep io r sid (drop 1 ps) s
         else if n \<ge> 2 \<and> p = ''h264'' \<and> q = ''start'' then (Handed (H264Start sid), s)
         else if n \<ge> 2 \<and> p = ''h264'' \<and> q = ''stop'' then (Handed (H264Stop sid), s)
         else if n \<ge> 2 \<and> p = ''consumers'' \<and> hq_method r = ''PATCH'' then
           (if \<not> can_manage c then (Refused 403 denied, s)
            else when_owned c sid s (\<lambda>_. patch_consumer env io r sid q s))
         else if hq_method r = ''GET'' then when_owned c sid s (\<lambda>st. (Answered 200 (AStream st), s))
         else if hq_method r = ''DELETE'' then
           (if \<not> can_manage c then (Refused 403 denied, s)
            else when_owned c sid s (\<lambda>_. remove_stream io sid s))
         else (Refused 405 ''method not allowed'', s))"

definition handle_stream_by_id ::
  "http_env \<Rightarrow> inputs \<Rightarrow> http_request \<Rightarrow> caller \<Rightarrow> service \<Rightarrow> reply \<times> service" where
  "handle_stream_by_id env io r c s =
     (let parts = split_char CHR ''/'' (trim_prefix (hq_path r) ''/api/v1/streams/'')
      in if hd parts = [] then (Refused 400 ''stream_id required'', s)
         else if \<not> is_valid_stream_id (hd parts) then (Refused 400 ''invalid stream_id'', s)
         else stream_resource env io r c (hd parts) (tl parts) s)"

section \<open>What a request on one stream can change\<close>

lemma owned_cases:
  assumes "check_ownership c sid s = Inr st"
  shows "svc_stream s sid = Some st" and "cross_tenant c \<or> st_tenant_id st = ca_tenant c"
  using assms by (auto simp: check_ownership_def get_stream_eq split: if_splits option.splits)

lemma not_owned:
  "\<not> cross_tenant c \<Longrightarrow> svc_stream s sid = Some st \<Longrightarrow> st_tenant_id st \<noteq> ca_tenant c \<Longrightarrow>
   when_owned c sid s k = (Refused 404 ''stream not found'', s)"
  by (simp add: when_owned_def check_ownership_def get_stream_eq)

definition same_streams :: "service \<Rightarrow> service \<Rightarrow> bool" where
  "same_streams s s' \<longleftrightarrow> svc_stream s' = svc_stream s \<and> svc_session s' = svc_session s"

lemma same_streams_refl [simp]: "same_streams s s"
  by (simp add: same_streams_def)

lemma same_streams_of: "sv_repo s' = sv_repo s \<Longrightarrow> sv_ingestor s' = sv_ingestor s \<Longrightarrow> same_streams s s'"
  by (simp add: same_streams_def svc_stream_def svc_session_def fun_eq_iff)

lemma same_streams_save: "same_streams s (snd (snd (save_recording_fragment clock ft wr files f data s)))"
  by (rule same_streams_of)
    (auto simp: save_recording_fragment_def Let_def split: option.splits prod.splits)

lemma snd_case_saved:
  "snd (case p of (Some e, f, s') \<Rightarrow> (g e, s') | (None, f, s') \<Rightarrow> (h f, s')) = snd (snd p)"
  by (simp split: prod.split option.split)

lemma same_streams_upload: "same_streams s (snd (handle_upload_fragment env io r c sid s))"
  by (simp add: handle_upload_fragment_def snd_case_saved same_streams_save split: option.split prod.split)

lemma same_streams_by_id: "snd (handle_fragment_by_id r c sid fid s) = s"
  by (simp add: handle_fragment_by_id_def Let_def split: sum.split prod.split option.split)

lemma same_streams_fragments: "same_streams s (snd (handle_stream_fragments env io r c sid ps s))"
  by (simp add: handle_stream_fragments_def same_streams_upload same_streams_by_id
      handle_list_fragments_def Let_def)

lemma same_streams_whep: "same_streams s (snd (dispatch_whep io r sid ps s))"
  using same_but_whepD [OF same_but_whep_dispatch [of s io r sid ps]] by (simp add: same_streams_def)

lemma same_streams_snapshot: "same_streams s (snd (handle_snapshot io r sid s))"
  using same_but_samplesD [OF camera_handlers_same(3) [of s io r sid]] by (intro same_streams_of)

text \<open>At most the stream \<open>sid\<close> and its session differ.\<close>

definition only_at :: "string \<Rightarrow> service \<Rightarrow> service \<Rightarrow> bool" where
  "only_at sid s s' \<longleftrightarrow>
     (\<forall>i. i \<noteq> sid \<longrightarrow> svc_stream s' i = svc_stream s i \<and> svc_session s' i = svc_session s i)"

lemma only_at_same: "same_streams s s' \<Longrightarrow> only_at sid s s'"
  by (simp add: same_streams_def only_at_def)

lemma snd_case_option:
  "snd (case p of (Some e, s') \<Rightarrow> (g e, s') | (None, s') \<Rightarrow> (h, s')) = snd p"
  by (simp split: prod.split option.split)

lemma update_consumer_only_at: "only_at sid s (snd (svc_update_consumer clock sid a fps fmt s))"
  by (auto simp: only_at_def svc_update_consumer_def svc_stream_def svc_session_def
      update_consumer_fps_eq Let_def streams.get_put split: option.splits)

lemma patch_consumer_only_at: "only_at sid s (snd (patch_consumer env io r sid a s))"
  using update_consumer_only_at
  by (simp add: patch_consumer_def snd_case_option only_at_same split: option.split prod.split)

lemma remove_stream_only_at: "only_at sid s (snd (remove_stream io sid s))"
proof (cases "sid = []")
  case False
  note d = delete_stream_effect [OF False prod.collapse [symmetric], of "io_clock io" s]
  have "only_at sid s (snd (delete_stream (io_clock io) sid s))"
    using d(2,3) by (simp add: only_at_def)
  then show ?thesis by (simp add: remove_stream_def snd_case_option)
qed (simp add: remove_stream_def delete_stream_empty only_at_same)

lemma when_owned_only_at:
  "(\<And>st. check_ownership c sid s = Inr st \<Longrightarrow> only_at sid s (snd (k st))) \<Longrightarrow>
   only_at sid s (snd (when_owned c sid s k))"
  by (simp add: when_owned_def only_at_same split: sum.split)

lemma if_closed: "Q a \<Longrightarrow> Q b \<Longrightarrow> Q (if P then a else b)"
  by simp

lemma stream_resource_only_at: "only_at sid s (snd (stream_resource env io r c sid ps s))"
  unfolding stream_resource_def Let_def
  by (intro if_closed [where Q = "\<lambda>x. only_at sid s (snd x)"] when_owned_only_at)
    (simp_all add: only_at_same same_streams_fragments same_streams_whep same_streams_snapshot patch_consumer_only_at
      remove_stream_only_at del: One_nat_def)

lemma stream_resource_foreign:
  assumes "\<not> cross_tenant c" and "svc_stream s sid = Some st" and "st_tenant_id st \<noteq> ca_tenant c"
  shows "same_streams s (snd (stream_resource env io r c sid ps s))"
  unfolding stream_resource_def Let_def not_owned [OF assms]
  by (intro if_closed [where Q = "\<lambda>x. same_streams s (snd x)"])
    (simp_all add: same_streams_whep same_streams_snapshot del: One_nat_def)

text \<open>The stream an answer shows.\<close>

fun shown_stream :: "reply \<Rightarrow> stream option" where
  "shown_stream (Answered n (AStream st)) = Some st"
| "shown_stream _ = None"

lemma fst_case_result:
  "fst (case p of (Inl e, s') \<Rightarrow> (f e, s') | (Inr a, s') \<Rightarrow> (g a, s')) =
     (case fst p of Inl e \<Rightarrow> f e | Inr a \<Rightarrow> g a)"
  by (simp split: prod.split sum.split)

lemma shown_ingest [simp]: "shown_stream (show_ingest io sid s) = None"
  by (simp add: show_ingest_def split: sum.split)

lemma shown_snapshot [simp]: "shown_stream (fst (handle_snapshot io r sid s)) = None"
  by (simp add: handle_snapshot_def Let_def split: prod.split)

lemma shown_diagnostics [simp]: "shown_stream (handle_stream_diagnostics io r s) = None"
  by (simp add: handle_stream_diagnostics_def Let_def split: sum.split option.split)

lemma shown_whep_handlers [simp]:
  "shown_stream (fst (handle_post_offer io r sid s)) = None"
  "shown_stream (fst (handle_patch_candidate r sid w s)) = None"
  "shown_stream (fst (handle_delete_session io sid w s)) = None"
  "shown_stream (handle_get_info sid) = None"
  by (simp_all add: handle_post_offer_def handle_patch_candidate_def handle_delete_session_def
      handle_get_info_def fst_case_result split: sum.split option.split)

lemma shown_whep [simp]: "shown_stream (fst (dispatch_whep io r sid sub s)) = None"
  by (simp add: dispatch_whep_def Let_def)

lemma fst_case_option:
  "fst (case p of (Some e, s') \<Rightarrow> (f e, s') | (None, s') \<Rightarrow> (h, s')) =
     (case fst p of Some e \<Rightarrow> f e | None \<Rightarrow> h)"
  by (simp split: prod.split option.split)

lemma shown_remove [simp]: "shown_stream (fst (remove_stream io sid s)) = None"
  by (simp add: remove_stream_def fst_case_option split: option.split)

lemma shown_patch [simp]: "shown_stream (fst (patch_consumer env io r sid a s)) = None"
  by (cases "Option.bind (hq_body r) (en_decode_consumer env)")
    (auto simp: patch_consumer_def fst_case_option split: option.split prod.split)

lemma shown_upload [simp]: "shown_stream (fst (handle_upload_fragment env io r c sid s)) = None"
  by (auto simp: handle_upload_fragment_def split: option.split prod.split)

lemma shown_by_id [simp]: "shown_stream (fst (handle_fragment_by_id r c sid fid s)) = None"
  by (auto simp: handle_fragment_by_id_def Let_def split: sum.split option.split prod.split)

lemma shown_fragments [simp]: "shown_stream (fst (handle_stream_fragments env io r c sid sub s)) = None"
  by (simp add: handle_stream_fragments_def handle_list_fragments_def Let_def)

definition shows_owned :: "caller \<Rightarrow> string \<Rightarrow> service \<Rightarrow> reply \<times> service \<Rightarrow> bool" where
  "shows_owned c sid s a \<longleftrightarrow> (\<forall>st. shown_stream (fst a) = Some st \<longrightarrow> check_ownership c sid s = Inr st)"

lemma shows_owned_when:
  "(\<And>st. shown_stream (fst (k st)) \<in> {None, Some st}) \<Longrightarrow> shows_owned c sid s (when_owned c sid s k)"
  unfolding shows_owned_def when_owned_def
  by (auto split: sum.split) (metis option.sel option.simps(3))

lemma stream_resource_shows: "shows_owned c sid s (stream_resource env io r c sid ps s)"
  unfolding stream_resource_def Let_def
  by (intro if_closed [where Q = "shows_owned c sid s"] shows_owned_when)
    (simp_all add: shows_owned_def del: One_nat_def)

section \<open>Paths of stream requests\<close>

lemma split_join_str:
  "ps \<noteq> [] \<Longrightarrow> (\<forall>p \<in> set ps. c \<notin> set p) \<Longrightarrow> split_char c (join_str [c] ps) = ps"
  by (induction ps rule: induct_list012) (simp_all add: split_char_join split_char_single)

definition stream_path :: "string list \<Rightarrow> string" where
  "stream_path ps = ''/api/v1/streams/'' @ join_str ''/'' ps"

lemma handle_by_path:
  assumes "hq_path r = stream_path (sid # ps)" and "is_valid_stream_id sid"
    and "\<forall>p \<in> set ps. CHR ''/'' \<notin> set p"
  shows "handle_stream_by_id env io r c s = stream_resource env io r c sid ps s"
proof -
  have sid: "CHR ''/'' \<notin> set sid" "sid \<noteq> []"
    using valid_id_plain [OF assms(2)] by (simp_all add: plain_name_def)
  have "trim_prefix (hq_path r) ''/api/v1/streams/'' = join_str ''/'' (sid # ps)"
    by (simp add: assms(1) stream_path_def trim_prefix_def has_prefix_def)
  then show ?thesis
    using split_join_str [of "sid # ps" "CHR ''/''"] sid assms(2,3) by (simp add: handle_stream_by_id_def)
qed

lemma handle_by_id_cases:
  "(\<exists>n m. handle_stream_by_id env io r c s = (Refused n m, s)) \<or>
   (\<exists>sid ps. handle_stream_by_id env io r c s = stream_resource env io r c sid ps s)"
  by (auto simp: handle_stream_by_id_def Let_def)

section \<open>Properties\<close>

text \<open>
  C1: Tenants are isolated on \<^verbatim>\<open>/api/v1/streams/{id}\<close>: whatever request a caller without a cross-tenant
  role makes there (any method, any sub-resource, any body), a stream of another tenant and its
  ingest session stay as they are, and a stream that is shown belongs to the caller's tenant.
\<close>

theorem tenants_isolated:
  assumes "\<not> cross_tenant c" and "svc_stream s i = Some st" and "st_tenant_id st \<noteq> ca_tenant c"
    and "handle_stream_by_id env io r c s = (a, s')"
  shows "svc_stream s' i = Some st \<and> svc_session s' i = svc_session s i \<and>
    (case shown_stream a of None \<Rightarrow> True | Some x \<Rightarrow> st_tenant_id x = ca_tenant c)"
proof (cases "\<exists>n m. handle_stream_by_id env io r c s = (Refused n m, s)")
  case True
  then show ?thesis using assms(2,4) by auto
next
  case False
  then obtain sid ps where p: "stream_resource env io r c sid ps s = (a, s')"
    using handle_by_id_cases [of env io r c s] assms(4) by auto
  have "svc_stream s' i = Some st \<and> svc_session s' i = svc_session s i"
  proof (cases "sid = i")
    case True
    then show ?thesis
      using stream_resource_foreign [OF assms(1-3), of env io r ps] assms(2) p
      by (simp add: same_streams_def)
  next
    case False
    then show ?thesis
      using stream_resource_only_at [of sid s env io r c ps] assms(2) by (simp add: p only_at_def)
  qed
  moreover have "st_tenant_id x = ca_tenant c" if "shown_stream a = Some x" for x
    using stream_resource_shows [of c sid s env io r ps] owned_cases(2) [of c sid s x] that assms(1)
    by (simp add: p shows_owned_def)
  ultimately show ?thesis by (simp split: option.split)
qed

text \<open>
  Media ignore the tenant: for every caller, \<^verbatim>\<open>mjpeg\<close> of a registered stream is started on the
  stream as it is stored, whose source URL may carry the camera's password, \<^verbatim>\<open>h264/start\<close> and
  \<^verbatim>\<open>h264/stop\<close> act on it, and \<^verbatim>\<open>snapshot\<close> is answered with its current picture, although the same
  caller is told by GET that there is no such stream.
\<close>

theorem media_ignore_tenant:
  assumes "is_valid_stream_id sid" and "svc_stream s sid = Some st"
    and "\<not> cross_tenant c" and "st_tenant_id st \<noteq> ca_tenant c"
    and "st_source_url st \<noteq> []" and "hq_query r ''url'' = []"
  shows "handle_stream_by_id env io (r\<lparr>hq_path := stream_path [sid, ''mjpeg'']\<rparr>) c s = (Handed (Mjpeg st), s) \<and>
    handle_stream_by_id env io (r\<lparr>hq_path := stream_path [sid, ''h264'', ''start'']\<rparr>) c s = (Handed (H264Start sid), s) \<and>
    handle_stream_by_id env io (r\<lparr>hq_path := stream_path [sid, ''h264'', ''stop'']\<rparr>) c s = (Handed (H264Stop sid), s) \<and>
    fst (handle_stream_by_id env io (r\<lparr>hq_path := stream_path [sid, ''snapshot'']\<rparr>) c s) =
      Answered 200 (AImage (fst (take_picture (io_snapshot io) (is_refresh r) sid (st_source_url st)))) \<and>
    handle_stream_by_id env io (r\<lparr>hq_method := ''GET'', hq_path := stream_path [sid]\<rparr>) c s =
      (Refused 404 ''stream not found'', s)"
proof -
  have by_path: "handle_stream_by_id env io (r'\<lparr>hq_path := stream_path (sid # ps)\<rparr>) c s =
      stream_resource env io (r'\<lparr>hq_path := stream_path (sid # ps)\<rparr>) c sid ps s"
    if "\<forall>p \<in> set ps. CHR ''/'' \<notin> set p" for ps r'
    using handle_by_path [OF _ assms(1) that, of "r'\<lparr>hq_path := stream_path (sid # ps)\<rparr>"] by simp
  have "sid \<noteq> []" using assms(1) by (auto simp: is_valid_stream_id_def)
  then have m: "mjpeg_stream sid s = st" and g: "get_stream sid s = Inr st"
    using assms(2) by (simp_all add: mjpeg_stream_def get_stream_eq)
  have snap: "fst (handle_snapshot io (r\<lparr>hq_path := p\<rparr>) sid s) =
      Answered 200 (AImage (fst (take_picture (io_snapshot io) (is_refresh r) sid (st_source_url st))))" for p
    using sample_path_valid(1,2) [OF assms(1)] assms(5,6)
    by (simp add: handle_snapshot_def snapshot_url_def g Let_def case_prod_beta is_refresh_def)
  show ?thesis
    using by_path [of "[''mjpeg'']"] by_path [of "[''h264'', ''start'']"] by_path [of "[''h264'', ''stop'']"]
      by_path [of "[''snapshot'']"] by_path [of "[]" "r\<lparr>hq_method := ''GET''\<rparr>"]
    by (simp add: stream_resource_def m snap not_owned [OF assms(3,2,4)])
qed

text \<open>
  C38: Registration takes streams over: an operator of one tenant who posts a stream under the id of
  another tenant's stream replaces it. It then belongs to the operator's tenant, its former owner
  is told that it does not exist, and an ingest session that runs keeps pulling from the former
  owner's camera.
\<close>

theorem post_takes_over_stream:
  assumes "svc_stream s sid = Some old" and "st_tenant_id old \<noteq> ca_tenant c"
    and "\<not> cross_tenant c" and "can_write c" and "hq_method r = ''POST''"
    and "Option.bind (hq_body r) (en_decode_stream env) = Some st" and "st_stream_id st = sid"
    and "is_valid_stream_id sid" and "is_valid_source_url env (st_source_url st)"
    and "st_substream_url st = []" and "svc_session s sid = Some sess"
    and "\<not> cross_tenant owner" and "ca_tenant owner = st_tenant_id old"
    and "handle_streams env io r c s = (a, s')"
  shows "\<exists>st'. a = Answered 201 (AStream st') \<and> svc_stream s' sid = Some st' \<and>
    st_tenant_id st' = ca_tenant c \<and> svc_session s' sid = Some sess \<and>
    check_ownership owner sid s' = Inl ErrStreamNotFound"
proof -
  let ?st = "st\<lparr>st_tenant_id := ca_tenant c\<rparr>"
  have sid: "sid \<noteq> []" using assms(8) by (auto simp: is_valid_stream_id_def)
  obtain e st' s1 where reg: "register_stream (io_clock io) ?st s = (e, st', s1)" by (metis surj_pair)
  have "st_stream_id ?st \<noteq> []" using sid assms(7) by simp
  note v = register_valid [OF this reg]
  have t: "stamp_tenant c (st_tenant_id st) = ca_tenant c" using assms(3) by (simp add: stamp_tenant_def)
  have keep: "svc_stream (adopt_probe_image io i s1) = svc_stream s1"
      "svc_session (adopt_probe_image io i s1) = svc_session s1" for i
    by (simp_all add: adopt_probe_image_def Let_def svc_stream_def svc_session_def fun_eq_iff)
  have "a = Answered 201 (AStream st')" "s' = adopt_probe_image io (st_stream_id st') s1"
    using assms(4-10,14) reg v(1) by (simp_all add: handle_streams_def handle_create_stream_def t)
  moreover have "svc_stream s1 sid = Some st'" "svc_session s1 sid = Some sess"
    using v(3,4) [of sid] assms(7,11) by simp_all
  moreover have "st_tenant_id st' = ca_tenant c" using v(2) by simp
  ultimately show ?thesis
    using assms(2,12,13) sid keep by (simp add: check_ownership_def get_stream_eq)
qed

text \<open>
  C35: The listing keeps to the caller's tenant up to letter case: with a tenant that is not blank and
  no cross-tenant role, every stream that GET \<^verbatim>\<open>/api/v1/streams\<close> shows is a stored stream whose tenant
  differs from the caller's at most in letter case and surrounding blanks, whatever the query asks.
\<close>

theorem listing_keeps_tenant:
  assumes "\<not> cross_tenant c" and "trim_space (ca_tenant c) \<noteq> []" and "hq_method r = ''GET''"
    and "map_order (io_order io) (sr_streams (sv_repo s))"
    and "handle_streams env io r c s = (Answered n (AStreams sts t p l b), s')" and "st \<in> set sts"
  shows "to_lower (st_tenant_id st) = to_lower (trim_space (ca_tenant c)) \<and>
    (\<exists>i st0. svc_stream s i = Some st0 \<and> st_tenant_id st = st_tenant_id st0 \<and> st_stream_id st = st_stream_id st0)"
proof -
  have f: "tenant_filter r c = ca_tenant c"
    using assms(1) by (auto simp: tenant_filter_def cross_tenant_def)
  obtain pg lm repo' where "list_filtered (io_order io) (hq_query r ''search'') (ca_tenant c)
      (hq_query r ''sort_by'') pg lm (sv_repo s) = (Returns (sts, t), repo')"
    using assms(3,5)
    by (auto simp: handle_streams_def handle_list_streams_def list_streams_def f Let_def
        elim!: answer_outcome.elims split: prod.splits)
  note m = list_filtered_member [OF assms(4,2) this assms(6)]
  then show ?thesis unfolding svc_stream_def by (metis settle_score_simps(1,2))
qed

text \<open>
  The ownership check of an upload can be passed with another stream: a caller who owns stream
  \<open>own\<close> and posts there a JSON fragment that names another stream has it stored under that other
  stream, whoever owns it, where GetRecordingFragment then finds it.
\<close>

theorem upload_to_other_stream:
  assumes "is_valid_stream_id own" and "hq_path r = stream_path [own, ''recordings'', ''fragments'']"
    and "hq_method r = ''POST''" and "check_ownership c own s = Inr st"
    and "read_upload env r own = Some (f, content)" and "fr_stream_id f \<noteq> own"
    and "handle_stream_by_id env io r c s = (Answered n (AFragmentCreated h), s')"
  shows "fr_stream_id h = fr_stream_id f \<and>
    (\<exists>d. get_recording_fragment (fr_stream_id f) (fr_id h) s' = Inr (h, d))"
proof -
  have "handle_stream_by_id env io r c s =
      stream_resource env io r c own [''recordings'', ''fragments''] s"
    by (rule handle_by_path [OF assms(2,1)]) simp
  also have "\<dots> = handle_upload_fragment env io r c own s"
    using assms(3,4) by (simp add: stream_resource_def when_owned_def handle_stream_fragments_def)
  finally have u: "handle_upload_fragment env io r c own s = (Answered n (AFragmentCreated h), s')"
    using assms(7) by simp
  obtain g fr0 fr now1 now2 now3 where a: "is_valid_stream_id (fr_stream_id f)"
      "fr_stream_id g = fr_stream_id f"
      "frag_save now1 now2 now3 (io_write io) g content fr0 = (None, h, fr)" "sv_frags s' = Some fr"
    by (rule upload_accepted [OF u]) (use assms(5) in simp)
  have "clean_name (fr_stream_id g) = fr_stream_id g" using a(1,2) by (simp add: clean_valid_id)
  note saved = frag_saved(1,6) [OF a(3) this]
  then show ?thesis using a(2) by (simp add: get_recording_fragment_def a(4))
qed

section \<open>Concrete requests\<close>

definition get_request :: "string list \<Rightarrow> http_request" where
  "get_request ps = json_post\<lparr>hq_method := ''GET'', hq_path := stream_path ps\<rparr>"

definition beta_operator :: caller where
  "beta_operator = \<lparr>ca_tenant = ''beta'', ca_user = ''v'', ca_role = ''operator''\<rparr>"

lemma beta_operator_simps [simp]:
  "ca_tenant beta_operator = ''beta''" "\<not> cross_tenant beta_operator" "can_write beta_operator"
  by (simp_all add: beta_operator_def cross_tenant_def can_write_def)

lemma cam_stored: "svc_stream cam_service ''cam1'' = Some (set_defaults 7 cam)"
  by (simp add: cam_service_stream)

lemma valid_cam1: "is_valid_stream_id ''cam1''"
  by (simp add: is_valid_stream_id_def id_char_def)

theorem tenants_isolated_witness:
  "svc_stream (snd (handle_stream_by_id (json_env zero_fragment []) plain_io
     ((get_request [''cam1''])\<lparr>hq_method := ''DELETE''\<rparr>) beta_operator cam_service)) ''cam1'' =
     Some (set_defaults 7 cam)"
  using tenants_isolated [OF _ cam_stored _ prod.collapse [symmetric], of beta_operator "json_env zero_fragment []" plain_io
      "(get_request [''cam1''])\<lparr>hq_method := ''DELETE''\<rparr>"] by simp

lemma cam_source: "st_source_url (set_defaults 7 cam) \<noteq> []"
  by (simp add: set_defaults_def cam_def Let_def)

theorem media_ignore_tenant_witness:
  "handle_stream_by_id (json_env zero_fragment []) plain_io
     (json_post\<lparr>hq_path := stream_path [''cam1'', ''mjpeg'']\<rparr>) beta_operator cam_service =
     (Handed (Mjpeg (set_defaults 7 cam)), cam_service)"
  using media_ignore_tenant [OF valid_cam1 cam_stored, of beta_operator json_post "json_env zero_fragment []"
      plain_io] cam_source by (simp add: json_post_def)

definition thief_env :: http_env where
  "thief_env = (json_env zero_fragment [])
     \<lparr>en_decode_stream := (\<lambda>b. Some (zero_stream\<lparr>st_stream_id := ''cam1'', st_source_url := ''rtsp://x''\<rparr>))\<rparr>"

lemma thief_stream:
  "Option.bind (hq_body json_post) (en_decode_stream thief_env) =
     Some (zero_stream\<lparr>st_stream_id := ''cam1'', st_source_url := ''rtsp://x''\<rparr>)"
  by (simp add: thief_env_def json_post_def)

lemma thief_url: "is_valid_source_url thief_env ''rtsp://x''"
proof -
  have "to_lower ''rtsp'' = ''rtsp''" by code_simp
  then show ?thesis by (simp add: is_valid_source_url_def thief_env_def json_env_def)
qed

lemma cam_session: "svc_session cam_service ''cam1'' = Some (new_session 7 (set_defaults 7 cam))"
  using register_valid(4) [OF _ cam_registered, of "''cam1''"] by simp

theorem post_takes_over_stream_witness:
  "\<exists>st' s'. handle_streams thief_env plain_io json_post beta_operator cam_service =
       (Answered 201 (AStream st'), s') \<and>
     check_ownership alpha_operator ''cam1'' s' = Inl ErrStreamNotFound"
  using post_takes_over_stream [OF cam_stored _ _ _ _ thief_stream _ valid_cam1 _ _ cam_session _ _
      prod.collapse [symmetric], of beta_operator alpha_operator plain_io] thief_url
  by (auto simp: json_post_def zero_stream_def prod_eq_iff)

lemma cam_order: "map_order [''cam1''] (sr_streams (sv_repo cam_service))"
proof -
  have "dom (sr_streams (sv_repo cam_service)) = {''cam1''}"
    using cam_service_stream by (auto simp: svc_stream_def repo_get_def dom_def split: if_splits)
  then show ?thesis by (simp add: map_order_def)
qed

definition shouting_operator :: caller where
  "shouting_operator = alpha_operator\<lparr>ca_tenant := ''ALPHA''\<rparr>"

lemma cam_streams: "sr_streams (sv_repo cam_service) = [''cam1'' \<mapsto> set_defaults 7 cam]"
  using cam_service_stream by (auto simp: svc_stream_def repo_get_def fun_eq_iff)

lemma shouting_matches: "stream_matches (to_lower (trim_space [])) (to_lower (trim_space ''ALPHA'')) (settle_score (set_defaults 7 cam))"
proof -
  have "to_lower (trim_space ''ALPHA'') = ''alpha''" "to_lower (trim_space []) = []"
    "to_lower ''alpha'' = ''alpha''" by code_simp+
  then show ?thesis by (simp add: stream_matches_def)
qed

lemma shouting_list:
  "handle_streams (json_env zero_fragment []) plain_io (get_request []) shouting_operator cam_service =
     (Answered 200 (AStreams [settle_score (set_defaults 7 cam)] 1 1 10 []),
      cam_service\<lparr>sv_repo := settle_all (sv_repo cam_service)\<rparr>)"
  using shouting_matches
  by (simp add: handle_streams_def handle_list_streams_def get_request_def json_post_def tenant_filter_def
      shouting_operator_def alpha_operator_def cross_tenant_def query_int_def list_streams_def plain_io_def
      list_filtered_def sorted_matches_def settle_all_def cam_streams Let_def page_of_def go_slice_def i64_def)

theorem listing_keeps_tenant_witness:
  "to_lower (st_tenant_id (settle_score (set_defaults 7 cam))) = to_lower (trim_space ''ALPHA'') \<and>
   check_ownership shouting_operator ''cam1'' cam_service = Inl ErrStreamNotFound"
  using listing_keeps_tenant [OF _ _ _ _ shouting_list]
  by (simp add: shouting_operator_def alpha_operator_def cross_tenant_def trim_space_Nil_iff is_space_def
      get_request_def plain_io_def cam_order check_ownership_def get_stream_eq cam_stored)

definition upload_request :: http_request where
  "upload_request = json_post\<lparr>hq_path := stream_path [''cam1'', ''recordings'', ''fragments'']\<rparr>"

theorem upload_to_other_stream_witness:
  "\<exists>h d s'. handle_stream_by_id (json_env (sample_fragment\<lparr>fr_path := []\<rparr>) ''ab'') plain_io upload_request
       alpha_operator (cam_service\<lparr>sv_frags := Some passwd_repo\<rparr>) = (Answered 201 (AFragmentCreated h), s') \<and>
     get_recording_fragment ''cam'' (fr_id h) s' = Inr (h, d)"
proof -
  let ?s = "cam_service\<lparr>sv_frags := Some passwd_repo\<rparr>"
  let ?env = "json_env (sample_fragment\<lparr>fr_path := []\<rparr>) ''ab''"
  have read: "read_upload ?env upload_request ''cam1'' = Some (sample_fragment\<lparr>fr_path := []\<rparr>, str_bytes ''ab'')"
    unfolding upload_request_def by (rule read_json)
  obtain h s' where u: "handle_upload_fragment ?env plain_io upload_request alpha_operator ''cam1'' ?s =
      (Answered 201 (AFragmentCreated h), s')"
    using json_upload [OF _ read, of ?s] by auto
  have own: "check_ownership alpha_operator ''cam1'' ?s = Inr (set_defaults 7 cam)"
    using cam_stored by (simp add: check_ownership_def get_stream_eq svc_stream_def)
  have "handle_stream_by_id ?env plain_io upload_request alpha_operator ?s =
      stream_resource ?env plain_io upload_request alpha_operator ''cam1'' [''recordings'', ''fragments''] ?s"
    by (rule handle_by_path) (simp_all add: upload_request_def valid_cam1)
  also have "\<dots> = (Answered 201 (AFragmentCreated h), s')"
    using u own by (simp add: stream_resource_def when_owned_def handle_stream_fragments_def
        upload_request_def json_post_def)
  finally have posted: "handle_stream_by_id ?env plain_io upload_request alpha_operator ?s =
      (Answered 201 (AFragmentCreated h), s')" .
  have other: "fr_stream_id (sample_fragment\<lparr>fr_path := []\<rparr>) = ''cam''"
    by (simp add: sample_fragment_def zero_fragment_def)
  show ?thesis
    using upload_to_other_stream [OF valid_cam1 _ _ own read _ posted] posted
    by (auto simp: other upload_request_def json_post_def)
qed

end
