(* ===== verification/HttpRoutes.thy ===== *)
theory HttpRoutes
  imports HttpStreams
begin

text \<open>
  \<^verbatim>\<open>router.go\<close>, \<^verbatim>\<open>stream_handler_publish.go\<close> and the import of \<^verbatim>\<open>onvif_handler.go\<close>: the route table
  with its protection, and the whole server as one function of a request. The routes are those of
  \<^verbatim>\<open>RegisterRoutes\<close>, matched as \<^verbatim>\<open>http.ServeMux\<close> does, behind \<^verbatim>\<open>WithCORS\<close> as in \<^verbatim>\<open>cmd/hydrastream/main.go\<close>.
\<close>

section \<open>Publishing\<close>

definition host_for_publish :: "http_env \<Rightarrow> http_request \<Rightarrow> string" where
  "host_for_publish env r =
     (if en_variable env ''PUBLIC_HOST'' \<noteq> [] then en_variable env ''PUBLIC_HOST''
      else
        let host = (case en_split_host env (hq_host r) of Some h \<Rightarrow> h | None \<Rightarrow> hq_host r)
        in if host = [] \<or> host = ''localhost'' \<or> host = ''127.0.0.1'' then ''127.0.0.1'' else host)"

definition variable_or :: "http_env \<Rightarrow> string \<Rightarrow> string \<Rightarrow> string" where
  "variable_or env name unset = (if en_variable env name = [] then unset else en_variable env name)"

definition pending_stream :: "gotime \<Rightarrow> string \<Rightarrow> string \<Rightarrow> string \<Rightarrow> stream" where
  "pending_stream now tenant sid url =
     zero_stream\<lparr>st_tenant_id := tenant, st_stream_id := sid, st_source_url := url,
       st_decoding_engine := ''native_rtmp_wsp'', st_status := ''waiting_stream'',
       st_resolution := ''1920x1080'', st_codec := ''h264'', st_ingest_fps := rnd 30,
       st_created_at := now\<rparr>"

definition handle_publish ::
  "http_env \<Rightarrow> inputs \<Rightarrow> http_request \<Rightarrow> caller \<Rightarrow> service \<Rightarrow> reply \<times> service" where
  "handle_publish env io r c s =
     (if hq_method r \<noteq> ''POST'' then (Refused 405 ''method not allowed'', s)
      else if \<not> can_write c then (Refused 403 forbidden_roles, s)
      else
        let clock = io_clock io;
            given = trim_space (case hq_body r of None \<Rightarrow> [] | Some b \<Rightarrow> en_decode_publish env b);
            sid = (if given = [] then ''push_'' @ int_str (unix_secs (clock 0)) else given)
        in if \<not> is_valid_stream_id sid
           then (Refused 400 ''invalid stream_id: must be alphanumeric (1-64 chars)'', s)
           else
             let host = host_for_publish env r;
                 publish_url = ''rtmp://'' @ host @ '':'' @ variable_or env ''RTMP_PORT'' ''1936'' @ ''/live/'' @ sid;
                 wsp_url = ''ws://'' @ host @ '':'' @ variable_or env ''WSP_PORT'' ''8086'' @ ''/live/'' @ sid;
                 tenant = (if ca_tenant c = [] then ''default'' else ca_tenant c);
                 st = set_defaults (clock 2) (pending_stream (clock 1) tenant sid publish_url);
                 (_, st', s') = register_stream (later 3 clock) st s
             in (Answered 201 (APublished
                   \<lparr>pb_stream_id = sid, pb_status = ''waiting_stream'', pb_publish_url = publish_url,
                    pb_wsp_url = wsp_url, pb_shm_path = ''/dev/shm/hydra_'' @ sid,
                    pb_fanout_mode = ''zero_copy_1_to_n'',
                    pb_created_at = en_format_time env (st_created_at st')\<rparr>), s'))"

section \<open>Importing a discovered camera\<close>

definition import_id :: "import_body \<Rightarrow> string" where
  "import_id b =
     (if ib_stream_id b \<noteq> [] then ib_stream_id b
      else
        let derived = to_lower (replace_char CHR '' '' ''_'' (ib_name b))
        in if derived = [] then ''onvif_cam'' else derived)"

definition imported_stream :: "import_body \<Rightarrow> stream" where
  "imported_stream b =
     zero_stream\<lparr>st_stream_id := import_id b,
       st_tenant_id := (if ib_tenant_id b = [] then ''default'' else ib_tenant_id b),
       st_source_url := ib_source_url b,
       st_ingest_fps := (if fle (ib_ingest_fps b) (Fin 0) then rnd 30 else ib_ingest_fps b),
       st_status := ''online''\<rparr>"

definition handle_import :: "http_env \<Rightarrow> inputs \<Rightarrow> http_request \<Rightarrow> service \<Rightarrow> reply \<times> service" where
  "handle_import env io r s =
     (if hq_method r \<noteq> ''POST'' then (Refused 405 ''method not allowed'', s)
      else
        (case Option.bind (hq_body r) (en_decode_import env) of
           None \<Rightarrow> (Refused 400 ''invalid request body'', s)
         | Some b \<Rightarrow>
             (case register_stream (later 1 (io_clock io)) (set_defaults (io_clock io 0) (imported_stream b)) s of
                (Some e, _, s') \<Rightarrow> (Refused 400 (error_text e), s')
              | (None, st', s') \<Rightarrow> (Answered 201 (AStream st'), s'))))"

section \<open>Sample files\<close>

definition handle_samples :: "inputs \<Rightarrow> http_request \<Rightarrow> reply" where
  "handle_samples io r =
     (let clean = path_clean (trim_prefix (hq_path r) ''/samples/'')
      in if str_contains clean ''..'' then Refused 403 ''Forbidden''
         else case find (io_sample_file io) (map (\<lambda>d. path_join [d, clean]) sample_dirs) of
                Some target \<Rightarrow> Handed (ServeFile target)
              | None \<Rightarrow> Refused 404 ''404 page not found'')"

section \<open>Routes\<close>

datatype endpoint =
    EpRoot | EpHealthz | EpReadyz | EpMetrics | EpSwagger | EpSwaggerDoc | EpSamples
  | EpStreams | EpStreamById | EpPublish | EpProbe | EpListSamples | EpTopology | EpInfo
  | EpChaosInject | EpChaosReset
  | EpHealth | EpTelemetry | EpHardware | EpLogs | EpErrors | EpPanel | EpDiagnostics
  | EpDiscover | EpOnvifProbe | EpImport | EpRecordings | EpWhep

datatype protection = Public | Protected "string list"

definition routes :: "(string \<times> protection \<times> endpoint) list" where
  "routes =
     [(''/'', Public, EpRoot), (''/healthz'', Public, EpHealthz), (''/readyz'', Public, EpReadyz),
      (''/metrics'', Public, EpMetrics), (''/swagger/'', Public, EpSwagger),
      (''/swagger/doc.json'', Public, EpSwaggerDoc), (''/samples/'', Public, EpSamples),
      (''/api/v1/streams'', Protected [], EpStreams),
      (''/api/v1/streams/'', Protected [], EpStreamById),
      (''/api/v1/streams/publish'', Protected [''admin'', ''operator'', ''superadmin'', ''system''], EpPublish),
      (''/api/v1/streams/probe'', Protected [], EpProbe),
      (''/api/v1/streams/samples'', Protected [], EpListSamples),
      (''/api/v1/cluster/topology'', Protected [], EpTopology),
      (''/api/v1/info'', Protected [], EpInfo),
      (''/api/v1/chaos/inject'', Protected [''admin'', ''superadmin''], EpChaosInject),
      (''/api/v1/chaos/reset'', Protected [''admin'', ''superadmin''], EpChaosReset),
      (''/api/v1/health'', Protected [], EpHealth),
      (''/api/v1/telemetry'', Protected [], EpTelemetry),
      (''/api/v1/telemetry/hardware'', Protected [], EpHardware),
      (''/api/v1/telemetry/logs'', Protected [], EpLogs),
      (''/api/v1/telemetry/errors'', Protected [], EpErrors),
      (''/api/v1/telemetry/stats'', Protected [], EpPanel),
      (''/api/v1/diagnostics'', Protected [], EpDiagnostics),
      (''/api/v1/onvif/discover'', Protected [], EpDiscover),
      (''/api/v1/onvif/probe'', Protected [], EpOnvifProbe),
      (''/api/v1/onvif/import'', Protected [''admin'', ''operator'', ''superadmin''], EpImport),
      (''/api/v1/recordings/fragments'',
         Protected [''admin'', ''operator'', ''superadmin'', ''system''], EpRecordings),
      (''/whep'', Public, EpWhep), (''/whep/'', Public, EpWhep)]"

text \<open>
  \<^verbatim>\<open>ServeMux\<close>: a pattern matches its own path, and every path below it if it ends in a slash; the
  longest pattern wins. A path that is not clean is redirected to the clean one, and a path that
  only lacks the final slash of a pattern to that pattern.
\<close>

definition matches :: "string \<Rightarrow> string \<Rightarrow> bool" where
  "matches path pat \<longleftrightarrow> path = pat \<or> has_suffix pat ''/'' \<and> has_prefix path pat"

definition best_route ::
  "string \<Rightarrow> (string \<times> protection \<times> endpoint) list \<Rightarrow> (string \<times> protection \<times> endpoint) option" where
  "best_route path table =
     foldl (\<lambda>best rt.
       if matches path (fst rt) \<and>
          (case best of None \<Rightarrow> True | Some b \<Rightarrow> length (fst b) < length (fst rt))
       then Some rt else best) None table"

definition clean_url_path :: "string \<Rightarrow> string" where
  "clean_url_path p =
     (let q = (if has_prefix p ''/'' then p else ''/'' @ p);
          n = path_clean q
      in if p = [] then ''/''
         else if has_suffix q ''/'' \<and> n \<noteq> ''/'' then n @ ''/'' else n)"

definition redirected :: "string \<Rightarrow> bool" where
  "redirected path \<longleftrightarrow>
     clean_url_path path \<noteq> path \<or>
     path \<notin> fst ` set routes \<and> path @ ''/'' \<in> fst ` set routes"

definition run_endpoint ::
  "http_env \<Rightarrow> inputs \<Rightarrow> http_request \<Rightarrow> caller \<Rightarrow> endpoint \<Rightarrow> service \<Rightarrow> reply \<times> service" where
  "run_endpoint env io r c ep s =
     (case ep of
        EpRoot \<Rightarrow> (handle_root r, s)
      | EpHealthz \<Rightarrow> (handle_healthz, s)
      | EpReadyz \<Rightarrow> (handle_readyz, s)
      | EpMetrics \<Rightarrow> (Answered 200 (AText ''hydrastream_ingest_fps''), s)
      | EpSwagger \<Rightarrow> (Handed (Elsewhere ''swagger''), s)
      | EpSwaggerDoc \<Rightarrow> (Handed (Elsewhere ''swagger document''), s)
      | EpSamples \<Rightarrow> (handle_samples io r, s)
      | EpStreams \<Rightarrow> handle_streams env io r c s
      | EpStreamById \<Rightarrow> handle_stream_by_id env io r c s
      | EpPublish \<Rightarrow> handle_publish env io r c s
      | EpProbe \<Rightarrow> handle_probe_stream env io r s
      | EpListSamples \<Rightarrow> (handle_list_samples io, s)
      | EpTopology \<Rightarrow> handle_cluster_topology io r s
      | EpInfo \<Rightarrow> (handle_system_info io s, s)
      | EpChaosInject \<Rightarrow> (handle_chaos_inject env io r, s)
      | EpChaosReset \<Rightarrow> handle_chaos_reset r s
      | EpHealth \<Rightarrow> handle_health io s
      | EpTelemetry \<Rightarrow> handle_unified_telemetry io s
      | EpHardware \<Rightarrow> (handle_hardware io, s)
      | EpLogs \<Rightarrow> handle_logs env io r s
      | EpErrors \<Rightarrow> (handle_errors s, s)
      | EpPanel \<Rightarrow> handle_control_panel io s
      | EpDiagnostics \<Rightarrow> (handle_system_diagnostics io r, s)
      | EpDiscover \<Rightarrow> (handle_discover env io r, s)
      | EpOnvifProbe \<Rightarrow> handle_onvif_probe env io r s
      | EpImport \<Rightarrow> handle_import env io r s
      | EpRecordings \<Rightarrow> handle_recordings_ingest env io r c s
      | EpWhep \<Rightarrow> handle_root_whep io r s)"

text \<open>A request without a caller reaches only public endpoints, which do not look at the caller.\<close>

definition nobody :: caller where
  "nobody = \<lparr>ca_tenant = [], ca_user = [], ca_role = []\<rparr>"

definition serve ::
  "http_env \<Rightarrow> jwt_env \<Rightarrow> string \<Rightarrow> gotime \<Rightarrow> inputs \<Rightarrow> http_request \<Rightarrow> service \<Rightarrow> reply \<times> service" where
  "serve env je key now io r s =
     (if hq_method r = ''OPTIONS'' then (Answered 200 AEmpty, s)
      else if redirected (hq_path r) then (Answered 301 AEmpty, s)
      else
        (case best_route (hq_path r) routes of
           None \<Rightarrow> (Refused 404 ''404 page not found'', s)
         | Some (_, Public, ep) \<Rightarrow> run_endpoint env io r nobody ep s
         | Some (_, Protected roles, ep) \<Rightarrow>
             (case auth_middleware je key now r of
                Inl resp \<Rightarrow> (Refused (hr_status resp) (hr_body resp), s)
              | Inr c \<Rightarrow>
                  (case (if roles = [] then None else require_role roles c) of
                     Some resp \<Rightarrow> (Refused (hr_status resp) (hr_body resp), s)
                   | None \<Rightarrow> run_endpoint env io r c ep s))))"

section \<open>Sample files stay in their directories\<close>

lemma join_str_Cons: "ps \<noteq> [] \<Longrightarrow> join_str sep (p # ps) = p @ sep @ join_str sep ps"
  by (cases ps) simp_all

lemma join_str_member: "p \<in> set ps \<Longrightarrow> \<exists>a b. join_str sep ps = a @ p @ b"
proof (induction ps)
  case (Cons q ps)
  show ?case
  proof (cases "ps = []")
    case True
    then show ?thesis using Cons by (intro exI [of _ "[]"]) auto
  next
    case False
    show ?thesis
    proof (cases "p = q")
      case True
      then show ?thesis using False
        by (intro exI [of _ "[]"] exI [of _ "sep @ join_str sep ps"]) (simp add: join_str_Cons)
    next
      case False
      then obtain a b where "join_str sep ps = a @ p @ b" using Cons by auto
      then show ?thesis using \<open>ps \<noteq> []\<close>
        by (intro exI [of _ "q @ sep @ a"] exI [of _ b]) (simp add: join_str_Cons)
    qed
  qed
qed simp

lemma split_char_append: "split_char c (p @ c # q) = split_char c p @ split_char c q"
  by (induction p) (auto simp: split_char_nonempty split: list.split)

lemma split_char_no_sep: "p \<in> set (split_char c s) \<Longrightarrow> c \<notin> set p"
  by (induction s arbitrary: p) (auto split: if_splits list.splits)

lemma clean_comps_no_dots:
  "''..'' \<notin> set ps \<Longrightarrow> clean_comps rooted acc ps = rev acc @ filter (\<lambda>p. p \<noteq> [] \<and> p \<noteq> ''.'') ps"
  by (induction ps arbitrary: acc) auto

lemma no_dots_parts: "\<not> str_contains s ''..'' \<Longrightarrow> ''..'' \<notin> set (split_char CHR ''/'' s)"
  using join_str_member [of "''..''" "split_char CHR ''/'' s" "''/''"]
  by (auto simp: str_contains_iff join_split_char)

lemma sample_dir_join:
  assumes "d \<in> set sample_dirs" and "''..'' \<notin> set (split_char CHR ''/'' p)" and "p \<noteq> []"
  shows "\<exists>rest. split_char CHR ''/'' (path_join [d, p]) = split_char CHR ''/'' d @ rest \<and> ''..'' \<notin> set rest"
proof -
  let ?rest = "filter (\<lambda>p. p \<noteq> [] \<and> p \<noteq> ''.'') (split_char CHR ''/'' p)"
  define base where "base = filter (\<lambda>p. p \<noteq> []) (split_char CHR ''/'' d)"
  have d: "d \<noteq> []" "base \<noteq> []" "''..'' \<notin> set (split_char CHR ''/'' d)" "''.'' \<notin> set (split_char CHR ''/'' d)"
    "split_char CHR ''/'' d = (if has_prefix d ''/'' then [] # base else base)"
    "filter (\<lambda>p. p \<noteq> [] \<and> p \<noteq> ''.'') (split_char CHR ''/'' d) = base"
    using assms(1) by (auto simp: sample_dirs_def base_def has_prefix_def)
  have "has_prefix (d @ ''/'' @ p) ''/'' = has_prefix d ''/''"
    using d(1) by (cases d) (simp_all add: has_prefix_def)
  moreover have "split_char CHR ''/'' (d @ ''/'' @ p) = split_char CHR ''/'' d @ split_char CHR ''/'' p"
    using split_char_append [of "CHR ''/''" d p] by simp
  moreover have "clean_comps rooted [] (split_char CHR ''/'' d @ split_char CHR ''/'' p) = base @ ?rest" for rooted
    using clean_comps_no_dots [of "split_char CHR ''/'' d @ split_char CHR ''/'' p" rooted "[]"] assms(2) d
    by simp
  moreover have "path_join [d, p] = path_clean (d @ ''/'' @ p)" using d(1) assms(3) by (simp add: path_join_def)
  ultimately have j: "path_join [d, p] =
      (if has_prefix d ''/'' then CHR ''/'' # join_str ''/'' (base @ ?rest)
       else if join_str ''/'' (base @ ?rest) = [] then ''.'' else join_str ''/'' (base @ ?rest))"
    by (simp add: path_clean_def Let_def)
  have parts: "\<forall>q \<in> set (base @ ?rest). CHR ''/'' \<notin> set q"
    using split_char_no_sep [of _ "CHR ''/''"] by (auto simp: base_def)
  have s: "split_char CHR ''/'' (join_str ''/'' (base @ ?rest)) = base @ ?rest"
    using d(2) parts by (intro split_join_str) simp_all
  have "join_str ''/'' (base @ ?rest) \<noteq> []"
  proof
    assume "join_str ''/'' (base @ ?rest) = []"
    then have "base @ ?rest = [[]]" using s by simp
    then have "[] \<in> set (base @ ?rest)" by simp
    then show False by (auto simp: base_def)
  qed
  then have "split_char CHR ''/'' (path_join [d, p]) = split_char CHR ''/'' d @ ?rest"
    using d(5) s j by simp
  then show ?thesis using assms(2) by auto
qed

section \<open>Which route a path takes\<close>

lemma best_route_from:
  "foldl (\<lambda>best rt. if matches path (fst rt) \<and>
        (case best of None \<Rightarrow> True | Some b \<Rightarrow> length (fst b) < length (fst rt)) then Some rt else best) b0 table
     = Some rt \<Longrightarrow> b0 = Some rt \<or> rt \<in> set table \<and> matches path (fst rt)"
  by (induction table arbitrary: b0) (auto split: if_splits option.splits)

lemma best_route_matches:
  "best_route path table = Some rt \<Longrightarrow> rt \<in> set table \<and> matches path (fst rt)"
  unfolding best_route_def by (drule best_route_from) simp

lemma api_public_route:
  assumes "has_prefix path ''/api/''" and "(pat, Public, ep) \<in> set routes" and "matches path pat"
  shows "ep = EpRoot"
proof -
  obtain t where "path = ''/api/'' @ t" using assms(1) by (auto simp: has_prefix_iff)
  then show ?thesis
    using assms(2,3) by (auto simp: routes_def matches_def has_prefix_def has_suffix_def)
qed

section \<open>What a reader can change\<close>

definition same_fleet :: "service \<Rightarrow> service \<Rightarrow> bool" where
  "same_fleet s s' \<longleftrightarrow>
     (\<forall>i. map_option settle_score (svc_stream s' i) = map_option settle_score (svc_stream s i)) \<and>
     sv_ingestor s' = sv_ingestor s \<and> sv_frags s' = sv_frags s"

lemma same_fleet_refl [simp]: "same_fleet s s"
  by (simp add: same_fleet_def)

lemma settle_score_idem: "settle_score (settle_score st) = settle_score st"
  by (simp add: settle_score_def calculate_resource_score_def)

lemma same_fleet_same: "sv_repo s' = sv_repo s \<Longrightarrow> sv_ingestor s' = sv_ingestor s \<Longrightarrow>
    sv_frags s' = sv_frags s \<Longrightarrow> same_fleet s s'"
  by (simp add: same_fleet_def svc_stream_def)

lemma same_fleet_settle: "sv_repo s' = settle_all (sv_repo s) \<Longrightarrow> sv_ingestor s' = sv_ingestor s \<Longrightarrow>
    sv_frags s' = sv_frags s \<Longrightarrow> same_fleet s s'"
  by (simp add: same_fleet_def svc_stream_def repo_get_settle_all option.map_comp comp_def settle_score_idem)

lemma list_filtered_repo: "snd (list_filtered ord q t b p l r) = settle_all r"
  by (simp add: list_filtered_def Let_def)

lemma same_fleet_whep: "same_but_whep s s' \<Longrightarrow> same_fleet s s'"
  by (metis same_but_whep_def same_fleet_same service.ext_inject service.surjective service.update_convs)

text \<open>A writer holds one of the roles that may change something, in any letter case.\<close>

definition writer :: "caller \<Rightarrow> bool" where
  "writer c \<longleftrightarrow> list_ex (equal_fold (ca_role c)) [''admin'', ''operator'', ''superadmin'', ''system'']"

lemma equal_fold_refl [simp]: "equal_fold s s"
  by (simp add: equal_fold_def)

lemma not_writer:
  assumes "\<not> writer c"
  shows "\<not> can_write c" and "\<not> can_manage c" and "\<not> cross_tenant c"
    and "set roles \<subseteq> {''admin'', ''operator'', ''superadmin'', ''system''} \<Longrightarrow> require_role roles c \<noteq> None"
  using assms
  by (auto simp: writer_def can_write_def can_manage_def cross_tenant_def require_role_def list_ex_iff)

lemma snd_answer_outcome [simp]: "snd (answer_outcome n f p) = snd p"
  by (cases "(n, f, p)" rule: answer_outcome.cases) simp_all

lemma same_fleet_reads:
  "same_fleet s (snd (list_streams ord q t b p l s))"
  "same_fleet s (snd (get_health now1 now2 ord smi s))"
  "same_fleet s (snd (get_cluster_topology henv ord smi sid s))"
  using list_filtered_repo [of ord q t b p l "sv_repo s"] list_filtered_repo [of ord "[]" "[]" "[]" 1 500 "sv_repo s"]
    list_filtered_repo [of ord "[]" "[]" "[]" 1 100 "sv_repo s"]
  by (auto simp: list_streams_def get_health_def get_cluster_topology_def Let_def
      intro!: same_fleet_settle split: prod.split outcome.split)

lemma tick_history_fleet:
  "tick_history penv clock bw lat s = Returns s' \<Longrightarrow>
   sv_repo s' = sv_repo s \<and> sv_ingestor s' = sv_ingestor s \<and> sv_frags s' = sv_frags s"
  by (auto simp: tick_history_def split: if_splits outcome.splits)

lemma same_fleet_panel: "same_fleet s (snd (get_control_panel penv clock ord s))"
  using list_filtered_repo [of ord "[]" "[]" "[]" 1 100 "sv_repo s"]
  by (auto simp: get_control_panel_def Let_def dest!: tick_history_fleet
      intro!: same_fleet_settle split: prod.split outcome.split)

lemma same_fleet_samples: "same_but_samples s s' \<Longrightarrow> same_fleet s s'"
  by (intro same_fleet_same same_but_samplesD)

lemma same_fleet_fragments_reader:
  "\<not> can_write c \<Longrightarrow> same_fleet s (snd (handle_stream_fragments env io r c sid sub s))"
  by (simp add: handle_stream_fragments_def same_streams_by_id handle_list_fragments_def
      handle_upload_fragment_def Let_def)

lemma same_fleet_when_owned:
  "(\<And>st. same_fleet s (snd (k st))) \<Longrightarrow> same_fleet s (snd (when_owned c sid s k))"
  by (simp add: when_owned_def split: sum.split)

lemma same_fleet_resource_reader:
  assumes "\<not> writer c"
  shows "same_fleet s (snd (stream_resource env io r c sid ps s))"
proof -
  have manage: "(if \<not> can_manage c then a else b) = a" for a b :: "reply \<times> service"
    using not_writer(2) [OF assms] by simp
  show ?thesis
    unfolding stream_resource_def Let_def manage
    by (intro if_closed [where Q = "\<lambda>x. same_fleet s (snd x)"] same_fleet_when_owned)
      (simp_all add: same_fleet_fragments_reader not_writer(1) [OF assms] same_fleet_whep
        same_but_whep_dispatch same_fleet_samples camera_handlers_same del: One_nat_def)
qed

lemma same_fleet_endpoint_reader:
  assumes "\<not> writer c" and "ep \<notin> {EpImport, EpChaosInject, EpChaosReset}"
  shows "same_fleet s (snd (run_endpoint env io r c ep s))"
proof -
  note w = not_writer(1) [OF assms(1)]
  have "same_fleet s (snd (handle_streams env io r c s))"
    by (simp add: handle_streams_def handle_list_streams_def handle_create_stream_def w Let_def
        same_fleet_reads)
  moreover have "same_fleet s (snd (handle_stream_by_id env io r c s))"
    using handle_by_id_cases [of env io r c s] same_fleet_resource_reader [OF assms(1)] by auto
  moreover have "same_fleet s (snd (handle_publish env io r c s))" by (simp add: handle_publish_def w)
  moreover have "same_fleet s (snd (handle_recordings_ingest env io r c s))"
    by (simp add: handle_recordings_ingest_def handle_upload_fragment_def w)
  moreover have "same_fleet s (snd (handle_root_whep io r s))"
    by (simp add: same_fleet_whep same_but_whep_root)
  moreover have "same_fleet s (snd (handle_logs env io r s))"
    by (auto simp: handle_logs_def Let_def intro: same_fleet_same split: option.split)
  moreover have "same_fleet s (snd (handle_health io s))" "same_fleet s (snd (handle_unified_telemetry io s))"
    "same_fleet s (snd (handle_control_panel io s))" "same_fleet s (snd (handle_cluster_topology io r s))"
    using same_fleet_reads(2) [of s "io_clock io 0" "io_clock io 1" "io_order io" "io_smi io"]
    by (auto simp: handle_health_def handle_unified_telemetry_def get_unified_telemetry_def
        handle_control_panel_def handle_cluster_topology_def same_fleet_panel same_fleet_reads(3)
        split: prod.split outcome.split)
  ultimately show ?thesis using assms(2) by (cases ep) (simp_all add: run_endpoint_def same_fleet_samples camera_handlers_same)
qed

section \<open>Clean paths\<close>

definition plain_part :: "string \<Rightarrow> bool" where
  "plain_part p \<longleftrightarrow> p \<noteq> [] \<and> p \<noteq> ''.'' \<and> p \<noteq> ''..'' \<and> CHR ''/'' \<notin> set p"

lemma clean_comps_plain: "\<forall>p \<in> set ps. plain_part p \<Longrightarrow> clean_comps rooted acc ps = rev acc @ ps"
  by (induction ps arbitrary: acc) (simp_all add: plain_part_def)

lemma clean_path_plain:
  assumes "ps \<noteq> []" and "\<forall>p \<in> set ps. plain_part p"
  shows "clean_url_path (''/'' @ join_str ''/'' ps) = ''/'' @ join_str ''/'' ps"
proof -
  let ?b = "join_str ''/'' ps"
  have "split_char CHR ''/'' ?b = ps" using assms by (intro split_join_str) (auto simp: plain_part_def)
  then have c: "path_clean (CHR ''/'' # ?b) = CHR ''/'' # ?b"
    using clean_comps_plain [OF assms(2), of True "[]"] by (simp add: path_clean_def has_prefix_def Let_def)
  have last: "?b \<noteq> [] \<and> last ?b \<noteq> CHR ''/''"
    using assms
  proof (induction ps rule: induct_list012)
    case (2 p)
    then show ?case by (auto simp: plain_part_def) (metis last_in_set)
  qed auto
  then have "last (CHR ''/'' # ?b) \<noteq> CHR ''/''" by simp
  then have "\<not> has_suffix (CHR ''/'' # ?b) ''/''"
    unfolding has_suffix_def by (metis append_take_drop_id last_snoc)
  then show ?thesis by (simp add: clean_url_path_def Let_def has_prefix_def c)
qed

lemma valid_id_part: "is_valid_stream_id p \<Longrightarrow> plain_part p"
proof -
  assume v: "is_valid_stream_id p"
  have "\<not> id_char CHR ''.''" by (simp add: id_char_def)
  then show ?thesis
    using v valid_id_plain [OF v] by (auto simp: plain_part_def plain_name_def is_valid_stream_id_def)
qed

section \<open>Properties\<close>

text \<open>
  C2: The API is closed without credentials: whatever path below \<^verbatim>\<open>/api/\<close>, method, query and body a
  request has, if authentication refuses it then nothing changes, and it is answered with that
  refusal, or as a preflight, a redirect or an unknown path.
\<close>

theorem api_needs_credentials:
  assumes "has_prefix (hq_path r) ''/api/''" and "auth_middleware je key now r = Inl resp"
  shows "serve env je key now io r s \<in>
    {(Refused (hr_status resp) (hr_body resp), s), (Refused 404 ''404 page not found'', s),
     (Answered 301 AEmpty, s), (Answered 200 AEmpty, s)} \<and>
    (snd (serve env je key now io r s) = s) \<and>
    (fst (serve env je key now io r s) = Answered 200 AEmpty) = (hq_method r = ''OPTIONS'')"
proof (cases "best_route (hq_path r) routes")
  case None
  then show ?thesis by (simp add: serve_def)
next
  case (Some rt)
  obtain pat prot ep where rt: "rt = (pat, prot, ep)" by (cases rt)
  have m: "(pat, prot, ep) \<in> set routes" "matches (hq_path r) pat"
    using best_route_matches [OF Some] by (simp_all add: rt)
  show ?thesis
  proof (cases prot)
    case Public
    have "ep = EpRoot" using api_public_route [OF assms(1)] m by (simp add: Public)
    moreover have "hq_path r \<noteq> ''/''" using assms(1) by (auto simp: has_prefix_def)
    ultimately show ?thesis by (simp add: serve_def Some rt Public run_endpoint_def handle_root_def)
  next
    case (Protected roles)
    then show ?thesis by (simp add: serve_def Some rt assms(2))
  qed
qed


text \<open>
  Anybody can end any WHEP session: a DELETE of \<^verbatim>\<open>/whep/\<close>, any stream id, \<^verbatim>\<open>/sessions/\<close> and the id of
  a session, from any address and with any headers, even wrong credentials, ends that session,
  whichever stream it belongs to.
\<close>

theorem whep_needs_no_credentials:
  assumes "is_valid_stream_id x" and "is_valid_stream_id sid" and "sv_whep s sid = Some sess"
    and "hq_method r = ''DELETE''" and "hq_path r = ''/whep/'' @ x @ ''/sessions/'' @ sid"
    and "serve env je key now io r s = (a, s')"
  shows "a = Answered 200 (AText ''session_terminated'') \<and> sv_whep s' sid = None"
proof -
  have px: "CHR ''/'' \<notin> set x" "x \<noteq> []" "path_base x = x" and ps: "CHR ''/'' \<notin> set sid" "path_base sid = sid"
    using valid_id_plain [OF assms(1)] valid_id_plain [OF assms(2)] by (simp_all add: plain_name_def)
  have path: "hq_path r = ''/'' @ join_str ''/'' [''whep'', x, ''sessions'', sid]" by (simp add: assms(5))
  have clean: "clean_url_path (hq_path r) = hq_path r"
    unfolding path using valid_id_part assms(1,2) by (intro clean_path_plain) (simp_all add: plain_part_def)
  have "sid \<noteq> []" using assms(2) by (auto simp: is_valid_stream_id_def)
  have slash: "hq_path r @ ''/'' \<notin> fst ` set routes"
    by (simp add: assms(5) routes_def)
  have "matches (hq_path r) ''/whep/''" by (simp add: matches_def has_suffix_def has_prefix_def assms(5))
  have route: "best_route (hq_path r) routes = Some (''/whep/'', Public, EpWhep)"
    by (simp add: best_route_def routes_def matches_def has_suffix_def has_prefix_def assms(5))
  have "handle_root_whep io r s = dispatch_whep io r x [''sessions'', sid] s"
  proof -
    have "trim_prefix (trim_prefix (hq_path r) ''/whep'') ''/'' = join_str ''/'' [x, ''sessions'', sid]"
      by (simp add: assms(5) trim_prefix_def has_prefix_def)
    moreover have "split_char CHR ''/'' (join_str ''/'' [x, ''sessions'', sid]) = [x, ''sessions'', sid]"
      using px ps by (intro split_join_str) auto
    ultimately show ?thesis using px by (simp add: handle_root_whep_def first_nonempty_def)
  qed
  then have "(a, s') = handle_delete_session io x sid s"
    using assms(4,6) clean slash route
    by (simp add: serve_def redirected_def run_endpoint_def dispatch_whep_def ps)
  then show ?thesis
    using assms(3) by (simp add: handle_delete_session_def whep_delete_def Let_def)
qed

text \<open>
  The import of a camera ignores the caller: it registers the stream under whatever tenant and id
  the body names. An id the other handlers refuse makes a stream that no request on
  \<^verbatim>\<open>/api/v1/streams/{id}\<close> can show, change or delete, whoever makes it.
\<close>

theorem import_ignores_caller:
  assumes "hq_method r = ''POST''" and "Option.bind (hq_body r) (en_decode_import env) = Some b"
    and "import_id b \<noteq> []" and "handle_import env io r s = (a, s')"
    and "\<not> is_valid_stream_id (import_id b)" and "handle_stream_by_id env' io' r' c s' = (a2, s2)"
  shows "\<exists>st. a = Answered 201 (AStream st) \<and> svc_stream s' (import_id b) = Some st \<and>
    st_tenant_id st = (if ib_tenant_id b = [] then ''default'' else ib_tenant_id b) \<and>
    svc_stream s2 (import_id b) = Some st"
proof -
  let ?st = "set_defaults (io_clock io 0) (imported_stream b)"
  obtain e st' s1 where reg: "register_stream (later 1 (io_clock io)) ?st s = (e, st', s1)" by (metis surj_pair)
  have "st_stream_id ?st \<noteq> []" using assms(3) by (simp add: imported_stream_def)
  note v = register_valid [OF this reg]
  have i: "a = Answered 201 (AStream st')" "s' = s1"
    using assms(1,2,4) reg v(1) by (simp_all add: handle_import_def)
  have st: "svc_stream s' (import_id b) = Some st'" using v(3) by (simp add: i imported_stream_def)
  have "svc_stream s2 (import_id b) = svc_stream s' (import_id b)"
    using assms(5,6) stream_resource_only_at
    by (auto simp: handle_stream_by_id_def Let_def only_at_def split: if_splits) (metis snd_conv)
  then show ?thesis using i st v(2) by (simp add: imported_stream_def)
qed

text \<open>
  C34: Sample files stay in their directories: whatever path a request for a sample names, with dots,
  doubled slashes or climbing out, the file it is served is a file, and its path is that of one of
  the two sample directories followed by components none of which is \<^verbatim>\<open>..\<close>.
\<close>

theorem samples_inside:
  assumes "handle_samples io r = Handed (ServeFile target)"
  shows "io_sample_file io target \<and> (\<exists>d rest. d \<in> set sample_dirs \<and>
    split_char CHR ''/'' target = split_char CHR ''/'' d @ rest \<and> ''..'' \<notin> set rest)"
proof -
  let ?c = "path_clean (trim_prefix (hq_path r) ''/samples/'')"
  have dots: "\<not> str_contains ?c ''..''"
    and f: "find (io_sample_file io) (map (\<lambda>d. path_join [d, ?c]) sample_dirs) = Some target"
    using assms by (auto simp: handle_samples_def Let_def split: if_splits option.splits)
  obtain d where d: "d \<in> set sample_dirs" "target = path_join [d, ?c]" "io_sample_file io target"
    using f by (auto simp: find_Some_iff in_set_conv_nth) (metis nth_mem)
  then show ?thesis
    using sample_dir_join [OF d(1) no_dots_parts [OF dots] path_clean_nonempty] by blast
qed

section \<open>Concrete requests\<close>

definition viewer_jwt :: jwt_env where
  "viewer_jwt = sample_jwt\<lparr>je_claims := (\<lambda>b. Some
     \<lparr>jc_user_id = ''u'', jc_tenant_id = ''alpha'', jc_role = ''viewer'', jc_exp = 0\<rparr>)\<rparr>"

definition crooked_sample :: http_request where
  "crooked_sample = (get_request [])\<lparr>hq_path := ''/samples/'' @ ''a/../b.mp4''\<rparr>"

lemma crooked_served: "handle_samples plain_io crooked_sample = Handed (ServeFile ''samples/b.mp4'')"
proof -
  have "path_clean (trim_prefix (hq_path crooked_sample) ''/samples/'') = ''b.mp4''"
    "path_join [''samples'', ''b.mp4''] = ''samples/b.mp4''" "\<not> str_contains ''b.mp4'' ''..''"
    by code_simp+
  then show ?thesis by (simp add: handle_samples_def sample_dirs_def plain_io_def)
qed

theorem samples_inside_witness:
  "\<exists>d rest. d \<in> set sample_dirs \<and>
     split_char CHR ''/'' ''samples/b.mp4'' = split_char CHR ''/'' d @ rest \<and> ''..'' \<notin> set rest"
  using samples_inside [OF crooked_served] by blast

definition viewer_request :: http_request where
  "viewer_request = (get_request [''cam1''])\<lparr>hq_method := ''DELETE'',
     hq_authorization := ''Bearer '' @ signed_token viewer_jwt ''h'' ''p''\<rparr>"

lemma viewer_authenticated:
  "auth_middleware viewer_jwt [] 9 viewer_request =
     Inr \<lparr>ca_tenant = ''alpha'', ca_user = ''u'', ca_role = ''viewer''\<rparr>"
proof -
  have "token_of viewer_request = signed_token viewer_jwt ''h'' ''p''"
    by (simp add: viewer_request_def token_of_def has_prefix_def)
  moreover have "signed_token viewer_jwt ''h'' ''p'' \<noteq> []" by (simp add: signed_token_def Let_def)
  ultimately show ?thesis
    using validate_signed_token [of "''h''" viewer_jwt "''p''" _ 9]
    by (simp add: auth_middleware_def api_key_ok_def viewer_jwt_def fill_claims_def)
qed

lemma viewer_not_writer: "\<not> writer \<lparr>ca_tenant = ''alpha'', ca_user = ''u'', ca_role = ''viewer''\<rparr>"
proof -
  have "\<not> equal_fold ''viewer'' ''admin''" "\<not> equal_fold ''viewer'' ''operator''"
    "\<not> equal_fold ''viewer'' ''superadmin''" "\<not> equal_fold ''viewer'' ''system''"
    by code_simp+
  then show ?thesis by (simp add: writer_def)
qed


definition stranger :: http_request where
  "stranger = (get_request [''cam1''])\<lparr>hq_method := ''DELETE'', hq_remote := ''10.0.0.9:4000''\<rparr>"

theorem api_needs_credentials_witness:
  "snd (serve (json_env zero_fragment []) viewer_jwt [] 9 plain_io stranger cam_service) = cam_service \<and>
   fst (serve (json_env zero_fragment []) viewer_jwt [] 9 plain_io stranger cam_service) \<noteq> Answered 200 AEmpty"
proof -
  have api: "has_prefix (hq_path stranger) ''/api/''"
    by (simp add: stranger_def get_request_def stream_path_def has_prefix_def)
  have "auth_middleware viewer_jwt [] 9 stranger =
      Inl \<lparr>hr_status = 401, hr_body = quote_json ''authentication token required'' [] ''UNAUTHORIZED''\<rparr>"
    by (simp add: auth_middleware_def api_key_ok_def token_of_def from_loopback_def stranger_def
        get_request_def json_post_def has_prefix_def)
  from api_needs_credentials [OF api this, of "json_env zero_fragment []" plain_io cam_service]
  show ?thesis by (simp add: stranger_def)
qed

definition some_session :: whep_session where
  "some_session =
     \<lparr>wh_session_id = ''5e55'', wh_stream_id = ''cam1'', wh_sdp_offer = ''v=0'', wh_sdp_answer = ''v=0'',
      wh_candidates = [], wh_upstream = [], wh_created = 7, wh_expires = 8\<rparr>"

lemma valid_session_id: "is_valid_stream_id ''5e55''" "is_valid_stream_id ''x''"
  by (simp_all add: is_valid_stream_id_def id_char_def)

theorem whep_needs_no_credentials_witness:
  "sv_whep (snd (serve (json_env zero_fragment []) viewer_jwt [] 9 plain_io
     (stranger\<lparr>hq_path := ''/whep/'' @ ''x'' @ ''/sessions/'' @ ''5e55''\<rparr>)
     (cam_service\<lparr>sv_whep := [''5e55'' \<mapsto> some_session]\<rparr>))) ''5e55'' = None"
  using whep_needs_no_credentials [OF valid_session_id(2,1) _ _ _ prod.collapse [symmetric],
      of "cam_service\<lparr>sv_whep := [''5e55'' \<mapsto> some_session]\<rparr>" some_session
        "stranger\<lparr>hq_path := ''/whep/'' @ ''x'' @ ''/sessions/'' @ ''5e55''\<rparr>"
        "json_env zero_fragment []" viewer_jwt "[]" 9 plain_io]
  by (simp add: stranger_def)

definition dotted_import :: import_body where
  "dotted_import = \<lparr>ib_stream_id = ''a.b'', ib_name = [], ib_tenant_id = ''beta'', ib_source_url = ''rtsp://x'',
     ib_ingest_fps = Fin 0\<rparr>"

definition import_env :: http_env where
  "import_env = (json_env zero_fragment [])\<lparr>en_decode_import := (\<lambda>b. Some dotted_import)\<rparr>"

theorem import_ignores_caller_witness:
  "\<exists>st. svc_stream (snd (handle_stream_by_id import_env plain_io
       ((get_request [''a.b''])\<lparr>hq_method := ''DELETE''\<rparr>) \<lparr>ca_tenant = [], ca_user = [], ca_role = ''superadmin''\<rparr>
       (snd (handle_import import_env plain_io json_post cam_service)))) ''a.b'' = Some st \<and>
     st_tenant_id st = ''beta''"
proof -
  have b: "Option.bind (hq_body json_post) (en_decode_import import_env) = Some dotted_import"
    by (simp add: json_post_def import_env_def)
  have i: "import_id dotted_import = ''a.b''" "\<not> is_valid_stream_id ''a.b''" "ib_tenant_id dotted_import = ''beta''"
    by (simp_all add: import_id_def dotted_import_def is_valid_stream_id_def id_char_def)
  show ?thesis
    using import_ignores_caller [where io = plain_io and s = cam_service and env' = import_env and io' = plain_io
        and r' = "(get_request [''a.b''])\<lparr>hq_method := ''DELETE''\<rparr>"
        and c = "\<lparr>ca_tenant = [], ca_user = [], ca_role = ''superadmin''\<rparr>",
        OF _ b _ prod.collapse [symmetric] _ prod.collapse [symmetric]] i
    by (auto simp: json_post_def)
qed

end
