(* ===== verification/ApiDocument.thy ===== *)
theory ApiDocument
  imports HttpRoutes
begin

text \<open>
  The API document of \<^verbatim>\<open>internal/adapters/primary/http/swagger.go\<close>: every operation it promises, as a
  table of path, method, query parameters and status codes, and what the server makes of these
  promises. Texts, schemas and default values of the document are left out.
\<close>

section \<open>The document\<close>

datatype path_part = Fixed string | Param string

record operation =
  op_path :: "path_part list"
  op_method :: string
  op_query :: "string list"
  op_codes :: "int list"

definition op_at :: "path_part list \<Rightarrow> string \<Rightarrow> string list \<Rightarrow> int list \<Rightarrow> operation" where
  "op_at path meth query codes = \<lparr>op_path = path, op_method = meth, op_query = query, op_codes = codes\<rparr>"

definition api_v1 :: "path_part list \<Rightarrow> path_part list" where
  "api_v1 ps = Fixed ''api'' # Fixed ''v1'' # ps"

definition telemetry_document :: "operation list" where
  "telemetry_document =
     [op_at (api_v1 [Fixed ''health'']) ''GET'' [] [200, 503],
      op_at (api_v1 [Fixed ''telemetry'']) ''GET'' [] [200],
      op_at (api_v1 [Fixed ''telemetry'', Fixed ''hardware'']) ''GET'' [] [200],
      op_at (api_v1 [Fixed ''telemetry'', Fixed ''logs'']) ''GET''
        [''level'', ''component'', ''limit'', ''since''] [200],
      op_at (api_v1 [Fixed ''telemetry'', Fixed ''logs'']) ''POST'' [] [201],
      op_at (api_v1 [Fixed ''telemetry'', Fixed ''errors'']) ''GET'' [] [200],
      op_at (api_v1 [Fixed ''telemetry'', Fixed ''stats'']) ''GET'' [] [200]]"

definition streams_document :: "operation list" where
  "streams_document =
     [op_at (api_v1 [Fixed ''streams'']) ''GET'' [''search'', ''tenant'', ''sort_by'', ''page'', ''limit''] [200],
      op_at (api_v1 [Fixed ''streams'']) ''POST'' [] [201],
      op_at (api_v1 [Fixed ''streams'', Param ''id'']) ''GET'' [] [200, 404],
      op_at (api_v1 [Fixed ''streams'', Param ''id'']) ''DELETE'' [] [200, 404],
      op_at (api_v1 [Fixed ''streams'', Param ''id'', Fixed ''ingest'']) ''GET'' [] [200]]"

definition recordings_document :: "operation list" where
  "recordings_document =
     [op_at (api_v1 [Fixed ''streams'', Param ''id'', Fixed ''recordings'', Fixed ''fragments'']) ''GET''
        [''start'', ''end'', ''limit''] [200],
      op_at (api_v1 [Fixed ''streams'', Param ''id'', Fixed ''recordings'', Fixed ''fragments'']) ''POST'' [] [201],
      op_at (api_v1 [Fixed ''streams'', Param ''id'', Fixed ''recordings'', Fixed ''fragments'',
        Param ''fragment_id'']) ''GET'' [] [200, 206]]"

definition whep_document :: "operation list" where
  "whep_document =
     [op_at (api_v1 [Fixed ''streams'', Param ''id'', Fixed ''whep'']) ''POST'' [] [201],
      op_at (api_v1 [Fixed ''streams'', Param ''id'', Fixed ''whep'']) ''OPTIONS'' [] [200],
      op_at [Fixed ''whep'', Param ''stream_id''] ''POST'' [] [201]]"

definition system_document :: "operation list" where
  "system_document =
     [op_at (api_v1 [Fixed ''info'']) ''GET'' [] [200],
      op_at (api_v1 [Fixed ''cluster'', Fixed ''topology'']) ''GET'' [] [200],
      op_at [Fixed ''healthz''] ''GET'' [] [200],
      op_at [Fixed ''readyz''] ''GET'' [] [200],
      op_at [Fixed ''metrics''] ''GET'' [] [200]]"

definition api_document :: "operation list" where
  "api_document =
     telemetry_document @ streams_document @ recordings_document @ whep_document @ system_document"

fun fill_part :: "(string \<Rightarrow> string) \<Rightarrow> path_part \<Rightarrow> string" where
  "fill_part args (Fixed p) = p"
| "fill_part args (Param n) = args n"

text \<open>The path of an operation with arguments for the parameters in it.\<close>

definition op_url :: "(string \<Rightarrow> string) \<Rightarrow> operation \<Rightarrow> string" where
  "op_url args d = ''/'' @ join_str ''/'' (map (fill_part args) (op_path d))"

text \<open>Ids whose path under \<^verbatim>\<open>/api/v1/streams/\<close> is a route of its own.\<close>

definition reserved_ids :: "string list" where
  "reserved_ids = [''publish'', ''probe'', ''samples'']"

definition fitting :: "(string \<Rightarrow> string) \<Rightarrow> bool" where
  "fitting args \<longleftrightarrow> (\<forall>n. is_valid_stream_id (args n)) \<and> args ''id'' \<notin> set reserved_ids"

section \<open>Where a path leads\<close>

definition endpoint_at :: "string \<Rightarrow> endpoint option" where
  "endpoint_at path =
     (if redirected path then None else map_option (\<lambda>rt. snd (snd rt)) (best_route path routes))"

text \<open>
  What is not a broken promise: a refusal that is neither of the method nor of the path, an answer
  with one of the codes, or a panic.
\<close>

fun keeps_promise :: "int list \<Rightarrow> reply \<Rightarrow> bool" where
  "keeps_promise codes (Refused c m) \<longleftrightarrow> c \<noteq> 405 \<and> (c, m) \<noteq> (404, ''404 page not found'')"
| "keeps_promise codes (Answered c a) \<longleftrightarrow> c \<in> set codes"
| "keeps_promise codes (Handed h) \<longleftrightarrow> False"
| "keeps_promise codes Aborted \<longleftrightarrow> True"
| "keeps_promise codes Killed \<longleftrightarrow> False"

lemma auth_refusals: "auth_middleware je key now r = Inl resp \<Longrightarrow> hr_status resp = 401"
  by (auto simp: auth_middleware_def split: if_splits sum.splits)

lemma role_refusals: "require_role roles c = Some resp \<Longrightarrow> hr_status resp = 403"
  by (auto simp: require_role_def split: if_splits)

text \<open>A promise about an endpoint is one about the server, which refuses with 401 and 403 before it.\<close>

lemma serve_keeps:
  assumes "endpoint_at (hq_path r) = Some ep" and "hq_method r \<noteq> ''OPTIONS''"
    and "\<And>c. keeps_promise codes (fst (run_endpoint env io r c ep s))"
  shows "keeps_promise codes (fst (serve env je key now io r s))"
proof -
  obtain pat prot where "\<not> redirected (hq_path r)" and rt: "best_route (hq_path r) routes = Some (pat, prot, ep)"
    using assms(1) by (auto simp: endpoint_at_def split: if_splits)
  then show ?thesis
    using assms(2,3)
    by (auto simp: serve_def auth_refusals role_refusals split: protection.split sum.split option.split if_splits)
qed

section \<open>The paths of the document\<close>

lemma fixed_paths:
  "endpoint_at ''/api/v1/health'' = Some EpHealth"
  "endpoint_at ''/api/v1/telemetry'' = Some EpTelemetry"
  "endpoint_at ''/api/v1/telemetry/hardware'' = Some EpHardware"
  "endpoint_at ''/api/v1/telemetry/logs'' = Some EpLogs"
  "endpoint_at ''/api/v1/telemetry/errors'' = Some EpErrors"
  "endpoint_at ''/api/v1/telemetry/stats'' = Some EpPanel"
  "endpoint_at ''/api/v1/streams'' = Some EpStreams"
  "endpoint_at ''/api/v1/info'' = Some EpInfo"
  "endpoint_at ''/api/v1/cluster/topology'' = Some EpTopology"
  "endpoint_at ''/healthz'' = Some EpHealthz"
  "endpoint_at ''/readyz'' = Some EpReadyz"
  "endpoint_at ''/metrics'' = Some EpMetrics"
  by code_simp+

lemma reserved_paths:
  "endpoint_at ''/api/v1/streams/publish'' = Some EpPublish"
  "endpoint_at ''/api/v1/streams/probe'' = Some EpProbe"
  "endpoint_at ''/api/v1/streams/samples'' = Some EpListSamples"
  by code_simp+

lemma plain_fixed [simp]:
  "plain_part ''api''" "plain_part ''v1''" "plain_part ''streams''" "plain_part ''ingest''"
  "plain_part ''recordings''" "plain_part ''fragments''" "plain_part ''whep''"
  by (simp_all add: plain_part_def)

text \<open>A stream, or anything below it.\<close>

lemma stream_routes:
  assumes "x \<noteq> []" and "x \<notin> set reserved_ids"
  shows "best_route (''/api/v1/streams/'' @ x) routes = Some (''/api/v1/streams/'', Protected [], EpStreamById)"
    and "(''/api/v1/streams/'' @ x) @ ''/'' \<notin> fst ` set routes"
  using assms
  by (simp_all add: best_route_def routes_def matches_def has_suffix_def has_prefix_def reserved_ids_def)

lemma stream_paths:
  assumes "is_valid_stream_id sid" and "\<forall>p \<in> set ps. plain_part p" and "ps \<noteq> [] \<or> sid \<notin> set reserved_ids"
  shows "endpoint_at (stream_path (sid # ps)) = Some EpStreamById"
proof -
  let ?x = "join_str ''/'' (sid # ps)"
  have "\<forall>p \<in> set (''api'' # ''v1'' # ''streams'' # sid # ps). plain_part p"
    using assms(1,2) valid_id_part by simp
  then have "clean_url_path (stream_path (sid # ps)) = stream_path (sid # ps)"
    using clean_path_plain [of "''api'' # ''v1'' # ''streams'' # sid # ps"] by (simp add: stream_path_def)
  moreover have "?x \<noteq> [] \<and> ?x \<notin> set reserved_ids"
  proof (cases ps)
    case Nil
    then show ?thesis using assms(1,3) by (auto simp: is_valid_stream_id_def)
  next
    case (Cons q qs)
    then have "CHR ''/'' \<in> set ?x" by simp
    then show ?thesis by (auto simp: reserved_ids_def)
  qed
  ultimately show ?thesis
    using stream_routes [of ?x] by (simp add: endpoint_at_def redirected_def stream_path_def)
qed

lemma whep_path:
  assumes "is_valid_stream_id sid"
  shows "endpoint_at (''/whep/'' @ sid) = Some EpWhep"
proof -
  have "clean_url_path (''/whep/'' @ sid) = ''/whep/'' @ sid"
    using clean_path_plain [of "[''whep'', sid]"] valid_id_part [OF assms] by simp
  moreover have "(''/whep/'' @ sid) @ ''/'' \<notin> fst ` set routes" by (simp add: routes_def)
  moreover have "best_route (''/whep/'' @ sid) routes = Some (''/whep/'', Public, EpWhep)"
    using assms
    by (auto simp: best_route_def routes_def matches_def has_suffix_def has_prefix_def is_valid_stream_id_def)
  ultimately show ?thesis by (simp add: endpoint_at_def redirected_def)
qed

section \<open>What the endpoints answer\<close>

lemma outcome_keeps: "n \<in> set codes \<Longrightarrow> keeps_promise codes (fst (answer_outcome n f p))"
  by (cases "(n, f, p)" rule: answer_outcome.cases) simp_all

lemma health_keeps: "keeps_promise [200, 503] (fst (handle_health io s))"
  by (simp add: handle_health_def health_code_def split: prod.split outcome.split)

lemma reports_keep:
  "keeps_promise [200] (fst (handle_unified_telemetry io s))"
  "keeps_promise [200] (handle_hardware io)"
  "keeps_promise [200] (handle_errors s)"
  "keeps_promise [200] (fst (handle_control_panel io s))"
  "keeps_promise [200] (fst (handle_cluster_topology io r s))"
  "keeps_promise [200] (handle_system_info io s)"
  "keeps_promise [200] handle_healthz" "keeps_promise [200] handle_readyz"
  by (simp_all add: handle_unified_telemetry_def handle_hardware_def handle_errors_def
      handle_control_panel_def handle_cluster_topology_def handle_system_info_def handle_healthz_def
      handle_readyz_def Let_def outcome_keeps)

lemma logs_keep:
  "hq_method r = ''GET'' \<Longrightarrow> keeps_promise [200] (fst (handle_logs env io r s))"
  "hq_method r = ''POST'' \<Longrightarrow> keeps_promise [201] (fst (handle_logs env io r s))"
  by (simp_all add: handle_logs_def Let_def split: option.split)

lemma streams_keep:
  "hq_method r = ''GET'' \<Longrightarrow> keeps_promise [200] (fst (handle_streams env io r c s))"
  "hq_method r = ''POST'' \<Longrightarrow> keeps_promise [201] (fst (handle_streams env io r c s))"
  by (simp_all add: handle_streams_def handle_list_streams_def handle_create_stream_def Let_def
      outcome_keeps split: option.split prod.split)

lemma owned_keeps:
  "(\<And>st. keeps_promise codes (fst (k st))) \<Longrightarrow> keeps_promise codes (fst (when_owned c sid s k))"
  by (simp add: when_owned_def split: sum.split)

lemma ingest_keeps: "keeps_promise [200] (show_ingest io sid s)"
  by (simp add: show_ingest_def split: sum.split)

lemma remove_keeps: "keeps_promise [204] (fst (remove_stream io sid s))"
  by (simp add: remove_stream_def split: prod.split option.split)

lemma upload_keeps: "keeps_promise [201] (fst (handle_upload_fragment env io r c sid s))"
  by (simp add: handle_upload_fragment_def split: option.split prod.split)

lemma fragments_keep:
  "hq_method r = ''GET'' \<Longrightarrow> keeps_promise [200] (fst (handle_stream_fragments env io r c sid ps s))"
  "hq_method r = ''POST'' \<Longrightarrow> keeps_promise [201] (fst (handle_stream_fragments env io r c sid [] s))"
  by (simp_all add: handle_stream_fragments_def handle_fragment_by_id_def handle_list_fragments_def
      Let_def upload_keeps split: sum.split prod.split option.split)

lemma whep_keeps:
  assumes "hq_method r = ''POST''"
  shows "keeps_promise [201] (fst (dispatch_whep io r sid [] s))"
  using assms by (simp add: dispatch_whep_def handle_post_offer_def split: option.split prod.split sum.split)

lemma root_whep_keeps:
  assumes "is_valid_stream_id sid" and "hq_path r = ''/whep/'' @ sid" and "hq_method r = ''POST''"
  shows "keeps_promise [201] (fst (handle_root_whep io r s))"
proof -
  have "CHR ''/'' \<notin> set sid" using valid_id_plain [OF assms(1)] by (simp add: plain_name_def)
  then show ?thesis
    using assms(2,3) whep_keeps
    by (simp add: handle_root_whep_def trim_prefix_def has_prefix_def split_char_single)
qed

section \<open>The server keeps the document\<close>

lemma fixed_op:
  assumes "endpoint_at p = Some ep" and "hq_path r = p" and "hq_method r \<noteq> ''OPTIONS''"
    and "\<And>c. keeps_promise codes (fst (run_endpoint env io r c ep s))"
  shows "keeps_promise codes (fst (serve env je key now io r s))"
  using assms by (intro serve_keeps) simp_all

lemmas fixed_ops = fixed_paths [THEN fixed_op]

lemma stream_op:
  assumes "hq_path r = stream_path (sid # ps)" and "is_valid_stream_id sid"
    and "\<forall>p \<in> set ps. plain_part p" and "ps \<noteq> [] \<or> sid \<notin> set reserved_ids" and "hq_method r \<noteq> ''OPTIONS''"
    and "\<And>c. keeps_promise codes (fst (stream_resource env io r c sid ps s))"
  shows "keeps_promise codes (fst (serve env je key now io r s))"
proof (rule serve_keeps [OF _ assms(5)])
  show "endpoint_at (hq_path r) = Some EpStreamById" using stream_paths assms(1-4) by simp
  have "\<forall>p \<in> set ps. CHR ''/'' \<notin> set p" using assms(3) by (auto simp: plain_part_def)
  then show "keeps_promise codes (fst (run_endpoint env io r c EpStreamById s))" for c
    using handle_by_path [OF assms(1,2)] assms(6) by (simp add: run_endpoint_def)
qed

text \<open>The codes an operation answers with: those of the document, but a deletion answers 204.\<close>

definition answered_codes :: "operation \<Rightarrow> int list" where
  "answered_codes d = (if op_method d = ''DELETE'' then [204] else op_codes d)"

lemma telemetry_kept:
  assumes "d \<in> set (telemetry_document @ system_document)"
    and "hq_method r = op_method d" and "hq_path r = op_url args d"
  shows "keeps_promise (answered_codes d) (fst (serve env je key now io r s))"
  using assms
  by (auto simp: telemetry_document_def system_document_def op_at_def op_url_def api_v1_def answered_codes_def)
    (rule fixed_ops, assumption, simp, simp add: run_endpoint_def health_keeps reports_keep logs_keep)+

lemma streams_kept:
  assumes "d \<in> set streams_document" and "fitting args"
    and "hq_method r = op_method d" and "hq_path r = op_url args d"
  shows "keeps_promise (answered_codes d) (fst (serve env je key now io r s))"
proof -
  define sid where "sid = args ''id''"
  have sid: "is_valid_stream_id sid" "sid \<notin> set reserved_ids" using assms(2) by (simp_all add: fitting_def sid_def)
  have one: "keeps_promise codes (fst (serve env je key now io r s))"
    if "hq_path r = stream_path [sid]" and "hq_method r \<noteq> ''OPTIONS''"
      and "\<And>c. keeps_promise codes (fst (stream_resource env io r c sid [] s))" for codes
    using stream_op [OF that(1) sid(1) _ _ that(2,3)] sid(2) by simp
  have show_one: "keeps_promise [200, 404] (fst (stream_resource env io r c sid [] s))"
    if "hq_method r = ''GET''" for c
    using that by (simp add: stream_resource_def owned_keeps)
  have drop_one: "keeps_promise [204] (fst (stream_resource env io r c sid [] s))"
    if "hq_method r = ''DELETE''" for c
    using that by (simp add: stream_resource_def owned_keeps remove_keeps)
  have ingest: "keeps_promise [200] (fst (serve env je key now io r s))"
    if "hq_path r = stream_path [sid, ''ingest'']" and "hq_method r = ''GET''"
    using stream_op [OF that(1) sid(1)] that(2)
    by (simp add: stream_resource_def owned_keeps ingest_keeps)
  consider "hq_path r = ''/api/v1/streams''" "hq_method r = ''GET''" "answered_codes d = [200]"
    | "hq_path r = ''/api/v1/streams''" "hq_method r = ''POST''" "answered_codes d = [201]"
    | "hq_path r = stream_path [sid]" "hq_method r = ''GET''" "answered_codes d = [200, 404]"
    | "hq_path r = stream_path [sid]" "hq_method r = ''DELETE''" "answered_codes d = [204]"
    | "hq_path r = stream_path [sid, ''ingest'']" "hq_method r = ''GET''" "answered_codes d = [200]"
    using assms(1,3,4)
    by (auto simp: streams_document_def op_at_def op_url_def api_v1_def answered_codes_def stream_path_def sid_def)
  then show ?thesis
  proof cases
    case 1
    then show ?thesis by (auto intro!: fixed_ops(7) simp: run_endpoint_def streams_keep)
  next
    case 2
    then show ?thesis by (auto intro!: fixed_ops(7) simp: run_endpoint_def streams_keep)
  next
    case 3
    then show ?thesis using one show_one by simp
  next
    case 4
    then show ?thesis using one drop_one by simp
  next
    case 5
    then show ?thesis using ingest by simp
  qed
qed

lemma recordings_kept:
  assumes "d \<in> set recordings_document" and "fitting args"
    and "hq_method r = op_method d" and "hq_path r = op_url args d"
  shows "keeps_promise (answered_codes d) (fst (serve env je key now io r s))"
proof -
  define sid where "sid = args ''id''"
  define fid where "fid = args ''fragment_id''"
  have sid: "is_valid_stream_id sid" and fid: "plain_part fid"
    using assms(2) valid_id_part by (simp_all add: fitting_def sid_def fid_def)
  have wider: "keeps_promise [200, 206] a" if "keeps_promise [200] a" for a
    using that by (cases a) auto
  consider "hq_path r = stream_path [sid, ''recordings'', ''fragments'']" "hq_method r = ''GET''"
      "answered_codes d = [200]"
    | "hq_path r = stream_path [sid, ''recordings'', ''fragments'']" "hq_method r = ''POST''"
      "answered_codes d = [201]"
    | "hq_path r = stream_path [sid, ''recordings'', ''fragments'', fid]" "hq_method r = ''GET''"
      "answered_codes d = [200, 206]"
    using assms(1,3,4)
    by (auto simp: recordings_document_def op_at_def op_url_def api_v1_def answered_codes_def stream_path_def
        sid_def fid_def)
  then show ?thesis
  proof cases
    case 1
    then show ?thesis using stream_op [OF 1(1) sid]
      by (simp add: stream_resource_def owned_keeps fragments_keep)
  next
    case 2
    then show ?thesis using stream_op [OF 2(1) sid]
      by (simp add: stream_resource_def owned_keeps fragments_keep)
  next
    case 3
    then show ?thesis using stream_op [OF 3(1) sid] fid
      by (simp add: stream_resource_def owned_keeps fragments_keep wider)
  qed
qed

lemma whep_kept:
  assumes "d \<in> set whep_document" and "fitting args"
    and "hq_method r = op_method d" and "hq_path r = op_url args d"
  shows "keeps_promise (answered_codes d) (fst (serve env je key now io r s))"
proof -
  define sid where "sid = args ''id''"
  define wid where "wid = args ''stream_id''"
  have sid: "is_valid_stream_id sid" and wid: "is_valid_stream_id wid"
    using assms(2) by (simp_all add: fitting_def sid_def wid_def)
  consider "hq_path r = stream_path [sid, ''whep'']" "hq_method r = ''POST''" "answered_codes d = [201]"
    | "hq_method r = ''OPTIONS''" "answered_codes d = [200]"
    | "hq_path r = ''/whep/'' @ wid" "hq_method r = ''POST''" "answered_codes d = [201]"
    using assms(1,3,4)
    by (auto simp: whep_document_def op_at_def op_url_def api_v1_def answered_codes_def stream_path_def
        sid_def wid_def)
  then show ?thesis
  proof cases
    case 1
    then show ?thesis using stream_op [OF 1(1) sid] by (simp add: stream_resource_def whep_keeps)
  next
    case 2
    then show ?thesis by (simp add: serve_def)
  next
    case 3
    then show ?thesis using root_whep_keeps [OF wid]
      by (auto intro!: serve_keeps [where ep = EpWhep] simp: whep_path [OF wid, simplified] run_endpoint_def)
  qed
qed

section \<open>Properties\<close>


text \<open>
  Ids that hide their stream: a stream may be registered as \<open>publish\<close>, \<open>probe\<close> or \<open>samples\<close>, but its
  own path is then the route of another handler, and no GET shows it and no DELETE there removes it,
  whoever asks.
\<close>

theorem reserved_id_out_of_reach:
  assumes "sid \<in> set reserved_ids" and "hq_path r = stream_path [sid]"
    and "hq_method r = ''GET'' \<or> hq_method r = ''DELETE''" and "serve env je key now io r s = (a, s')"
  shows "is_valid_stream_id sid \<and> s' = s \<and> shown_stream a = None"
proof -
  obtain ep where ep: "endpoint_at (hq_path r) = Some ep" "ep = EpPublish \<or> ep = EpProbe \<or> ep = EpListSamples"
    using assms(1,2) reserved_paths by (auto simp: reserved_ids_def stream_path_def)
  obtain pat prot where "\<not> redirected (hq_path r)" "best_route (hq_path r) routes = Some (pat, prot, ep)"
    using ep(1) by (auto simp: endpoint_at_def split: if_splits)
  moreover have "snd (run_endpoint env io r c ep s) = s \<and> shown_stream (fst (run_endpoint env io r c ep s)) = None" for c
    using ep(2) assms(3)
    by (auto simp: run_endpoint_def handle_publish_def handle_probe_stream_def handle_list_samples_def)
  ultimately have "s' = s \<and> shown_stream a = None"
    using assms(4) by (auto simp: serve_def split: if_splits protection.splits sum.splits option.splits) (metis fst_conv snd_conv)+
  moreover have "is_valid_stream_id sid"
    using assms(1) by (auto simp: reserved_ids_def is_valid_stream_id_def id_char_def)
  ultimately show ?thesis by simp
qed

text \<open>
  C40: A DELETE below a stream deletes the stream: there is no handler for removing a consumer, and a DELETE
  of \<^verbatim>\<open>/api/v1/streams/{id}/consumers/{type}\<close> by a caller who may manage the stream falls through to
  the removal of the whole stream and of its ingest session.
\<close>

theorem consumer_delete_drops_stream:
  assumes "svc_stream s sid = Some st" and "is_valid_stream_id sid" and "is_valid_stream_id kind"
    and "hq_path r = stream_path [sid, ''consumers'', kind]" and "hq_method r = ''DELETE''"
    and "auth_middleware je key now r = Inr c" and "can_manage c"
    and "cross_tenant c \<or> st_tenant_id st = ca_tenant c"
  shows "fst (serve env je key now io r s) = Answered 204 AEmpty \<and>
    svc_stream (snd (serve env je key now io r s)) sid = None \<and>
    svc_session (snd (serve env je key now io r s)) sid = None"
proof -
  have parts: "\<forall>p \<in> set [''consumers'', kind]. plain_part p"
    using valid_id_part [OF assms(3)] by (simp add: plain_part_def)
  have "endpoint_at (hq_path r) = Some EpStreamById" using stream_paths [OF assms(2) parts] assms(4) by simp
  then have "\<not> redirected (hq_path r)" by (auto simp: endpoint_at_def split: if_splits)
  moreover have "best_route (hq_path r) routes = Some (''/api/v1/streams/'', Protected [], EpStreamById)"
    using stream_routes(1) [of "join_str ''/'' [sid, ''consumers'', kind]"] assms(4)
    by (simp add: stream_path_def reserved_ids_def)
  moreover have "sid \<noteq> []" using assms(2) by (auto simp: is_valid_stream_id_def)
  moreover from this have "check_ownership c sid s = Inr st"
    using assms(1,8) by (auto simp: check_ownership_def get_stream_eq)
  then have "run_endpoint env io r c EpStreamById s = remove_stream io sid s"
    using handle_by_path [OF assms(4,2)] parts assms(5,7)
    by (simp add: run_endpoint_def plain_part_def stream_resource_def when_owned_def)
  ultimately have served: "serve env je key now io r s = remove_stream io sid s"
    using assms(5,6) by (simp add: serve_def)
  obtain err s1 where del: "delete_stream (io_clock io) sid s = (err, s1)" by (metis surj_pair)
  note gone = delete_stream_effect [OF \<open>sid \<noteq> []\<close> del]
  show ?thesis using assms(1) gone(1) by (simp add: served remove_stream_def del gone(2,3))
qed

text \<open>
  The document leaves out whole parts of the API: no documented path leads to publishing, probing,
  the list of samples, chaos, diagnostics, camera discovery and import, or the general upload.
\<close>

theorem document_leaves_out:
  assumes "d \<in> set api_document" and "fitting args"
  shows "endpoint_at (op_url args d) \<notin> Some ` {EpPublish, EpProbe, EpListSamples, EpChaosInject,
    EpChaosReset, EpDiagnostics, EpDiscover, EpOnvifProbe, EpImport, EpRecordings}"
proof -
  have id: "is_valid_stream_id (args n)" "plain_part (args n)" "args ''id'' \<notin> set reserved_ids" for n
    using assms(2) valid_id_part by (simp_all add: fitting_def)
  note paths = stream_paths [OF id(1), of _ "''id''", unfolded stream_path_def]
  have "endpoint_at (op_url args d) \<in> Some ` {EpHealth, EpTelemetry, EpHardware, EpLogs, EpErrors, EpPanel, EpStreams,
      EpInfo, EpTopology, EpHealthz, EpReadyz, EpMetrics, EpStreamById, EpWhep}"
    using assms(1) paths [of "[]"] paths [of "[''ingest'']"] paths [of "[''recordings'', ''fragments'']"]
      paths [of "[''recordings'', ''fragments'', args ''fragment_id'']"] paths [of "[''whep'']"]
      whep_path [OF id(1), of "''stream_id''"] id(2,3)
    by (auto simp: api_document_def telemetry_document_def streams_document_def recordings_document_def
        whep_document_def system_document_def op_at_def op_url_def api_v1_def fixed_paths)
  then show ?thesis by auto
qed

text \<open>Every path the descriptor of the server names is one it serves.\<close>

lemma descriptor_paths_served: "list_all (\<lambda>e. endpoint_at (snd e) \<noteq> None) root_endpoints"
  by code_simp

section \<open>Concrete requests\<close>

definition cam_args :: "string \<Rightarrow> string" where
  "cam_args n = ''cam1''"

lemma cam_args_fit: "fitting cam_args"
  using valid_cam1 by (simp add: fitting_def cam_args_def reserved_ids_def)


theorem document_leaves_out_witness:
  "endpoint_at ''/api/v1/streams/cam1'' \<noteq> Some EpImport"
  using document_leaves_out [of "op_at (api_v1 [Fixed ''streams'', Param ''id'']) ''DELETE'' [] [200, 404]" cam_args]
    cam_args_fit
  by (simp add: api_document_def streams_document_def op_at_def op_url_def api_v1_def cam_args_def)

theorem reserved_id_out_of_reach_witness:
  "shown_stream (fst (serve (json_env zero_fragment []) viewer_jwt [] 9 plain_io
     (get_request [''probe'']) cam_service)) = None"
  using reserved_id_out_of_reach [of "''probe''" "get_request [''probe'']", OF _ _ _ prod.collapse [symmetric]]
  by (simp add: reserved_ids_def get_request_def)

text \<open>A request from the machine itself: an administrator of every tenant.\<close>

definition local_delete :: http_request where
  "local_delete = (get_request [''cam1'', ''consumers'', ''ai''])\<lparr>hq_method := ''DELETE'',
     hq_remote := ''127.0.0.1:5000''\<rparr>"

lemma local_admin:
  "auth_middleware je [] now local_delete =
     Inr \<lparr>ca_tenant = ''default'', ca_user = ''local-admin'', ca_role = ''superadmin''\<rparr>"
  by (simp add: auth_middleware_def api_key_ok_def token_of_def from_loopback_def local_delete_def
      get_request_def json_post_def has_prefix_def)

theorem consumer_delete_drops_stream_witness:
  "svc_stream (snd (serve (json_env zero_fragment []) viewer_jwt [] 9 plain_io local_delete cam_service)) ''cam1'' = None"
proof -
  have "is_valid_stream_id ''ai''" by (simp add: is_valid_stream_id_def id_char_def)
  from consumer_delete_drops_stream [OF cam_stored valid_cam1 this _ _ local_admin [of viewer_jwt 9],
      where env = "json_env zero_fragment []" and io = plain_io]
  show ?thesis by (simp add: local_delete_def get_request_def can_manage_def cross_tenant_def)
qed

end
