(* ===== verification/HttpCameras.thy ===== *)
theory HttpCameras
  imports HttpRoutes
begin

text \<open>
  What the handlers of theory HttpProbe mean for the server: which requests make it contact hosts,
  delete pictures or end, and for which callers.
\<close>

section \<open>Requests on exact routes\<close>

lemma serve_exact:
  assumes "hq_method r \<noteq> ''OPTIONS''" and "\<not> redirected (hq_path r)"
    and "best_route (hq_path r) routes = Some (pat, Protected [], ep)" and "auth_middleware je key now r = Inr c"
  shows "serve env je key now io r s = run_endpoint env io r c ep s"
  using assms by (simp add: serve_def)

lemma discover_route:
  "\<not> redirected ''/api/v1/onvif/discover''"
  "best_route ''/api/v1/onvif/discover'' routes = Some (''/api/v1/onvif/discover'', Protected [], EpDiscover)"
  "\<not> redirected ''/api/v1/onvif/probe''"
  "best_route ''/api/v1/onvif/probe'' routes = Some (''/api/v1/onvif/probe'', Protected [], EpOnvifProbe)"
  "\<not> redirected ''/api/v1/streams/probe''"
  "best_route ''/api/v1/streams/probe'' routes = Some (''/api/v1/streams/probe'', Protected [], EpProbe)"
  by code_simp+

section \<open>Properties\<close>

text \<open>
  Looking at an unknown picture deletes others: whoever asks for the snapshot of an id without a
  source (no stream, no \<^verbatim>\<open>url\<close> in the query, no camera in the databases) is shown the standby picture,
  and every sample file whose name has that id anywhere before \<^verbatim>\<open>.jpg\<close> is deleted, whosever stream it
  belongs to; an id can be a single letter.
\<close>

theorem unknown_snapshot_deletes_others:
  assumes "is_valid_stream_id sid" and "svc_stream s sid = None" and "hq_query r ''url'' = []"
    and "\<And>db. \<not> sx_database (io_snapshot io) db"
    and "CHR ''/'' \<notin> \<Union> (set ` sv_samples s)" and "hq_path r = stream_path [sid, ''snapshot'']"
    and "handle_stream_by_id env io r c s = (a, s')"
  shows "a = Answered 200 (AImage (standby (io_snapshot io))) \<and>
    sv_samples s' = {f \<in> sv_samples s. \<not> (\<exists>u v. f = u @ sid @ v @ ''.jpg'')}"
proof -
  have "handle_stream_by_id env io r c s = stream_resource env io r c sid [''snapshot''] s"
    by (rule handle_by_path [OF assms(6,1)]) simp
  then have "handle_snapshot io r sid s = (a, s')" using assms(7) by (simp add: stream_resource_def)
  then show ?thesis using unknown_snapshot_purge [OF assms(1-3) _ assms(5), of io a s'] assms(4) by simp
qed

text \<open>
  The \<^verbatim>\<open>url\<close> of a snapshot is opened unchecked: asked to refresh a picture that no bridge, no
  reader and no recent probe provides, the server opens whatever URL the query gives (unless it
  contains localhost:8554) before any other, whatever stream is asked for.
\<close>

theorem snapshot_opens_given_url:
  assumes "hq_query r ''url'' = url" and "url \<noteq> []" and "\<not> str_contains url ''localhost:8554''"
    and "is_refresh r" and "\<not> sx_h264 (io_snapshot io)" and "\<not> sx_mjpeg (io_snapshot io)"
    and "probe_picture (io_snapshot io) (sample_path (path_base sid)) = None"
    and "take_picture (io_snapshot io) (is_refresh r) (path_base sid) (snapshot_url io r sid s) = (img, contacts, ws)"
  shows "\<exists>rest. contacts = Opened url # rest"
proof -
  let ?x = "io_snapshot io" and ?f = "sample_path (path_base sid)"
  have u: "snapshot_url io r sid s = url" using assms(1,2) by (simp add: snapshot_url_def Let_def)
  have first: "\<exists>us. snd (ffmpeg_picture ?x k ?f (url # vs)) = url # us" for k vs
    by (simp add: case_prod_beta split: option.split)
  have "urls_to_try (path_base sid) url = url # [''rtsp://localhost:8554/'' @ path_base sid @ ''_sub'',
      ''rtsp://localhost:8554/'' @ path_base sid]" using assms(3) by (simp add: urls_to_try_def)
  then obtain shot us where f: "ffmpeg_picture ?x 13 ?f (urls_to_try (path_base sid) url) = (shot, url # us)"
    using first by (metis prod.collapse)
  have "bridge_picture ?x ?f = None" "reader_picture ?x = None" "cached_picture ?x (is_refresh r) ?f = None"
    using assms(4-6) by (simp_all add: bridge_picture_def reader_picture_def cached_picture_def)
  then show ?thesis
    using assms(7,8) f unfolding u take_picture_def
    by (cases "engine_picture ?x url"; cases shot; cases "left_picture ?x ?f")
      (auto simp: Let_def engine_picture_def case_prod_beta split: if_splits)
qed


text \<open>
  C37: The ONVIF endpoint asks any host: \<^verbatim>\<open>/api/v1/onvif/probe\<close> has no guard, so a host that
  \<^verbatim>\<open>/api/v1/streams/probe\<close> refuses (a loopback address, say) is asked all the same for the same
  authenticated caller, and if the HTTP server there answers every call with a body without \<open><\<close>, it
  is reported as a camera on that host.
\<close>

theorem onvif_probe_has_no_guard:
  assumes "hq_method r = ''POST''" and "auth_middleware je key now (r\<lparr>hq_path := ''/api/v1/onvif/probe''\<rparr>) = Inr c"
    and "Option.bind (hq_body r) (en_decode_onvif env) = Some q" and "oq_ip q \<noteq> []"
    and "is_blocked_target (io_probe io) (oq_ip q) = Some e"
    and "\<And>k u a x. \<exists>b. se_call (asked_camera io q) k u a x = Inr b \<and> CHR ''<'' \<notin> set b"
    and "Option.bind (hq_body r) (en_decode_probe env) = Some p" and "to_lower (pq_protocol p) = ''onvif''"
    and "pq_ip p = oq_ip q"
  shows "(\<exists>d. fst (serve env je key now io (r\<lparr>hq_path := ''/api/v1/onvif/probe''\<rparr>) s) =
      Answered 200 (ADevice d) \<and> od_ip d = oq_ip q) \<and>
    handle_probe_stream env io r s = (Answered 200 (AProbe (blocked_response e)), s)"
proof -
  let ?r = "r\<lparr>hq_path := ''/api/v1/onvif/probe''\<rparr>"
  have "serve env je key now io ?r s = run_endpoint env io ?r c EpOnvifProbe s"
    using assms(1,2) discover_route by (intro serve_exact [where pat = "''/api/v1/onvif/probe''"]) simp_all
  moreover have "handle_onvif_probe env io ?r s = handle_onvif_probe env io r s"
    by (simp add: handle_onvif_probe_def)
  ultimately show ?thesis
    using onvif_probe_unguarded [OF assms(1,3-9)] by (simp add: run_endpoint_def)
qed

section \<open>Concrete requests\<close>

lemma viewer_any:
  assumes "hq_authorization r = hq_authorization viewer_request" and "hq_api_key r = hq_api_key viewer_request"
    and "hq_remote r = hq_remote viewer_request" and "hq_query r = hq_query viewer_request"
  shows "auth_middleware viewer_jwt [] 9 r = Inr \<lparr>ca_tenant = ''alpha'', ca_user = ''u'', ca_role = ''viewer''\<rparr>"
proof -
  have "auth_middleware viewer_jwt [] 9 r = auth_middleware viewer_jwt [] 9 viewer_request"
    unfolding auth_middleware_def token_of_def from_loopback_def api_key_ok_def assms ..
  then show ?thesis using viewer_authenticated by simp
qed

definition peek :: http_request where
  "peek = (get_request [''a'', ''snapshot''])\<lparr>hq_path := stream_path [''a'', ''snapshot'']\<rparr>"

theorem unknown_snapshot_deletes_others_witness:
  "sv_samples (snd (handle_stream_by_id (json_env zero_fragment []) plain_io peek beta_operator
     (cam_service\<lparr>sv_samples := {''cam1.jpg'', ''door.jpg''}\<rparr>))) = {''door.jpg''}"
proof -
  let ?s = "cam_service\<lparr>sv_samples := {''cam1.jpg'', ''door.jpg''}\<rparr>"
  have "svc_stream cam_service ''a'' = None" by (simp add: cam_service_stream)
  then have none: "svc_stream ?s ''a'' = None" by (simp add: svc_stream_def)
  have "is_valid_stream_id ''a''" by (simp add: is_valid_stream_id_def id_char_def)
  from unknown_snapshot_deletes_others [OF this none _ _ _ _ prod.collapse [symmetric], of peek plain_io
      "json_env zero_fragment []" beta_operator]
  have e: "sv_samples (snd (handle_stream_by_id (json_env zero_fragment []) plain_io peek beta_operator ?s)) =
      {f \<in> {''cam1.jpg'', ''door.jpg''}. \<not> (\<exists>u v. f = u @ ''a'' @ v @ ''.jpg'')}"
    by (simp add: peek_def get_request_def json_post_def plain_io_def dark_world_def)
  have pick: "P x \<Longrightarrow> \<not> P y \<Longrightarrow> {f \<in> {x, y}. \<not> P f} = {y}" for P and x y :: string by auto
  have "\<exists>u v. ''cam1.jpg'' = u @ ''a'' @ v @ ''.jpg''"
    by (intro exI [of _ "''c''"] exI [of _ "''m1''"]) simp
  moreover have "\<not> (\<exists>u v. ''door.jpg'' = u @ ''a'' @ v @ ''.jpg'')"
  proof
    assume "\<exists>u v. ''door.jpg'' = u @ ''a'' @ v @ ''.jpg''"
    then have "CHR ''a'' \<in> set ''door.jpg''" by (metis Un_iff list.set_intros(1) set_append)
    then show False by simp
  qed
  ultimately show ?thesis unfolding e by (rule pick)
qed

theorem snapshot_opens_given_url_witness:
  "\<exists>rest. fst (snd (take_picture dark_world True ''cam1'' ''http://10.0.0.1/'')) = Opened ''http://10.0.0.1/'' # rest"
proof -
  let ?r = "json_post\<lparr>hq_query := (\<lambda>k. if k = ''url'' then ''http://10.0.0.1/'' else ''true'')\<rparr>"
  have "is_refresh ?r" "snapshot_url plain_io ?r ''cam1'' cam_service = ''http://10.0.0.1/''"
    "path_base ''cam1'' = ''cam1''" "\<not> str_contains ''http://10.0.0.1/'' ''localhost:8554''"
    by (simp_all add: is_refresh_def snapshot_url_def path_base_plain, code_simp?)
  then show ?thesis
    using snapshot_opens_given_url [of ?r "''http://10.0.0.1/''" plain_io "''cam1''" cam_service, OF _ _ _ _ _ _ _ prod_eq_iff [THEN iffD2]]
    by (auto simp: plain_io_def dark_world_def probe_picture_def prod_eq_iff)
qed

definition discover_request :: http_request where
  "discover_request = viewer_request\<lparr>hq_method := ''GET'', hq_path := ''/api/v1/onvif/discover''\<rparr>"


definition local_request :: onvif_request where
  "local_request = \<lparr>oq_ip = ''localhost'', oq_port = 8443, oq_user = [], oq_pass = []\<rparr>"

definition local_env :: http_env where
  "local_env = (json_env zero_fragment [])
     \<lparr>en_decode_onvif := (\<lambda>b. Some local_request), en_decode_probe := (\<lambda>b. Some (ask ''ONVIF'' [] ''localhost''))\<rparr>"

lemma localhost_refused: "\<exists>e. is_blocked_target small_world ''localhost'' = Some e"
proof -
  have "trim_space ''localhost'' = ''localhost''" by code_simp
  moreover have "list_ex (equal_fold ''localhost'') blocked_names"
    by (simp add: blocked_names_def)
  ultimately show ?thesis by (simp add: is_blocked_target_def small_world_def)
qed

theorem onvif_probe_has_no_guard_witness:
  "\<exists>d. fst (serve local_env viewer_jwt [] 9 plain_io
     (viewer_request\<lparr>hq_method := ''POST'', hq_path := ''/api/v1/onvif/probe''\<rparr>) cam_service) =
     Answered 200 (ADevice d) \<and> od_ip d = ''localhost''"
proof -
  let ?r = "viewer_request\<lparr>hq_method := ''POST''\<rparr>"
  have auth: "auth_middleware viewer_jwt [] 9 (?r\<lparr>hq_path := ''/api/v1/onvif/probe''\<rparr>) =
      Inr \<lparr>ca_tenant = ''alpha'', ca_user = ''u'', ca_role = ''viewer''\<rparr>"
    using viewer_any [of "?r\<lparr>hq_path := ''/api/v1/onvif/probe''\<rparr>"] by (simp add: viewer_request_def)
  have body: "hq_body ?r = Some ''x''" by (simp add: viewer_request_def get_request_def json_post_def)
  obtain e where e: "is_blocked_target (io_probe plain_io) (oq_ip local_request) = Some e"
    using localhost_refused by (auto simp: plain_io_def local_request_def)
  have "\<exists>b. se_call (asked_camera plain_io local_request) k u a x = Inr b \<and> CHR ''<'' \<notin> set b" for k u a x
    by (simp add: asked_camera_def plain_io_def small_world_def silent_web_def)
  moreover have "to_lower ''ONVIF'' = ''onvif''" by code_simp
  ultimately show ?thesis
    using onvif_probe_has_no_guard [OF _ auth, of local_env local_request plain_io e "ask ''ONVIF'' [] ''localhost''"] e
    by (auto simp: body local_env_def local_request_def ask_def)
qed

end
