(* ===== verification/MediaBridge.thy ===== *)
theory MediaBridge
  imports HttpRoutes
begin

text \<open>
  \<^verbatim>\<open>stream_handler_mjpeg.go\<close> and \<^verbatim>\<open>stream_handler_h264_bridge.go\<close>: the tables of running MJPEG readers
  and H.264 bridges, which concurrent requests share. Each critical section of the mutexes is one
  operation; requests and processes are numbered in the order they begin. What FFmpeg does is not
  modelled, only when it is started, killed and found to have ended.
\<close>

section \<open>State\<close>

text \<open>
  \<open>md_mjpeg\<close> is \<^verbatim>\<open>mjpegCancels\<close> (the cancel function of request \<open>t\<close>), \<open>md_bridges\<close>, \<open>md_pipes\<close> and
  \<open>md_starting\<close> the three maps of the bridges. \<open>md_cancelled\<close>, \<open>md_killed\<close> and \<open>md_cleaned\<close> record which
  requests were cancelled, which processes were killed and whose pipes were cleaned up.
\<close>

record media =
  md_mjpeg :: "string \<rightharpoonup> nat"
  md_bridges :: "string \<rightharpoonup> nat"
  md_pipes :: "string \<rightharpoonup> nat"
  md_starting :: "string \<rightharpoonup> nat"
  md_cancelled :: "nat set"
  md_killed :: "nat set"
  md_cleaned :: "nat set"

definition no_media :: media where
  "no_media =
     \<lparr>md_mjpeg = Map.empty, md_bridges = Map.empty, md_pipes = Map.empty, md_starting = Map.empty,
      md_cancelled = {}, md_killed = {}, md_cleaned = {}\<rparr>"

definition base_id :: "string \<Rightarrow> string" where
  "base_id sid = trim_suffix (path_base sid) ''_sub''"

section \<open>Bridges\<close>

definition clean_pipe :: "string \<Rightarrow> media \<Rightarrow> media" where
  "clean_pipe i m =
     (case md_pipes m i of
        None \<Rightarrow> m
      | Some p \<Rightarrow> m\<lparr>md_cleaned := insert p (md_cleaned m), md_pipes := (md_pipes m)(i := None)\<rparr>)"

definition kill_bridge :: "string \<Rightarrow> media \<Rightarrow> media" where
  "kill_bridge i m =
     (case md_bridges m i of
        None \<Rightarrow> m
      | Some p \<Rightarrow> m\<lparr>md_killed := insert p (md_killed m), md_bridges := (md_bridges m)(i := None)\<rparr>)"

definition stop_h264_internal :: "string \<Rightarrow> media \<Rightarrow> media" where
  "stop_h264_internal sid m = fold (\<lambda>i m. kill_bridge i (clean_pipe i m)) [sid, path_base sid] m"

definition stop_all_bridges :: "media \<Rightarrow> media" where
  "stop_all_bridges m =
     m\<lparr>md_cleaned := md_cleaned m \<union> ran (md_pipes m), md_pipes := Map.empty,
       md_killed := md_killed m \<union> ran (md_bridges m), md_bridges := Map.empty\<rparr>"

definition is_h264_active :: "string \<Rightarrow> media \<Rightarrow> bool" where
  "is_h264_active sid m \<longleftrightarrow> (\<exists>i \<in> set [sid, path_base sid]. md_bridges m i \<noteq> None)"

text \<open>The first critical section of the start handler: three outcomes.\<close>

datatype start_verdict = AlreadyRunning | WaitFor nat | MayStart

definition start_check :: "nat \<Rightarrow> string \<Rightarrow> media \<Rightarrow> start_verdict \<times> media" where
  "start_check t sid m =
     (let c = path_base sid
      in if md_bridges m c \<noteq> None then (AlreadyRunning, m)
         else case md_starting m c of
                Some u \<Rightarrow> (WaitFor u, m)
              | None \<Rightarrow> (MayStart, m\<lparr>md_starting := (md_starting m)(c \<mapsto> t)\<rparr>))"

text \<open>\<open>piped\<close>: whether the process reads from the Rust engine, whose pipe must be cleaned up.\<close>

definition register_bridge :: "nat \<Rightarrow> bool \<Rightarrow> string \<Rightarrow> media \<Rightarrow> media" where
  "register_bridge p piped sid m =
     (let c = path_base sid; m1 = m\<lparr>md_bridges := (md_bridges m)(c \<mapsto> p)\<rparr>
      in if piped then m1\<lparr>md_pipes := (md_pipes m1)(c \<mapsto> p)\<rparr> else m1)"

text \<open>The goroutine that waits for the process, when it has ended.\<close>

definition bridge_ended :: "nat \<Rightarrow> bool \<Rightarrow> string \<Rightarrow> media \<Rightarrow> media" where
  "bridge_ended p piped sid m =
     (let c = path_base sid;
          m1 = (if piped then m\<lparr>md_cleaned := insert p (md_cleaned m)\<rparr> else m)
      in if md_bridges m1 c = Some p
         then m1\<lparr>md_bridges := (md_bridges m1)(c := None), md_pipes := (md_pipes m1)(c := None)\<rparr>
         else m1)"

definition start_done :: "string \<Rightarrow> media \<Rightarrow> media" where
  "start_done sid m = m\<lparr>md_starting := (md_starting m)(path_base sid := None)\<rparr>"

section \<open>MJPEG readers\<close>

definition cancel_reader :: "string \<Rightarrow> media \<Rightarrow> media" where
  "cancel_reader i m =
     (case md_mjpeg m i of
        None \<Rightarrow> m
      | Some t \<Rightarrow> m\<lparr>md_cancelled := insert t (md_cancelled m), md_mjpeg := (md_mjpeg m)(i := None)\<rparr>)"

definition stop_mjpeg_internal :: "string \<Rightarrow> media \<Rightarrow> media" where
  "stop_mjpeg_internal sid m = fold cancel_reader [sid, path_base sid, base_id sid] m"

definition is_mjpeg_active :: "string \<Rightarrow> media \<Rightarrow> bool" where
  "is_mjpeg_active sid m \<longleftrightarrow> (\<exists>i \<in> set [sid, path_base sid, base_id sid]. md_mjpeg m i \<noteq> None)"

text \<open>The begin of a reader, and its deferred functions in the order they run.\<close>

definition mjpeg_begin :: "nat \<Rightarrow> string \<Rightarrow> media \<Rightarrow> media" where
  "mjpeg_begin t sid m =
     (let c = path_base sid;
          m1 = stop_h264_internal c m;
          m2 = (case md_mjpeg m1 c of
                  None \<Rightarrow> m1 | Some old \<Rightarrow> m1\<lparr>md_cancelled := insert old (md_cancelled m1)\<rparr>)
      in m2\<lparr>md_mjpeg := (md_mjpeg m2)(c \<mapsto> t)\<rparr>)"

definition mjpeg_end :: "nat \<Rightarrow> string \<Rightarrow> media \<Rightarrow> media" where
  "mjpeg_end t sid m =
     (let m1 = m\<lparr>md_mjpeg := (md_mjpeg m)(path_base sid := None)\<rparr>
      in m1\<lparr>md_cancelled := insert t (md_cancelled m1)\<rparr>)"

section \<open>What a bridge reads and how it is started\<close>

text \<open>
  What the camera databases are asked for: the substream of an id that ends in \<^verbatim>\<open>_sub\<close>, under the id
  without that ending.
\<close>

definition camera_field :: "string \<Rightarrow> string" where
  "camera_field c =
     (if has_suffix c ''_sub'' then ''COALESCE(NULLIF(sub_stream_url, '' @ [CHR 0x27, CHR 0x27] @ ''), rtsp_url)''
      else ''rtsp_url'')"

definition stream_query :: "string \<Rightarrow> string" where
  "stream_query sid =
     ''SELECT '' @ camera_field (path_base sid) @ '' FROM cameras WHERE id = '' @ [CHR 0x27] @ base_id sid @
     [CHR 0x27] @ '' LIMIT 1;''"

text \<open>\<open>db\<close> is the URL the databases give. A URL that contains \<^verbatim>\<open>localhost\<close> is not used.\<close>

definition bridge_source :: "stream option \<Rightarrow> string \<Rightarrow> string" where
  "bridge_source st db =
     (let own = (case st of None \<Rightarrow> [] | Some s \<Rightarrow>
                   if st_source_url s \<noteq> [] \<and> \<not> str_contains (st_source_url s) ''localhost''
                   then st_source_url s else [])
      in if own = [] then db else own)"

definition wants_hevc :: "string \<Rightarrow> stream option \<Rightarrow> bool" where
  "wants_hevc c st \<longleftrightarrow>
     has_suffix c ''_sub'' \<or> (case st of None \<Rightarrow> False | Some s \<Rightarrow> is_h265 s)"

definition video_args :: "bool \<Rightarrow> bool \<Rightarrow> string list" where
  "video_args hevc nvenc =
     (if \<not> hevc then [''-c:v'', ''copy'']
      else if nvenc then
        [''-c:v'', ''h264_nvenc'', ''-preset'', ''p1'', ''-tune'', ''ull'', ''-zerolatency'', ''1'',
         ''-profile:v'', ''baseline'', ''-level'', ''3.1'', ''-bf'', ''0'', ''-forced-idr'', ''1'',
         ''-g'', ''25'', ''-b:v'', ''1000k'', ''-maxrate'', ''1500k'', ''-bufsize'', ''500k'']
      else
        [''-c:v'', ''libx264'', ''-preset'', ''ultrafast'', ''-tune'', ''zerolatency'', ''-profile:v'',
         ''baseline'', ''-level'', ''3.1'', ''-bf'', ''0'', ''-g'', ''25'', ''-threads'', ''2''])"

definition base_flags :: "string list" where
  "base_flags =
     [''-loglevel'', ''warning'', ''-probesize'', ''32768'', ''-analyzeduration'', ''0'',
      ''-fflags'', ''nobuffer+fastseek+genpts'', ''-flags'', ''low_delay'',
      ''-avoid_negative_ts'', ''make_zero'']"

text \<open>Only a camera on another host is read through the Rust engine.\<close>

definition external_rtsp :: "string \<Rightarrow> bool" where
  "external_rtsp url \<longleftrightarrow>
     has_prefix (to_lower url) ''rtsp://'' \<and> \<not> str_contains url ''localhost:'' \<and>
     \<not> str_contains url ''127.0.0.1:''"

definition rtmp_target :: "http_env \<Rightarrow> string \<Rightarrow> string" where
  "rtmp_target env c = ''rtmp://127.0.0.1:'' @ variable_or env ''RTMP_PORT'' ''1935'' @ ''/live/'' @ c"

definition bridge_args :: "bool \<Rightarrow> bool \<Rightarrow> bool \<Rightarrow> string \<Rightarrow> string \<Rightarrow> string list" where
  "bridge_args piped hevc nvenc url target =
     base_flags @
     (if piped then [''-f'', if hevc then ''hevc'' else ''h264'', ''-i'', ''-'']
      else [''-rtsp_transport'', ''tcp'', ''-i'', url]) @
     video_args hevc nvenc @ [''-an'', ''-f'', ''flv'', target]"

text \<open>What the database, the engine and FFmpeg do during one start.\<close>

record start_inputs =
  si_database :: "string \<Rightarrow> bool"
  si_query :: "string \<Rightarrow> string \<Rightarrow> string option"
  si_nvenc :: bool
  si_pipe_ok :: bool
  si_started :: "string list \<Rightarrow> string option"

datatype start_reply =
    StartedAt string
  | RunningAlready
  | NoSource
  | StartFailed string

text \<open>
  The part of the handler between its first critical section and the end, for request \<open>t\<close>, whose
  process gets the number \<open>p\<close>; \<open>si_started\<close> is the error of \<^verbatim>\<open>cmd.Start\<close>, if any.
\<close>

definition start_bridge ::
  "http_env \<Rightarrow> start_inputs \<Rightarrow> http_request \<Rightarrow> nat \<Rightarrow> string \<Rightarrow> service \<Rightarrow> media
   \<Rightarrow> start_reply \<times> string list \<times> media" where
  "start_bridge env si r p sid s m =
     (let c = path_base sid;
          m1 = stop_mjpeg_internal c m;
          st = (case get_stream sid s of Inl _ \<Rightarrow> None | Inr st \<Rightarrow> Some st);
          url = bridge_source st (first_url (si_database si) (si_query si) (stream_query sid) database_paths)
      in if url = [] then (NoSource, [], start_done sid m1)
         else
           let piped = (external_rtsp url \<and> si_pipe_ok si);
               args = bridge_args piped (wants_hevc c st) (si_nvenc si) url (rtmp_target env c)
           in (case si_started si args of
                 Some e \<Rightarrow>
                   (StartFailed e, args,
                    start_done sid (if piped then m1\<lparr>md_cleaned := insert p (md_cleaned m1)\<rparr> else m1))
               | None \<Rightarrow>
                   (StartedAt (''ws://'' @ host_for_publish env r @ '':'' @
                      variable_or env ''WSP_PORT'' ''8085'' @ ''/live/'' @ c), args,
                    start_done sid (register_bridge p piped sid m1))))"

text \<open>The whole start handler when no other request interferes.\<close>

definition handle_h264_start ::
  "http_env \<Rightarrow> start_inputs \<Rightarrow> http_request \<Rightarrow> nat \<Rightarrow> nat \<Rightarrow> string \<Rightarrow> service \<Rightarrow> media
   \<Rightarrow> start_reply \<times> string list \<times> media" where
  "handle_h264_start env si r t p sid s m =
     (case start_check t sid m of
        (MayStart, m1) \<Rightarrow> start_bridge env si r p sid s m1
      | (_, m1) \<Rightarrow> (RunningAlready, [], m1))"

text \<open>The stop handler.\<close>

definition handle_h264_stop :: "string \<Rightarrow> media \<Rightarrow> string \<times> media" where
  "handle_h264_stop sid m = (''stopped'', stop_h264_internal sid m)"

text \<open>
  \<^verbatim>\<open>isNVENCAvailable\<close>: the encoder is tried once (\<^verbatim>\<open>sync.Once\<close>) and the outcome kept; \<open>works\<close> says whether
  the trial, run now, would succeed.
\<close>

definition nvenc_trial :: "string list" where
  "nvenc_trial =
     [''-f'', ''lavfi'', ''-i'', ''nullsrc=s=256x256:d=0.04'', ''-c:v'', ''h264_nvenc'', ''-f'', ''null'', ''-'']"

definition is_nvenc_available :: "(string list \<Rightarrow> bool) \<Rightarrow> bool option \<Rightarrow> bool \<times> bool option" where
  "is_nvenc_available works known =
     (case known of
        None \<Rightarrow> (works nvenc_trial, Some (works nvenc_trial))
      | Some b \<Rightarrow> (b, Some b))"

text \<open>Whatever later trials would say, the first one decides.\<close>

lemma first_trial_decides:
  "fold (\<lambda>w k. snd (is_nvenc_available w k)) ws (snd (is_nvenc_available works None)) = Some (works nvenc_trial)"
  by (induction ws) (simp_all add: is_nvenc_available_def)

section \<open>Bridges under concurrent requests\<close>

text \<open>
  A run of the bridge handlers: besides the shared tables, the processes that have not ended and
  their streams, the requests that have started a process, and the process numbers in use. A step is
  one critical section of some request or of the goroutine of an ended process.
\<close>

record bridge_run =
  br_media :: media
  br_live :: "nat \<rightharpoonup> string"
  br_spawned :: "nat set"
  br_used :: "nat set"

definition first_run :: bridge_run where
  "first_run = \<lparr>br_media = no_media, br_live = Map.empty, br_spawned = {}, br_used = {}\<rparr>"

inductive br_step :: "bridge_run \<Rightarrow> bridge_run \<Rightarrow> bool" where
  br_check: "t \<notin> br_spawned b \<Longrightarrow>
    br_step b (b\<lparr>br_media := snd (start_check t sid (br_media b))\<rparr>)"
| br_spawn: "md_starting (br_media b) (path_base sid) = Some t \<Longrightarrow> t \<notin> br_spawned b \<Longrightarrow> p \<notin> br_used b \<Longrightarrow>
    br_step b (b\<lparr>br_media := register_bridge p piped sid (br_media b),
      br_live := (br_live b)(p \<mapsto> sid), br_spawned := insert t (br_spawned b),
      br_used := insert p (br_used b)\<rparr>)"
| br_done: "br_step b (b\<lparr>br_media := start_done sid (br_media b)\<rparr>)"
| br_ended: "br_live b p = Some sid \<Longrightarrow>
    br_step b (b\<lparr>br_media := bridge_ended p piped sid (br_media b), br_live := (br_live b)(p := None)\<rparr>)"
| br_stop: "br_step b (b\<lparr>br_media := stop_h264_internal sid (br_media b)\<rparr>)"
| br_stop_mjpeg: "br_step b (b\<lparr>br_media := stop_mjpeg_internal sid (br_media b)\<rparr>)"
| br_mjpeg_begin: "br_step b (b\<lparr>br_media := mjpeg_begin t sid (br_media b)\<rparr>)"
| br_mjpeg_end: "br_step b (b\<lparr>br_media := mjpeg_end t sid (br_media b)\<rparr>)"
| br_stop_all: "br_step b (b\<lparr>br_media := stop_all_bridges (br_media b)\<rparr>)"

inductive br_reach :: "bridge_run \<Rightarrow> bool" where
  br_init: "br_reach first_run"
| br_next: "br_reach b \<Longrightarrow> br_step b b' \<Longrightarrow> br_reach b'"

inductive_cases br_stepE: "br_step b b'"

definition br_ok :: "bridge_run \<Rightarrow> bool" where
  "br_ok b \<longleftrightarrow>
     (\<forall>p sid. br_live b p = Some sid \<longrightarrow> p \<notin> md_killed (br_media b) \<longrightarrow>
        md_bridges (br_media b) (path_base sid) = Some p) \<and>
     (\<forall>c t. md_starting (br_media b) c = Some t \<longrightarrow> t \<notin> br_spawned b \<longrightarrow> md_bridges (br_media b) c = None) \<and>
     dom (br_live b) \<union> md_killed (br_media b) \<subseteq> br_used b \<and>
     (\<forall>c p. md_bridges (br_media b) c = Some p \<longrightarrow> (\<exists>sid. br_live b p = Some sid \<and> path_base sid = c))"

lemma br_okD:
  assumes "br_ok b"
  shows "br_live b p = Some sid \<Longrightarrow> p \<notin> md_killed (br_media b) \<Longrightarrow> md_bridges (br_media b) (path_base sid) = Some p"
    and "md_starting (br_media b) c = Some t \<Longrightarrow> t \<notin> br_spawned b \<Longrightarrow> md_bridges (br_media b) c = None"
    and "br_live b p = Some sid \<Longrightarrow> p \<in> br_used b" and "p \<in> md_killed (br_media b) \<Longrightarrow> p \<in> br_used b"
    and "md_bridges (br_media b) c = Some p \<Longrightarrow> \<exists>sid. br_live b p = Some sid \<and> path_base sid = c"
  using assms by (auto simp: br_ok_def)

lemma br_okI:
  assumes "\<And>p sid. br_live b p = Some sid \<Longrightarrow> p \<notin> md_killed (br_media b) \<Longrightarrow>
      md_bridges (br_media b) (path_base sid) = Some p"
    and "\<And>c t. md_starting (br_media b) c = Some t \<Longrightarrow> t \<notin> br_spawned b \<Longrightarrow> md_bridges (br_media b) c = None"
    and "\<And>p sid. br_live b p = Some sid \<Longrightarrow> p \<in> br_used b" and "\<And>p. p \<in> md_killed (br_media b) \<Longrightarrow> p \<in> br_used b"
    and "\<And>c p. md_bridges (br_media b) c = Some p \<Longrightarrow> \<exists>sid. br_live b p = Some sid \<and> path_base sid = c"
  shows "br_ok b"
  using assms by (auto simp: br_ok_def)

text \<open>The bridges of the ids in \<open>I\<close> are taken out of the table and killed; the rest is as before.\<close>

definition taken_out :: "string set \<Rightarrow> media \<Rightarrow> media \<Rightarrow> bool" where
  "taken_out I m m' \<longleftrightarrow>
     md_bridges m' = (\<lambda>i. if i \<in> I then None else md_bridges m i) \<and>
     md_killed m' = md_killed m \<union> {p. \<exists>i \<in> I. md_bridges m i = Some p} \<and>
     md_starting m' = md_starting m"

lemma taken_out_none: "md_bridges m' = md_bridges m \<Longrightarrow> md_killed m' = md_killed m \<Longrightarrow>
    md_starting m' = md_starting m \<Longrightarrow> taken_out {} m m'"
  by (simp add: taken_out_def)

lemma taken_out_trans: "taken_out I m m' \<Longrightarrow> taken_out J m' m'' \<Longrightarrow> taken_out (I \<union> J) m m''"
  unfolding taken_out_def by (elim conjE, intro conjI ext set_eqI) (auto split: if_splits)

lemma taken_out_kill: "taken_out {i} m (kill_bridge i (clean_pipe i m))"
  by (auto simp: taken_out_def kill_bridge_def clean_pipe_def fun_eq_iff split: option.split)

lemma taken_out_stop: "taken_out {sid, path_base sid} m (stop_h264_internal sid m)"
  using taken_out_trans [OF taken_out_kill [of sid m] taken_out_kill [of "path_base sid"]]
  by (simp add: stop_h264_internal_def insert_commute)

lemma taken_out_cancel: "taken_out {} m (cancel_reader i m)"
  by (rule taken_out_none) (simp_all add: cancel_reader_def split: option.split)

lemma taken_out_stop_mjpeg: "taken_out {} m (stop_mjpeg_internal sid m)"
  using taken_out_trans [OF taken_out_trans [OF taken_out_cancel taken_out_cancel] taken_out_cancel]
  by (simp add: stop_mjpeg_internal_def)

lemma taken_out_begin: "\<exists>I. taken_out I m (mjpeg_begin t sid m)"
proof -
  let ?m1 = "stop_h264_internal (path_base sid) m"
  have "taken_out {} ?m1 (mjpeg_begin t sid m)"
    by (rule taken_out_none) (simp_all add: mjpeg_begin_def Let_def split: option.split)
  then show ?thesis using taken_out_trans [OF taken_out_stop] by blast
qed

lemma taken_out_end: "taken_out {} m (mjpeg_end t sid m)"
  by (rule taken_out_none) (simp_all add: mjpeg_end_def Let_def)

lemma taken_out_all: "taken_out UNIV m (stop_all_bridges m)"
  by (auto simp: taken_out_def stop_all_bridges_def ran_def)

lemma br_ok_out:
  assumes ok: "br_ok b" and out: "taken_out I (br_media b) m'"
  shows "br_ok (b\<lparr>br_media := m'\<rparr>)"
proof (rule br_okI)
  note o = out [unfolded taken_out_def]
  show "md_bridges (br_media (b\<lparr>br_media := m'\<rparr>)) (path_base sid) = Some p"
    if "br_live (b\<lparr>br_media := m'\<rparr>) p = Some sid" "p \<notin> md_killed (br_media (b\<lparr>br_media := m'\<rparr>))" for p sid
    using that o br_okD(1) [OF ok, of p sid] by auto
  show "md_bridges (br_media (b\<lparr>br_media := m'\<rparr>)) c = None"
    if "md_starting (br_media (b\<lparr>br_media := m'\<rparr>)) c = Some t" "t \<notin> br_spawned (b\<lparr>br_media := m'\<rparr>)" for c t
    using that o br_okD(2) [OF ok, of c t] by auto
  show "p \<in> br_used (b\<lparr>br_media := m'\<rparr>)" if "br_live (b\<lparr>br_media := m'\<rparr>) p = Some sid" for p sid
    using that br_okD(3) [OF ok] by auto
  show "p \<in> br_used (b\<lparr>br_media := m'\<rparr>)" if "p \<in> md_killed (br_media (b\<lparr>br_media := m'\<rparr>))" for p
    using that o br_okD(3,4,5) [OF ok] by simp blast
  show "\<exists>sid. br_live (b\<lparr>br_media := m'\<rparr>) p = Some sid \<and> path_base sid = c"
    if "md_bridges (br_media (b\<lparr>br_media := m'\<rparr>)) c = Some p" for c p
    using that o br_okD(5) [OF ok, of c p] by (auto split: if_splits)
qed

lemma br_ok_check:
  assumes ok: "br_ok b"
  shows "br_ok (b\<lparr>br_media := snd (start_check t sid (br_media b))\<rparr>)"
  using br_okD [OF ok]
  by (intro br_okI) (auto simp: start_check_def Let_def split: option.splits if_splits)

lemma br_ok_done: "br_ok b \<Longrightarrow> br_ok (b\<lparr>br_media := start_done sid (br_media b)\<rparr>)"
  using br_okD [of b] by (intro br_okI) (auto simp: start_done_def split: if_splits)

lemma register_bridge_fields [simp]:
  "md_bridges (register_bridge p piped sid m) = (md_bridges m)(path_base sid \<mapsto> p)"
  "md_killed (register_bridge p piped sid m) = md_killed m"
  "md_starting (register_bridge p piped sid m) = md_starting m"
  by (simp_all add: register_bridge_def Let_def)

lemma br_ok_spawn:
  assumes ok: "br_ok b" and "md_starting (br_media b) (path_base sid) = Some t" "t \<notin> br_spawned b"
    and fresh: "p \<notin> br_used b"
  shows "br_ok (b\<lparr>br_media := register_bridge p piped sid (br_media b),
      br_live := (br_live b)(p \<mapsto> sid), br_spawned := insert t (br_spawned b),
      br_used := insert p (br_used b)\<rparr>)"
proof -
  have free: "md_bridges (br_media b) (path_base sid) = None" by (rule br_okD(2) [OF ok assms(2,3)])
  have new: "p \<notin> md_killed (br_media b)" "br_live b p = None"
    using fresh br_okD(3,4) [OF ok] by (auto, cases "br_live b p", auto)
  show ?thesis
  proof (rule br_okI, goal_cases)
    case (1 q sid')
    then show ?case using free new br_okD(1) [OF ok, of q sid'] by (auto split: if_splits)
  next
    case (2 c u)
    then show ?case using assms(2) br_okD(2) [OF ok, of c u] by (auto split: if_splits)
  next
    case (3 q sid')
    then show ?case using br_okD(3) [OF ok] by (auto split: if_splits)
  next
    case (4 q)
    then show ?case using br_okD(4) [OF ok] by auto
  next
    case (5 c q)
    then show ?case using new br_okD(5) [OF ok, of c q] by (auto split: if_splits)
  qed
qed

lemma bridge_ended_fields:
  "md_bridges (bridge_ended p piped sid m) =
     (if md_bridges m (path_base sid) = Some p then (md_bridges m)(path_base sid := None) else md_bridges m)"
  "md_killed (bridge_ended p piped sid m) = md_killed m"
  "md_starting (bridge_ended p piped sid m) = md_starting m"
  by (simp_all add: bridge_ended_def Let_def)

lemma br_ok_ended:
  assumes ok: "br_ok b" and live: "br_live b p = Some sid"
  shows "br_ok (b\<lparr>br_media := bridge_ended p piped sid (br_media b), br_live := (br_live b)(p := None)\<rparr>)"
proof (rule br_okI, goal_cases)
  case (1 q sid')
  then show ?case using br_okD(1) [OF ok, of q sid'] by (auto simp: bridge_ended_fields split: if_splits)
next
  case (2 c t)
  then show ?case using br_okD(2) [OF ok, of c t] by (auto simp: bridge_ended_fields split: if_splits)
next
  case (3 q sid')
  then show ?case using br_okD(3) [OF ok] by (auto split: if_splits)
next
  case (4 q)
  then show ?case using br_okD(4) [OF ok] by (auto simp: bridge_ended_fields)
next
  case (5 c q)
  then show ?case using live br_okD(5) [OF ok, of c q] by (auto simp: bridge_ended_fields split: if_splits)
qed

lemma br_ok_step: "br_step b b' \<Longrightarrow> br_ok b \<Longrightarrow> br_ok b'"
proof (induction rule: br_step.induct)
  case (br_spawn b sid t p piped)
  then show ?case by (intro br_ok_spawn)
next
  case (br_mjpeg_begin b t sid)
  then show ?case using taken_out_begin [of "br_media b" t sid] br_ok_out by blast
qed (blast intro: br_ok_check br_ok_done br_ok_ended br_ok_out taken_out_stop taken_out_stop_mjpeg
    taken_out_end taken_out_all)+

lemma br_ok_first: "br_ok first_run"
  by (simp add: first_run_def no_media_def br_ok_def)

lemma br_ok_reach: "br_reach b \<Longrightarrow> br_ok b"
  by (induction rule: br_reach.induct) (blast intro: br_ok_first br_ok_step)+

section \<open>Properties\<close>


text \<open>
  An MJPEG reader can be lost: a second reader of a stream (whose id does not end in \<open>_sub\<close>)
  cancels the first, and when the first
  then ends it removes the entry of the second. From then on no reader is reported, and stopping the
  readers of the stream, as the start of a bridge does, does not cancel the one that runs.
\<close>

theorem mjpeg_reader_lost:
  assumes "t1 \<noteq> t2" and "t2 \<notin> md_cancelled m" and "t2 \<notin> ran (md_mjpeg m)" and "is_valid_stream_id sid"
    and "base_id sid = sid" and "m' = mjpeg_end t1 sid (mjpeg_begin t2 sid (mjpeg_begin t1 sid m))"
  shows "t1 \<in> md_cancelled m' \<and> \<not> is_mjpeg_active sid m' \<and>
    t2 \<notin> md_cancelled m' \<and> t2 \<notin> md_cancelled (stop_mjpeg_internal sid m')"
proof -
  have pb: "path_base sid = sid" using valid_id_plain [OF assms(4)] by simp
  have stop: "md_mjpeg (stop_h264_internal i x) = md_mjpeg x \<and>
      md_cancelled (stop_h264_internal i x) = md_cancelled x" for i x
    by (simp add: stop_h264_internal_def kill_bridge_def clean_pipe_def split: option.split)
  have begun: "md_mjpeg (mjpeg_begin t sid x) = (md_mjpeg x)(sid \<mapsto> t)"
      "md_cancelled (mjpeg_begin t sid x) = md_cancelled x \<union> set_option (md_mjpeg x sid)" for t x
    using stop [of sid x] by (auto simp: mjpeg_begin_def Let_def pb split: option.split)
  have e: "md_mjpeg m' = (md_mjpeg m)(sid := None)"
      "md_cancelled m' = insert t1 (md_cancelled m \<union> set_option (md_mjpeg m sid))"
    by (auto simp: assms(6) mjpeg_end_def Let_def pb begun)
  have none: "md_mjpeg m' sid = None" by (simp add: e)
  have "t2 \<notin> set_option (md_mjpeg m sid)" using assms(3) by (auto simp: ran_def)
  then have "t2 \<notin> md_cancelled m'" using assms(1,2) by (simp add: e)
  moreover have "stop_mjpeg_internal sid m' = m'"
    by (simp add: stop_mjpeg_internal_def cancel_reader_def pb assms(5) none)
  ultimately show ?thesis using none by (simp add: e is_mjpeg_active_def pb assms(5))
qed

text \<open>
  A start can report a bridge that never ran: a start that comes while another one is under way
  is answered \<open>already_running\<close> once that one is done, also when that one found no source or its
  process could not be started, after which no bridge of the stream runs.
\<close>

theorem waiter_told_running:
  assumes "start_check t1 sid m = (MayStart, m1)"
    and "start_bridge env si r p sid s m1 = (NoSource, args, m2) \<or>
      start_bridge env si r p sid s m1 = (StartFailed e, args, m2)"
  shows "start_check t2 sid m1 = (WaitFor t1, m1) \<and>
    fst (handle_h264_start env si' r' t2 p' sid s m1) = RunningAlready \<and>
    md_bridges m2 (path_base sid) = None \<and> md_starting m2 (path_base sid) = None"
proof -
  have c: "md_bridges m (path_base sid) = None" "m1 = m\<lparr>md_starting := (md_starting m)(path_base sid \<mapsto> t1)\<rparr>"
    using assms(1) by (auto simp: start_check_def Let_def split: if_splits option.splits)
  then have w: "start_check t2 sid m1 = (WaitFor t1, m1)" by (simp add: start_check_def Let_def)
  have out: "taken_out {} m1 (stop_mjpeg_internal (path_base sid) m1)" by (rule taken_out_stop_mjpeg)
  then have "md_bridges (stop_mjpeg_internal (path_base sid) m1) (path_base sid) = None"
    using c by (simp add: taken_out_def)
  then have "md_bridges m2 (path_base sid) = None \<and> md_starting m2 (path_base sid) = None"
    using assms(2)
    by (auto simp: start_bridge_def start_done_def Let_def split: if_splits option.splits)
  then show ?thesis using w by (simp add: handle_h264_start_def)
qed

section \<open>Concrete runs\<close>

definition spawned_run :: bridge_run where
  "spawned_run =
     \<lparr>br_media = register_bridge 5 True ''cam1'' (snd (start_check 1 ''cam1'' no_media)),
      br_live = [5 \<mapsto> ''cam1''], br_spawned = {1}, br_used = {5}\<rparr>"

lemma path_base_cam1: "path_base ''cam1'' = ''cam1''"
  using valid_id_plain [OF valid_cam1] by simp

lemma spawned_run_reach: "br_reach spawned_run"
proof -
  let ?b = "first_run\<lparr>br_media := snd (start_check 1 ''cam1'' (br_media first_run))\<rparr>"
  have "br_step first_run ?b" by (rule br_check) (simp add: first_run_def)
  then have b: "br_reach ?b" by (rule br_next [OF br_init])
  have "md_starting (br_media ?b) (path_base ''cam1'') = Some 1"
    by (simp add: first_run_def no_media_def start_check_def Let_def)
  then have "br_step ?b (?b\<lparr>br_media := register_bridge 5 True ''cam1'' (br_media ?b),
      br_live := (br_live ?b)(5 \<mapsto> ''cam1''), br_spawned := insert 1 (br_spawned ?b),
      br_used := insert 5 (br_used ?b)\<rparr>)"
    by (rule br_spawn) (simp_all add: first_run_def)
  then have "br_reach (?b\<lparr>br_media := register_bridge 5 True ''cam1'' (br_media ?b),
      br_live := (br_live ?b)(5 \<mapsto> ''cam1''), br_spawned := insert 1 (br_spawned ?b),
      br_used := insert 5 (br_used ?b)\<rparr>)"
    by (rule br_next [OF b])
  then show ?thesis by (simp add: spawned_run_def first_run_def)
qed


theorem mjpeg_reader_lost_witness:
  "\<not> is_mjpeg_active ''cam1'' (mjpeg_end 1 ''cam1'' (mjpeg_begin 2 ''cam1'' (mjpeg_begin 1 ''cam1'' no_media)))"
proof -
  have "base_id ''cam1'' = ''cam1''"
    by (simp add: base_id_def path_base_cam1 trim_suffix_def has_suffix_def)
  then show ?thesis
    using mjpeg_reader_lost [OF _ _ _ valid_cam1 _ refl, of 1 2 no_media] by (simp add: no_media_def)
qed

definition no_ffmpeg :: start_inputs where
  "no_ffmpeg = \<lparr>si_database = (\<lambda>db. False), si_query = (\<lambda>db q. None), si_nvenc = False, si_pipe_ok = False, si_started = (\<lambda>args. Some ''not found'')\<rparr>"

theorem waiter_told_running_witness:
  "fst (handle_h264_start (json_env zero_fragment []) no_ffmpeg json_post 2 6 ''cam2'' cam_service
     (snd (start_check 1 ''cam2'' no_media))) = RunningAlready"
proof -
  have c: "start_check 1 ''cam2'' no_media = (MayStart, snd (start_check 1 ''cam2'' no_media))"
    by (simp add: start_check_def no_media_def Let_def)
  have "get_stream ''cam2'' cam_service = Inl ErrStreamNotFound"
    by (simp add: get_stream_eq cam_service_stream)
  then have "\<exists>m2. start_bridge (json_env zero_fragment []) no_ffmpeg json_post 5 ''cam2'' cam_service
      (snd (start_check 1 ''cam2'' no_media)) = (NoSource, [], m2)"
    by (simp add: start_bridge_def Let_def bridge_source_def no_ffmpeg_def)
  then show ?thesis using waiter_told_running [OF c] by blast
qed

end
