(* ===== verification/MjpegReader.thy ===== *)
theory MjpegReader
  imports MediaBridge
begin

text \<open>
  The rest of \<^verbatim>\<open>handleMJPEG\<close> in \<^verbatim>\<open>stream_handler_mjpeg.go\<close>: what a reader asks for, which programs it
  runs one after the other, and when it ends. The loop has no bound of its own: it is a partial
  function, and that it returns is a theorem.
\<close>

section \<open>What is read\<close>

definition reader_source :: "stream \<Rightarrow> string \<Rightarrow> string" where
  "reader_source st db = (if st_source_url st = [] then db else st_source_url st)"

definition short_param :: "string \<Rightarrow> string \<Rightarrow> string" where
  "short_param unset v = (if v = [] \<or> length v > 2 then unset else v)"

definition encode_args :: "http_request \<Rightarrow> string list" where
  "encode_args r =
     [''-an'', ''-threads'', ''2'', ''-c:v'', ''mjpeg'', ''-q:v'', short_param ''4'' (hq_query r ''q''),
      ''-r'', short_param ''20'' (hq_query r ''fps''), ''-f'', ''mpjpeg'', ''-boundary_tag'', ''ffmpeg'', ''-'']"

definition pipe_args :: "http_request \<Rightarrow> bool \<Rightarrow> string list" where
  "pipe_args r hevc =
     [''-loglevel'', ''warning'', ''-probesize'', ''32768'', ''-analyzeduration'', ''0'',
      ''-fflags'', ''nobuffer+discardcorrupt'', ''-flags'', ''low_delay'',
      ''-avoid_negative_ts'', ''make_zero'', ''-f'', if hevc then ''hevc'' else ''h264'', ''-i'', ''-''] @
     encode_args r"

definition direct_args :: "http_request \<Rightarrow> string \<Rightarrow> string list" where
  "direct_args r url =
     [''-loglevel'', ''warning'', ''-fflags'', ''nobuffer+discardcorrupt'', ''-flags'', ''low_delay'',
      ''-rtsp_transport'', ''tcp'', ''-allowed_media_types'', ''video'', ''-timeout'', ''5000000'',
      ''-i'', url] @ encode_args r"

definition reader_urls :: "string \<Rightarrow> string \<Rightarrow> string list" where
  "reader_urls c url =
     (if url \<noteq> [] \<and> \<not> str_contains url ''localhost:8554'' then [url] else []) @
     [''rtsp://localhost:8554/'' @ c]"

section \<open>The loop\<close>

text \<open>
  Events are numbered: the \<open>n\<close>-th is a look at the request's context or the end of a program.
  \<open>rw_gone n\<close> says whether the request is cancelled by then (by the client, by another reader or a
  bridge), \<open>rw_run n\<close> whether the program run with some arguments ends without an error.
\<close>

record reader_world =
  rw_database :: "string \<Rightarrow> bool"
  rw_query :: "string \<Rightarrow> string \<Rightarrow> string option"
  rw_pipe :: "string \<Rightarrow> bool"
  rw_run :: "nat \<Rightarrow> string list \<Rightarrow> bool"
  rw_gone :: "nat \<Rightarrow> bool"

text \<open>One round over the URLs: whether the handler returns, and the number of the next event.\<close>

fun try_urls :: "reader_world \<Rightarrow> http_request \<Rightarrow> nat \<Rightarrow> string list \<Rightarrow> bool \<times> nat" where
  "try_urls w r n [] = (False, n)"
| "try_urls w r n (u # us) =
     (if rw_run w n (direct_args r u) \<or> rw_gone w n then (True, n) else try_urls w r (Suc n) us)"

text \<open>The loop answers the number of the event it ends at.\<close>

partial_function (option) reader_loop ::
  "reader_world \<Rightarrow> http_request \<Rightarrow> string list \<Rightarrow> nat \<Rightarrow> nat option" where
  "reader_loop w r urls n =
     (if rw_gone w n then Some n
      else
        let (ended, m) = try_urls w r (Suc n) urls
        in if ended then Some m
           else if rw_gone w m then Some m
           else reader_loop w r urls (Suc m))"

text \<open>
  The handler: a camera on another host is first read through the Rust engine; if that program
  ends badly and the client is still there, the loop begins. The answer is the number of the last
  event, and none if the handler does not return.
\<close>

definition run_reader :: "reader_world \<Rightarrow> http_request \<Rightarrow> stream \<Rightarrow> nat option" where
  "run_reader w r st =
     (let c = path_base (st_stream_id st);
          url = reader_source st (first_url (rw_database w) (rw_query w) (stream_query (st_stream_id st)) database_paths);
          urls = reader_urls c url
      in if external_rtsp url \<and> rw_pipe w url then
           (if rw_run w 0 (pipe_args r (wants_hevc c (Some st))) \<or> rw_gone w 0 then Some 0
            else reader_loop w r urls 1)
         else reader_loop w r urls 0)"

section \<open>When the loop ends\<close>

text \<open>
  With \<open>L\<close> URLs a round has \<open>L + 2\<close> events: a look, the \<open>L\<close> programs, a look. \<open>ends_at\<close> says that
  event \<open>k\<close> of a loop that began at \<open>n\<close> lets it return.
\<close>

definition ends_at :: "reader_world \<Rightarrow> http_request \<Rightarrow> string list \<Rightarrow> nat \<Rightarrow> nat \<Rightarrow> bool" where
  "ends_at w r urls n k \<longleftrightarrow>
     rw_gone w (n + k) \<or>
     (let i = k mod (length urls + 2)
      in 1 \<le> i \<and> i \<le> length urls \<and> rw_run w (n + k) (direct_args r (urls ! (i - 1))))"

lemma try_urls_spec:
  assumes "try_urls w r n us = (ended, m)"
  shows "(\<forall>i < (if ended then m - n else length us).
      \<not> rw_gone w (n + i) \<and> \<not> rw_run w (n + i) (direct_args r (us ! i))) \<and>
    (if ended then n \<le> m \<and> m < n + length us \<and> (rw_gone w m \<or> rw_run w m (direct_args r (us ! (m - n))))
     else m = n + length us)"
  using assms
proof (induction us arbitrary: n)
  case (Cons u us)
  show ?case
  proof (cases "rw_run w n (direct_args r u) \<or> rw_gone w n")
    case True
    then show ?thesis using Cons.prems by auto
  next
    case False
    then have rest: "try_urls w r (Suc n) us = (ended, m)" using Cons.prems by simp
    note ih = Cons.IH [OF rest]
    have step: "(\<forall>i < Suc k. \<not> rw_gone w (n + i) \<and> \<not> rw_run w (n + i) (direct_args r ((u # us) ! i)))"
      if "\<forall>i < k. \<not> rw_gone w (Suc n + i) \<and> \<not> rw_run w (Suc n + i) (direct_args r (us ! i))" for k
      using that False by (auto simp: less_Suc_eq_0_disj)
    show ?thesis
    proof (cases ended)
      case True
      then have le: "Suc n \<le> m" using ih by simp
      then have m: "m - n = Suc (m - Suc n)" by arith
      then show ?thesis using ih step [of "m - Suc n"] True le by simp
    next
      case False
      then show ?thesis using ih step [of "length us"] by simp
    qed
  qed
qed simp

text \<open>A round in which nothing ends the loop leads to the next one.\<close>

lemma quiet_round:
  assumes "\<forall>k < length urls + 2. \<not> ends_at w r urls n k"
  shows "reader_loop w r urls n = reader_loop w r urls (n + (length urls + 2))"
proof -
  have g: "\<not> rw_gone w n" "\<not> rw_gone w (Suc n + length urls)"
    using assms [rule_format, of 0] assms [rule_format, of "Suc (length urls)"]
    by (simp_all add: ends_at_def Let_def)
  have q: "\<not> rw_gone w (Suc n + i) \<and> \<not> rw_run w (Suc n + i) (direct_args r (urls ! i))"
    if "i < length urls" for i
    using assms [rule_format, of "Suc i"] that by (simp add: ends_at_def Let_def)
  obtain ended m where t: "try_urls w r (Suc n) urls = (ended, m)" by fastforce
  have "\<not> ended"
  proof
    assume e: "ended"
    then have "m - Suc n < length urls" "rw_gone w m \<or> rw_run w m (direct_args r (urls ! (m - Suc n)))"
      "Suc n + (m - Suc n) = m"
      using try_urls_spec [OF t] by auto
    then show False using q [of "m - Suc n"] by auto
  qed
  then show ?thesis using try_urls_spec [OF t] t g by (subst reader_loop.simps) simp
qed

text \<open>A round with such an event ends the loop at the first one.\<close>

lemma ending_round:
  assumes "k < length urls + 2" and "ends_at w r urls n k" and "\<forall>i < k. \<not> ends_at w r urls n i"
  shows "reader_loop w r urls n = Some (n + k)"
proof (cases "k = 0")
  case True
  then show ?thesis using assms(2) by (subst reader_loop.simps) (simp add: ends_at_def)
next
  case False
  then have g: "\<not> rw_gone w n" using assms(3) by (auto simp: ends_at_def)
  have q: "\<not> rw_gone w (Suc n + i) \<and> \<not> rw_run w (Suc n + i) (direct_args r (urls ! i))"
    if "i < length urls" "Suc i < k" for i
    using assms(3) [rule_format, of "Suc i"] that by (simp add: ends_at_def Let_def)
  obtain ended m where t: "try_urls w r (Suc n) urls = (ended, m)" by fastforce
  note sp = try_urls_spec [OF t]
  show ?thesis
  proof (cases "k \<le> length urls")
    case True
    then have e: "rw_gone w (Suc n + (k - 1)) \<or> rw_run w (Suc n + (k - 1)) (direct_args r (urls ! (k - 1)))"
      using assms(2) False by (auto simp: ends_at_def Let_def)
    have ended: ended using sp e True False by (cases ended) (auto dest: spec [of _ "k - 1"])
    then have j: "Suc n \<le> m" "m - Suc n < length urls"
      "rw_gone w m \<or> rw_run w m (direct_args r (urls ! (m - Suc n)))"
      and quiet: "\<And>i. i < m - Suc n \<Longrightarrow>
        \<not> rw_gone w (Suc n + i) \<and> \<not> rw_run w (Suc n + i) (direct_args r (urls ! i))"
      using sp by auto
    have "m - Suc n = k - 1"
    proof (rule linorder_cases [of "m - Suc n" "k - 1"])
      assume "m - Suc n < k - 1"
      then have "Suc (m - Suc n) < k" by simp
      then show ?thesis using q [OF j(2)] j(1,3) by simp
    next
      assume "k - 1 < m - Suc n"
      then show ?thesis using quiet e by blast
    qed simp
    then have "m = n + k" using j(1) False by arith
    then show ?thesis using t g ended by (subst reader_loop.simps) simp
  next
    case False
    then have k: "k = Suc (length urls)" using assms(1) by simp
    have "\<not> ended"
    proof
      assume e: "ended"
      then have "m - Suc n < length urls" "rw_gone w m \<or> rw_run w m (direct_args r (urls ! (m - Suc n)))"
        "Suc n + (m - Suc n) = m"
        using sp by auto
      then show False using q [of "m - Suc n"] k by auto
    qed
    then have m: "m = n + k" using sp k by simp
    have "k mod (length urls + 2) = k" using assms(1) by (rule mod_less)
    then have "rw_gone w (n + k)" using assms(2) k by (simp add: ends_at_def)
    then show ?thesis
      unfolding reader_loop.simps [of w r urls n] using t g(1) \<open>\<not> ended\<close> m by simp
  qed
qed

lemma ends_at_later:
  "ends_at w r urls (n + (length urls + 2)) k \<longleftrightarrow> ends_at w r urls n (k + (length urls + 2))"
proof -
  have "n + (length urls + 2) + k = n + (k + (length urls + 2))" by simp
  then show ?thesis by (simp only: ends_at_def mod_add_self2)
qed

lemma first_end:
  "ends_at w r urls n k \<Longrightarrow> \<forall>i < k. \<not> ends_at w r urls n i \<Longrightarrow> reader_loop w r urls n = Some (n + k)"
proof (induction k arbitrary: n rule: less_induct)
  case (less k)
  show ?case
  proof (cases "k < length urls + 2")
    case True
    then show ?thesis using ending_round less.prems by blast
  next
    case False
    define d where "d = length urls + 2"
    have later: "ends_at w r urls (n + d) i \<longleftrightarrow> ends_at w r urls n (i + d)" for i
      unfolding d_def by (rule ends_at_later)
    have k: "k - d + d = k" "k - d < k" using False by (simp_all add: d_def)
    have "ends_at w r urls (n + d) (k - d)" using less.prems(1) by (simp only: later k(1))
    moreover have "\<not> ends_at w r urls (n + d) i" if "i < k - d" for i
      using less.prems(2) that by (simp add: later)
    ultimately have "reader_loop w r urls (n + d) = Some (n + d + (k - d))" using less.IH [OF k(2)] by blast
    moreover have "reader_loop w r urls n = reader_loop w r urls (n + d)"
      unfolding d_def using less.prems(2) False by (intro quiet_round) simp
    ultimately show ?thesis using k(1) by simp
  qed
qed

lemma loop_end_step:
  assumes "\<And>n m. loop w r urls n = Some m \<Longrightarrow> \<exists>k. ends_at w r urls n k"
    and "(if rw_gone w n then Some n
      else
        let (ended, m) = try_urls w r (Suc n) urls
        in if ended then Some m else if rw_gone w m then Some m else loop w r urls (Suc m)) = Some m"
  shows "\<exists>k. ends_at w r urls n k"
proof (rule ccontr)
  assume "\<nexists>k. ends_at w r urls n k"
  then have none: "\<not> ends_at w r urls n k" for k by blast
  obtain ended j where t: "try_urls w r (Suc n) urls = (ended, j)" by fastforce
  note sp = try_urls_spec [OF t]
  have g: "\<not> rw_gone w i" if "n \<le> i" for i using none [of "i - n"] that by (simp add: ends_at_def)
  have "\<not> ended"
  proof
    assume e: "ended"
    then have j: "Suc n \<le> j" "j - Suc n < length urls" "rw_run w j (direct_args r (urls ! (j - Suc n)))"
      using sp g [of j] by auto
    then have "ends_at w r urls n (Suc (j - Suc n))" by (simp add: ends_at_def Let_def)
    then show False using none by blast
  qed
  then have "loop w r urls (Suc j) = Some m" "Suc j = n + (length urls + 2)"
    using assms(2) t g [of n] g [of j] sp by (simp_all split: if_splits)
  then obtain k where "ends_at w r urls (n + (length urls + 2)) k" using assms(1) by metis
  then show False using none ends_at_later by blast
qed

lemma loop_end: "reader_loop w r urls n = Some m \<Longrightarrow> \<exists>k. ends_at w r urls n k"
  by (rule reader_loop.raw_induct [where P = "\<lambda>w r urls n m. \<exists>k. ends_at w r urls n k"])
    (rule loop_end_step)

section \<open>Properties\<close>

text \<open>
  C22: A reader ends with its client or a good end: the loop of an MJPEG request returns exactly if at some
  event the request is cancelled or a program run on one of the URLs ends without an error, and
  then at the first such event; if every program keeps failing and the client stays, it goes on
  for ever.
\<close>

theorem reader_ends_iff:
  "reader_loop w r urls n =
     (if \<exists>k. ends_at w r urls n k then Some (n + (LEAST k. ends_at w r urls n k)) else None)"
proof (cases "\<exists>k. ends_at w r urls n k")
  case True
  have "\<forall>i < (LEAST k. ends_at w r urls n k). \<not> ends_at w r urls n i"
    using not_less_Least by blast
  then have "reader_loop w r urls n = Some (n + (LEAST k. ends_at w r urls n k))"
    by (rule first_end [OF LeastI_ex [OF True]])
  then show ?thesis using True by simp
next
  case False
  then show ?thesis using loop_end [of w r urls n] by (cases "reader_loop w r urls n") auto
qed

section \<open>The frame for a snapshot\<close>

text \<open>
  \<^verbatim>\<open>extractFrameFromLocalMJPEG\<close> gets its frame by a request \<open>u\<close> to the server's own \<^verbatim>\<open>mjpeg\<close> endpoint,
  which it closes after the frame: that request is a reader like any other.
\<close>

definition local_frame :: "nat \<Rightarrow> string \<Rightarrow> media \<Rightarrow> media" where
  "local_frame u sid m = mjpeg_end u sid (mjpeg_begin u sid m)"

text \<open>
  A snapshot cuts off the viewer: it takes its frame from the reader that runs for a stream (to
  spare the camera a second connection), but the request it makes for it cancels that reader and
  kills the bridge of the stream, and afterwards no reader of that id is left.
\<close>

theorem snapshot_cuts_viewer:
  assumes "is_valid_stream_id sid" and "md_mjpeg m sid = Some t" and "t \<noteq> u"
  shows "is_mjpeg_active sid m \<and> t \<in> md_cancelled (local_frame u sid m) \<and>
    md_mjpeg (local_frame u sid m) sid = None \<and> \<not> is_h264_active sid (local_frame u sid m)"
proof -
  have pb: "path_base sid = sid" using valid_id_plain [OF assms(1)] by simp
  have stop: "md_mjpeg (stop_h264_internal i x) = md_mjpeg x" for i x
    by (simp add: stop_h264_internal_def kill_bridge_def clean_pipe_def split: option.split)
  have "md_bridges (stop_h264_internal sid m) sid = None"
    using taken_out_stop [of sid m] by (simp add: taken_out_def)
  then have "md_bridges (local_frame u sid m) sid = None"
    by (simp add: local_frame_def mjpeg_begin_def mjpeg_end_def Let_def pb split: option.split)
  then show ?thesis
    using assms(2) by (simp add: local_frame_def mjpeg_begin_def mjpeg_end_def Let_def pb stop
        is_mjpeg_active_def is_h264_active_def)
qed

theorem snapshot_cuts_viewer_witness:
  "7 \<in> md_cancelled (local_frame 8 ''cam1'' (mjpeg_begin 7 ''cam1'' no_media))"
proof -
  have "md_mjpeg (mjpeg_begin 7 ''cam1'' no_media) ''cam1'' = Some 7"
    by (simp add: mjpeg_begin_def Let_def path_base_cam1)
  then show ?thesis using snapshot_cuts_viewer [OF valid_cam1, of "mjpeg_begin 7 ''cam1'' no_media" 7 8] by simp
qed

end
