(* ===== verification/Startup.thy ===== *)
theory Startup
  imports MediaBridge
begin

text \<open>
  \<^verbatim>\<open>cmd/hydrastream/main.go\<close> and \<^verbatim>\<open>engine.go\<close>, \<^verbatim>\<open>cmd/silent_ffmpeg/main.go\<close> and the search for programs
  in \<^verbatim>\<open>proc_unix.go\<close>, \<^verbatim>\<open>proc_windows.go\<close> and \<^verbatim>\<open>engine_client.go\<close>: which programs are run, at which
  ports the embedded media engine and the server listen, and the state the server starts in.
\<close>

section \<open>Finding programs\<close>

text \<open>
  \<open>fi_exists\<close> is success of \<^verbatim>\<open>os.Stat\<close>, \<open>fi_is_file\<close> that of a file that is no directory, \<open>fi_look\<close> is
  \<^verbatim>\<open>exec.LookPath\<close>, \<open>fi_abs\<close> \<^verbatim>\<open>filepath.Abs\<close>, \<open>fi_glob\<close> \<^verbatim>\<open>filepath.Glob\<close>.
\<close>

record files =
  fi_exists :: "string \<Rightarrow> bool"
  fi_is_file :: "string \<Rightarrow> bool"
  fi_look :: "string \<Rightarrow> string option"
  fi_abs :: "string \<Rightarrow> string option"
  fi_glob :: "string \<Rightarrow> string list"

definition hydra_engine_candidates :: "string list" where
  "hydra_engine_candidates =
     [path_join [''bin'', ''hydra-engine.exe''], path_join [''target'', ''release'', ''hydra-engine.exe''],
      path_join [''target'', ''debug'', ''hydra-engine.exe''], ''hydra-engine.exe'',
      path_join [''..'', ''bin'', ''hydra-engine.exe'']]"

definition hydra_engine_path :: "files \<Rightarrow> string" where
  "hydra_engine_path fs =
     (case find (fi_is_file fs) hydra_engine_candidates of Some p \<Rightarrow> p | None \<Rightarrow> ''hydra-engine.exe'')"

text \<open>
  \<^verbatim>\<open>GetFFmpegPath\<close> and \<^verbatim>\<open>GetFFprobePath\<close>: on Unix they differ in the name only, on Windows
  \<^verbatim>\<open>GetFFprobePath\<close> does not look below \<^verbatim>\<open>USERPROFILE\<close>.
\<close>

definition unix_program :: "files \<Rightarrow> string \<Rightarrow> string" where
  "unix_program fs name =
     (case find (fi_exists fs) [''./bin/'' @ name, ''bin/'' @ name, ''../HydraStream/bin/'' @ name] of
        Some c \<Rightarrow> (case fi_abs fs c of Some p \<Rightarrow> p | None \<Rightarrow> c)
      | None \<Rightarrow> (case fi_look fs name of Some p \<Rightarrow> p | None \<Rightarrow> name))"

definition unix_ffprobe :: "files \<Rightarrow> string" where
  "unix_ffprobe fs = unix_program fs ''ffprobe''"

definition first_glob :: "files \<Rightarrow> string list \<Rightarrow> string option" where
  "first_glob fs pats = (case concat (map (fi_glob fs) pats) of [] \<Rightarrow> None | p # _ \<Rightarrow> Some p)"

definition winget_patterns :: "(string \<Rightarrow> string) \<Rightarrow> string \<Rightarrow> string list" where
  "winget_patterns var name =
     (let l = var ''LOCALAPPDATA''; u = var ''USERPROFILE''; exe = name @ ''.exe''
      in (if l \<noteq> [] then
            [path_join [l, ''Microsoft'', ''WinGet'', ''Packages'', ''*'', ''*'', ''bin'', exe],
             path_join [l, ''Microsoft'', ''WinGet'', ''Links'', exe]] else []) @
         (if u \<noteq> [] then
            [path_join [u, ''AppData'', ''Local'', ''Microsoft'', ''WinGet'', ''Packages'', ''*'', ''*'', ''bin'', exe]]
          else []))"

definition windows_program :: "files \<Rightarrow> (string \<Rightarrow> string) \<Rightarrow> string \<Rightarrow> string" where
  "windows_program fs var name =
     (case fi_look fs (name @ ''.exe'') of
        Some p \<Rightarrow> p
      | None \<Rightarrow>
     (case fi_look fs name of
        Some p \<Rightarrow> p
      | None \<Rightarrow>
     (case find (fi_exists fs) [''./bin/'' @ name @ ''.exe'', ''../HydraStream/bin/'' @ name @ ''.exe''] of
        Some c \<Rightarrow> c
      | None \<Rightarrow>
     (case first_glob fs (winget_patterns var name) of
        Some p \<Rightarrow> p
      | None \<Rightarrow> name @ ''.exe''))))"

definition windows_ffprobe :: "files \<Rightarrow> (string \<Rightarrow> string) \<Rightarrow> string" where
  "windows_ffprobe fs var = windows_program fs (var(''USERPROFILE'' := [])) ''ffprobe''"

section \<open>The Rust engine as a client\<close>

text \<open>
  The three calls of \<^verbatim>\<open>engine_client.go\<close>. \<open>run p args\<close> is the output of a program or the text of its
  error, \<open>decode\<close> the JSON decoder, \<open>get\<close> reads a file; running out of time is a failure of the run.
\<close>

definition probe_rtsp_native_rust ::
  "files \<Rightarrow> (string \<Rightarrow> string list \<Rightarrow> string + string) \<Rightarrow> (string \<Rightarrow> string + rust_probe) \<Rightarrow> string
   \<Rightarrow> go_error + rust_probe" where
  "probe_rtsp_native_rust fs run decode url =
     (case run (hydra_engine_path fs) [''probe'', ''--url'', url] of
        Inl e \<Rightarrow> Inl (ErrNew (''hydra-engine probe failed: '' @ e))
      | Inr out \<Rightarrow>
          (case decode out of
             Inl e \<Rightarrow> Inl (ErrNew (''invalid json from hydra-engine probe: '' @ e))
           | Inr r \<Rightarrow> Inr r))"

definition capture_snapshot_native_rust ::
  "files \<Rightarrow> (string \<Rightarrow> string list \<Rightarrow> string + string) \<Rightarrow> (string \<Rightarrow> string + string) \<Rightarrow> string \<Rightarrow> string
   \<Rightarrow> go_error + string" where
  "capture_snapshot_native_rust fs run get url out_file =
     (case run (hydra_engine_path fs) [''snapshot'', ''--url'', url, ''--out'', out_file] of
        Inl e \<Rightarrow> Inl (ErrNew (''hydra-engine snapshot failed: '' @ e))
      | Inr out \<Rightarrow>
          (case get out_file of
             Inl e \<Rightarrow> Inl (ErrNew (''failed to read captured snapshot file: '' @ e))
           | Inr d \<Rightarrow> Inr d))"

text \<open>The program and the arguments that are started, if the pipe can be made and the start succeeds.\<close>

definition spawn_stream_pipe ::
  "files \<Rightarrow> bool \<Rightarrow> (string \<Rightarrow> string list \<Rightarrow> bool) \<Rightarrow> string \<Rightarrow> (string \<times> string list) option" where
  "spawn_stream_pipe fs pipe_ok starts url =
     (let bin = hydra_engine_path fs; args = [''stream'', ''--url'', url]
      in if pipe_ok \<and> starts bin args then Some (bin, args) else None)"

text \<open>What theory Probe takes of the engine is the results of these calls.\<close>

definition with_engine ::
  "files \<Rightarrow> (string \<Rightarrow> string list \<Rightarrow> string + string) \<Rightarrow> (string \<Rightarrow> string + rust_probe) \<Rightarrow> (string \<Rightarrow> string + string)
   \<Rightarrow> string \<Rightarrow> probe_world \<Rightarrow> probe_world" where
  "with_engine fs run decode get tmp w =
     w\<lparr>pw_rust := (\<lambda>u. case probe_rtsp_native_rust fs run decode u of Inl _ \<Rightarrow> None | Inr r \<Rightarrow> Some r),
       pw_rust_image := (\<lambda>u. case capture_snapshot_native_rust fs run get u tmp of Inl _ \<Rightarrow> None | Inr d \<Rightarrow> Some d)\<rparr>"

text \<open>Without an engine that runs, every RTSP probe is made with FFmpeg.\<close>

lemma no_engine_uses_ffmpeg:
  "(\<And>p args. \<exists>e. run p args = Inl e) \<Longrightarrow>
   rtsp_capture (with_engine fs run decode get tmp w) q host dev =
     ffmpeg_capture (with_engine fs run decode get tmp w) q host dev"
  by (simp add: rtsp_capture_def with_engine_def probe_rtsp_native_rust_def split: sum.split)
    (metis sum.distinct(1))

text \<open>The wrapper \<^verbatim>\<open>silent_ffmpeg\<close>: the program it runs, and the status it ends with.\<close>

definition silent_program :: "files \<Rightarrow> string \<Rightarrow> string" where
  "silent_program fs dir =
     (if fi_exists fs (path_join [dir, ''ffmpeg.exe'']) then path_join [dir, ''ffmpeg.exe''] else ''ffmpeg.exe'')"

datatype child_end = NotStarted | EndedWell | ExitedWith int | WaitFailed

fun silent_status :: "child_end \<Rightarrow> int" where
  "silent_status NotStarted = 1"
| "silent_status EndedWell = 0"
| "silent_status (ExitedWith n) = n"
| "silent_status WaitFailed = 1"

section \<open>The embedded engine\<close>

fun find_first :: "files \<Rightarrow> string list \<Rightarrow> string option" where
  "find_first fs [] = None"
| "find_first fs (c # cs) =
     (if fi_exists fs c then Some c
      else case fi_look fs c of Some p \<Rightarrow> Some p | None \<Rightarrow> find_first fs cs)"

text \<open>
  \<open>built\<close> is the success of the compilation, \<open>after\<close> the files there are then. The empty path stands
  for no engine.
\<close>

definition build_or_find_engine :: "bool \<Rightarrow> files \<Rightarrow> bool \<Rightarrow> files \<Rightarrow> string" where
  "build_or_find_engine windows fs built after =
     (let bin = (if windows then ''hydra-engine.exe'' else ''hydra-engine'');
          release = path_join [''target'', ''release'', bin]
      in case find_first fs [release, path_join [''target'', ''debug'', bin], path_join [''bin'', bin], bin] of
           Some p \<Rightarrow> p
         | None \<Rightarrow> if built \<and> fi_exists after release then release else [])"

datatype engine = NoEngine | AttachedTo string | EngineFailed | EngineAt string string string

text \<open>\<open>used k a\<close> is the answer of the \<open>k\<close>-th look whether address \<open>a\<close> is in use.\<close>

definition engine_port :: "http_env \<Rightarrow> (nat \<Rightarrow> string \<Rightarrow> bool) \<Rightarrow> nat \<Rightarrow> string \<Rightarrow> string \<Rightarrow> string \<Rightarrow> string" where
  "engine_port env used k var usual other =
     (if en_variable env var \<noteq> [] then en_variable env var
      else if used k ('':'' @ usual) then other else usual)"

definition start_engine :: "http_env \<Rightarrow> (nat \<Rightarrow> string \<Rightarrow> bool) \<Rightarrow> bool \<Rightarrow> string \<Rightarrow> engine" where
  "start_engine env used starts bin =
     (if bin = [] then NoEngine
      else
        let port = engine_port env used 0 ''WSP_PORT'' ''8085'' ''8086'';
            rtmp = engine_port env used 1 ''RTMP_PORT'' ''1935'' ''1936''
        in if used 2 ('':'' @ port) then AttachedTo port
           else if \<not> starts then EngineFailed
           else EngineAt bin port rtmp)"

section \<open>The server\<close>

definition listen_address :: "http_env \<Rightarrow> string" where
  "listen_address env =
     (let port = en_variable env ''PORT''
      in if port = [] then '':8080'' else if has_prefix port '':'' then port else '':'' @ port)"

definition nats_url :: "http_env \<Rightarrow> string" where
  "nats_url env = variable_or env ''NATS_URL'' ''nats://localhost:4222''"

text \<open>
  \<^verbatim>\<open>main\<close> up to the server: the parts are made and wired; \<open>mesh\<close> says whether the event bus
  answers at a URL.
\<close>

definition boot ::
  "http_env \<Rightarrow> (nat \<Rightarrow> gotime) \<Rightarrow> (nat \<Rightarrow> gotime) \<Rightarrow> string list \<Rightarrow> (string \<rightharpoonup> bytes) \<Rightarrow> string set
   \<Rightarrow> (string \<Rightarrow> bool) \<Rightarrow> service outcome" where
  "boot env clock0 clock ord files samples mesh =
     (case new_stream_service clock ord (en_variable env ''MEDIAMTX_WHEP_URL'') files samples
             (new_stream_repository clock0) (Some new_rtsp_ingestor) (Some (new_ring_logger [1000])) of
        Panics \<Rightarrow> Panics
      | Returns s \<Rightarrow>
          if mesh (nats_url env)
          then Returns (s\<lparr>sv_ingestor := map_option (set_publisher True) (sv_ingestor s), sv_rec_publisher := True\<rparr>)
          else Returns s)"

text \<open>On a signal: the bridges are stopped, and the engine is if this server started it.\<close>

definition shut_down :: "engine \<Rightarrow> media \<Rightarrow> bool \<times> media" where
  "shut_down e m = ((case e of EngineAt b p q \<Rightarrow> True | _ \<Rightarrow> False), stop_all_bridges m)"

section \<open>The first state\<close>

lemma demo_list:
  assumes "map_order ord (sr_streams (new_stream_repository clock0))"
  obtains xs where "repo_list_all ord (new_stream_repository clock0) =
      (Returns xs, settle_all (new_stream_repository clock0))"
    and "st_stream_id ` set xs = {''cam_entrance_01''}"
proof -
  let ?r = "new_stream_repository clock0"
  have "length ord \<le> 1000"
    using assms distinct_card [of ord] by (simp add: map_order_def new_stream_repository_def Let_def)
  then obtain xs where xs: "repo_list_all ord ?r = (Returns xs, settle_all ?r)"
      "set xs = {s. \<exists>i st. repo_get ?r i = Some st \<and> s = settle_score st}"
    using repo_list_all_set [OF assms] by blast
  have "set xs = {settle_score (set_defaults (clock0 4) (demo_stream clock0))}"
    by (auto simp: xs(2) new_repo_get split: if_splits)
  then show ?thesis using that xs(1) by simp
qed

section \<open>Properties\<close>

text \<open>
  C28: The server always starts, with one stream: wiring the parts never panics; in the first state exactly
  \<^verbatim>\<open>cam_entrance_01\<close> is registered and ingested, the log holds 1000 entries at most, and recordings
  are announced exactly if the event bus answers at \<^verbatim>\<open>NATS_URL\<close> or, if that is not set, at its usual
  address.
\<close>

theorem server_starts:
  assumes "map_order ord (sr_streams (new_stream_repository clock0))"
  shows "\<exists>s. boot env clock0 clock ord files samples mesh = Returns s \<and>
    (svc_stream s i \<noteq> None) = (i = ''cam_entrance_01'') \<and> (svc_session s i \<noteq> None) = (i = ''cam_entrance_01'') \<and>
    rl_capacity (sv_log s) = 1000 \<and>
    sv_rec_publisher s = mesh (if en_variable env ''NATS_URL'' = [] then ''nats://localhost:4222''
                               else en_variable env ''NATS_URL'')"
proof -
  let ?r = "new_stream_repository clock0"
  obtain xs where xs: "repo_list_all ord ?r = (Returns xs, settle_all ?r)" "st_stream_id ` set xs = {''cam_entrance_01''}"
    using demo_list [OF assms] by metis
  obtain s where s: "new_stream_service clock ord (en_variable env ''MEDIAMTX_WHEP_URL'') files samples ?r
      (Some new_rtsp_ingestor) (Some (new_ring_logger [1000])) = Returns s"
    and f: "sv_repo s = settle_all ?r" "sv_ingestor s = Some (start_all (clock 2) xs new_rtsp_ingestor)"
      "sv_log s = new_ring_logger [1000]" "\<not> sv_rec_publisher s"
    by (simp add: new_stream_service_def xs(1) Let_def)
  have stream: "(svc_stream s i \<noteq> None) = (i = ''cam_entrance_01'')"
    by (simp add: svc_stream_def f(1) repo_get_settle_all new_repo_get)
  have start: "(sess_get (start_all (clock 2) xs new_rtsp_ingestor) i \<noteq> None) = (i = ''cam_entrance_01'')"
    using start_all_fresh [of "clock 2" xs i] xs(2) by auto
  have keep: "sess_get (set_publisher True r) = sess_get r" for r
    by (simp add: fun_eq_iff sess_get_def set_publisher_def)
  let ?s' = "if mesh (nats_url env)
    then s\<lparr>sv_ingestor := map_option (set_publisher True) (sv_ingestor s), sv_rec_publisher := True\<rparr> else s"
  have "boot env clock0 clock ord files samples mesh = Returns ?s'" by (simp add: boot_def s)
  moreover have "svc_stream ?s' = svc_stream s" by (simp add: svc_stream_def fun_eq_iff)
  moreover have "(svc_session ?s' i \<noteq> None) = (i = ''cam_entrance_01'')"
    using start by (simp add: svc_session_def f(2) keep)
  moreover have "rl_capacity (sv_log ?s') = 1000" by (simp add: f(3) new_ring_logger_def)
  moreover have "sv_rec_publisher ?s' = mesh (nats_url env)" using f(4) by simp
  moreover have "nats_url env = (if en_variable env ''NATS_URL'' = [] then ''nats://localhost:4222''
      else en_variable env ''NATS_URL'')" by (simp add: nats_url_def variable_or_def)
  ultimately show ?thesis using stream by (intro exI [of _ ?s']) simp
qed

text \<open>
  Publishers are sent to a port nobody listens on: with neither \<^verbatim>\<open>RTMP_PORT\<close> nor \<^verbatim>\<open>WSP_PORT\<close> set and the
  usual ports free, the embedded engine listens on 1935 and 8085, and a bridge is pushed and
  announced there, but the answer to a publish request names the ports 1936 and 8086.
\<close>

theorem publish_names_other_ports:
  assumes "en_variable env ''RTMP_PORT'' = []" and "en_variable env ''WSP_PORT'' = []"
    and "\<not> used 0 '':8085''" and "\<not> used 1 '':1935''" and "\<not> used 2 '':8085''" and "bin \<noteq> []"
    and "handle_publish env io r c s = (Answered n (APublished p), s')"
  shows "start_engine env used True bin = EngineAt bin ''8085'' ''1935'' \<and>
    rtmp_target env sid = ''rtmp://127.0.0.1:1935/live/'' @ sid \<and>
    pb_publish_url p = ''rtmp://'' @ host_for_publish env r @ '':1936/live/'' @ pb_stream_id p \<and>
    pb_wsp_url p = ''ws://'' @ host_for_publish env r @ '':8086/live/'' @ pb_stream_id p"
proof -
  have "start_engine env used True bin = EngineAt bin ''8085'' ''1935''"
    using assms(1-6) by (simp add: start_engine_def engine_port_def)
  moreover have "rtmp_target env sid = ''rtmp://127.0.0.1:1935/live/'' @ sid"
    using assms(1) by (simp add: rtmp_target_def variable_or_def)
  moreover have "pb_publish_url p = ''rtmp://'' @ host_for_publish env r @ '':1936/live/'' @ pb_stream_id p \<and>
      pb_wsp_url p = ''ws://'' @ host_for_publish env r @ '':8086/live/'' @ pb_stream_id p"
    using assms(1,2,7)
    by (auto simp: handle_publish_def Let_def variable_or_def split: if_splits prod.splits)
  ultimately show ?thesis by blast
qed

section \<open>Concrete starts\<close>

theorem server_starts_witness:
  "\<exists>s. boot (json_env zero_fragment []) first_clock first_clock [''cam_entrance_01''] Map.empty {} (\<lambda>u. True) = Returns s \<and>
     svc_session s ''cam_entrance_01'' \<noteq> None \<and> sv_rec_publisher s"
proof -
  have "map_order [''cam_entrance_01''] (sr_streams (new_stream_repository first_clock))"
    by (simp add: map_order_def new_stream_repository_def Let_def demo_stream_def)
  from server_starts [OF this, of "json_env zero_fragment []" first_clock Map.empty "{}" "\<lambda>u. True" "''cam_entrance_01''"]
  show ?thesis by auto
qed

theorem publish_names_other_ports_witness:
  "start_engine (json_env zero_fragment []) (\<lambda>k a. False) True ''bin/hydra-engine'' =
     EngineAt ''bin/hydra-engine'' ''8085'' ''1935''"
proof -
  let ?env = "json_env zero_fragment []"
  have "trim_space ''x'' = ''x''" by code_simp
  moreover have "is_valid_stream_id ''x''" by (rule valid_session_id)
  moreover have "hq_body json_post = Some ''x''" "hq_method json_post = ''POST''" "en_decode_publish ?env b = b" for b
    by (simp_all add: json_post_def json_env_def)
  ultimately have "\<exists>n p s'. handle_publish ?env plain_io json_post alpha_operator cam_service =
      (Answered n (APublished p), s')"
    by (simp add: handle_publish_def Let_def case_prod_beta)
  then obtain n p s' where "handle_publish ?env plain_io json_post alpha_operator cam_service =
      (Answered n (APublished p), s')" by blast
  from publish_names_other_ports [OF _ _ _ _ _ _ this, of "\<lambda>k a. False" "''bin/hydra-engine''"]
  show ?thesis by (simp add: json_env_def)
qed

end
