(* ===== verification/Spec2Isabelle.thy ===== *)
theory Spec2Isabelle
  imports MotionDetector ShmAdapter CameraSync IngestLife ApiDocument HttpCameras MjpegReader Startup
begin

text \<open>
  HydraStream is a media server for cameras. This library models its control plane, the Go program
  under \<^verbatim>\<open>src/cmd\<close> and \<^verbatim>\<open>src/internal\<close>. The program is hexagonal: \<^verbatim>\<open>domain\<close> holds the entities,
  \<^verbatim>\<open>application\<close> one service over them, \<^verbatim>\<open>adapters/secondary\<close> the storage, the RTSP client, the
  logger, the hardware probes and the event bus the service uses, and \<^verbatim>\<open>adapters/primary/http\<close> the
  HTTP API that calls the service. The theories follow the same layers, and each names its files in
  its own first lines.

  \<^bold>\<open>The language.\<close> Prelude: Go's errors (\<open>go_error + 'a\<close>), panics (\<open>outcome\<close>), 64-bit integers (\<open>i64\<close>),
  maps and the order in which they are iterated, the stable insertion sort, and the two interfaces
  of the development. GoFloat: \<^verbatim>\<open>float64\<close> with IEEE rounding. GoText: the parts of \<^verbatim>\<open>strings\<close>,
  \<^verbatim>\<open>strconv\<close>, \<^verbatim>\<open>fmt\<close> and \<^verbatim>\<open>filepath\<close> the program uses. GoTime: times and durations. GoRegexp: the
  regular expressions of the program with leftmost-first matching. Base64: both alphabets of
  \<^verbatim>\<open>encoding/base64\<close>, with their round trips.

  \<^bold>\<open>Interfaces.\<close> The locale \<open>keyed_table\<close> is the contract of a table of records by key (what a lookup
  answers after a put or a drop); it is interpreted on the stream repository (StreamRepo), the
  fragment repository (FragmentRepo), the ingest sessions (Ingestor) and the WHEP sessions (Whep).
  The locale \<open>bounded_ring\<close> is the contract of a bounded log: its contents are the last entries of
  the unbounded log. It is interpreted on the ring logger (RingLogger), which gives the refinement.
  The locale \<open>camera_prober\<close> (Probe) is what the probe endpoints rely on in the client for ONVIF
  cameras: nothing is written when it fails, and what it writes is the picture it reports; it is interpreted on the
  client of theory Onvif.

  \<^bold>\<open>Domain.\<close> DomainStream (\<^verbatim>\<open>stream.go\<close>), DomainFragment (\<^verbatim>\<open>fragment.go\<close>), DomainTelemetry
  (\<^verbatim>\<open>telemetry.go\<close>), with \<^verbatim>\<open>motion.go\<close> in MotionDetector, \<^verbatim>\<open>errors.go\<close> in Diagnostics and \<^verbatim>\<open>whep.go\<close> in
  Whep. An entity is a record with the fields of the struct; a method is a function of it.

  \<^bold>\<open>Secondary adapters.\<close>
  \<^item> StreamRepo (\<^verbatim>\<open>memory/memory_store.go\<close>): the reachable repositories (rule induction over any
    sequence of operations), filtering, sorting and paging.
  \<^item> FragmentRepo (\<^verbatim>\<open>memory/fragment_repository.go\<close>): fragments with their files.
  \<^item> RingLogger (\<^verbatim>\<open>logger/ring_logger.go\<close>): the log as a refinement of the whole history, and
    concurrent callers as interleavings of reserving an id and appending.
  \<^item> RtspText, RtspClient, Ingestor (\<^verbatim>\<open>ingest/\<close>): the client as functions of a connection, the worker
    of a session as a step relation with its invariant.
  \<^item> IngestLife: infinite runs of a worker; a stopped one comes to its end (liveness, by a measure on
    its phases).
  \<^item> OnvifSoap, Onvif (\<^verbatim>\<open>onvif/\<close>): the SOAP messages and how they are read, probing a camera and the search
    by multicast.
  \<^item> NatsPublisher (\<^verbatim>\<open>nats/publisher.go\<close>), MotionDetector (\<^verbatim>\<open>vmd/\<close>), ShmAdapter (\<^verbatim>\<open>shm/\<close>), Gpu and
    Hardware (\<^verbatim>\<open>gpu/\<close>): what is made of \<^verbatim>\<open>nvidia-smi\<close>, \<^verbatim>\<open>/proc/meminfo\<close>, \<^verbatim>\<open>statfs\<close> and the runtime.

  \<^bold>\<open>Application.\<close> StreamService, Whep, Diagnostics and Telemetry are the files of
  \<^verbatim>\<open>application/\<close>; the record \<open>service\<close> is \<^verbatim>\<open>StreamService\<close>, made of the states of the adapters. The
  invariant that the running ingest sessions are those of the registered streams is proved over
  every sequence of operations.

  \<^bold>\<open>Primary adapter.\<close> Auth is the middleware. HttpBase holds requests' environments and answers,
  HttpWhep, HttpFragments, HttpTelemetry and HttpStreams the handlers, HttpRoutes the route table and
  \<open>serve\<close>, the whole server as a function of a request and the service. The properties of tenants,
  roles and credentials are stated of \<open>serve\<close> and of the handlers. Probe and Snapshot are the probes of
  a source and the pictures of a stream, as functions from what the network and the media programs
  answer to the reply, the requests made and the files written; HttpProbe are their handlers and those
  of ONVIF discovery, and HttpCameras the properties of these endpoints at the server. ApiDocument is
  the API document of \<^verbatim>\<open>swagger.go\<close> as a table, which the server is shown to keep. MediaBridge is the
  state the media endpoints share (running MJPEG readers and H.264 bridges) with its critical sections
  as steps, and MjpegReader the loop of a reader, of which it is proved when it ends.

  \<^bold>\<open>Entry point.\<close> Startup is \<^verbatim>\<open>cmd/hydrastream/main.go\<close> with the search for the programs it starts and
  their ports, and CameraSync the synchronisation with the camera database of
  \<^verbatim>\<open>cmd/hydrastream/sync.go\<close>.

  \<^bold>\<open>Arguments of the model.\<close> What the program reads of the world is an argument: every reading of the
  clock, the order of a map iteration, random bytes, the outputs of \<^verbatim>\<open>nvidia-smi\<close>, \<^verbatim>\<open>sqlite3\<close> and
  \<^verbatim>\<open>statfs\<close>, whether a write succeeds, and the answers of other servers. So are the library functions
  the program only calls (JSON, HMAC, MD5, URL and time parsing). No law of them is assumed unless
  a theorem names it, and then its witness gives an instance.

  \<^bold>\<open>Bounds.\<close> A Go \<^verbatim>\<open>int\<close> is an \<open>int\<close> reduced by \<open>i64\<close> where it can leave the 64-bit range, other widths
  are words; theorems about counts name the bound below which they hold (for example page times
  limit below \<open>2^63\<close>). There is no fuel: loops are recursive over their data, the RTSP client over
  the bytes the peer sends. The loop of an MJPEG reader may run for ever; it is a partial function into
  an option, and the condition under which it has a value is proved.

  \<^bold>\<open>Not modelled.\<close> Child processes once they run, their signals and windows (\<^verbatim>\<open>proc\<close>, and the pipe of
  \<^verbatim>\<open>rust/engine_client.go\<close>); the page of the Swagger UI and the texts of the API document; the JSON writer
  of \<^verbatim>\<open>response.go\<close>, which calls the library on an answer; the interface declarations of \<^verbatim>\<open>ports\<close>, which
  have no behaviour; what the NATS library does with a connection; and the other
  programs of the repository (the Rust engine, the SDKs, the web page). A name is resolved once per
  request, so an answer of the resolver that changes in between is not modelled. Letter case and white
  space are those of ASCII, and HTTP headers other than those that carry a value of the domain are
  left out.
\<close>

end
